(* ===== verification/Kernel_Prelude.thy ===== *)
theory Kernel_Prelude
  imports Main "HOL-Library.Word"
begin

text \<open>
  Shared vocabulary of the zkrnl32 development.

  The machine integers of the source are words (\<open>u8\<close>, \<open>u16\<close>, \<open>u32\<close>, \<open>u64\<close>).
  The target is a 32-bit machine (\<open>targets/i386-zkrnl32.json\<close>), so \<open>usize\<close> is a natural number
  below \<open>2 ^ 32\<close>; its arithmetic is written out by \<open>usize_add\<close>, \<open>usize_sub\<close> and \<open>usize_mul\<close>.
  What they do on overflow depends on the build profile: with the debug profile (the one the
  Makefile builds) the operation panics, with the release profile it wraps around.

  A panic is a value (\<open>panic\<close>); a fallible pure function returns \<open>'a res\<close>, that is
  \<open>panic + 'a\<close>, and a stateful one returns the result together with the state it left behind, so
  that the effects made before a panic stay visible.  Raw memory is a function from byte addresses.
\<close>

unbundle bit_operations_syntax

named_theorems panic_free \<open>an operation returns normally under its precondition\<close>
named_theorems model_defs \<open>definitions of the small operations, unfolded together\<close>

section \<open>Machine integers\<close>

type_synonym u8 = "8 word"
type_synonym u16 = "16 word"
type_synonym u32 = "32 word"
type_synonym u64 = "64 word"
type_synonym usize = nat

text \<open>The two build profiles: overflow checks and \<open>debug_assert!\<close> are on in \<open>Debug\<close> only.\<close>

datatype profile = Debug | Release

text \<open>
  Every way the modelled code can stop.  All are panics of the source but the last, the access to an
  unmapped address: the kernel installs no interrupt table, so a page fault resets the machine.
\<close>

datatype panic =
    Arith_Overflow
  | Debug_Assert_Failed
  | Index_Out_Of_Bounds nat nat
  | Double_Free
  | Out_Of_Frames
  | Above_Identity_Map nat
  | No_Memory_Map
  | Not_Multiboot u32
  | Page_Fault nat

type_synonym 'a res = "panic + 'a"

definition rbind :: "'a res \<Rightarrow> ('a \<Rightarrow> 'b res) \<Rightarrow> 'b res" where
  "rbind m f = (case m of Inl e \<Rightarrow> Inl e | Inr x \<Rightarrow> f x)"

lemma rbind_simps [simp]:
  "rbind (Inl e) f = Inl e"
  "rbind (Inr x) f = f x"
  by (simp_all add: rbind_def)

lemma rbind_eq_Inr: "rbind m f = Inr y \<longleftrightarrow> (\<exists>x. m = Inr x \<and> f x = Inr y)"
  by (cases m) auto

definition overflow :: "profile \<Rightarrow> nat \<Rightarrow> nat res" where
  "overflow p wrapped = (case p of Debug \<Rightarrow> Inl Arith_Overflow | Release \<Rightarrow> Inr wrapped)"

definition usize_add :: "profile \<Rightarrow> usize \<Rightarrow> usize \<Rightarrow> usize res" where
  "usize_add p a b = (if a + b < 2 ^ 32 then Inr (a + b) else overflow p ((a + b) mod 2 ^ 32))"

definition usize_sub :: "profile \<Rightarrow> usize \<Rightarrow> usize \<Rightarrow> usize res" where
  "usize_sub p a b = (if b \<le> a then Inr (a - b) else overflow p ((2 ^ 32 + a - b) mod 2 ^ 32))"

definition usize_mul :: "profile \<Rightarrow> usize \<Rightarrow> usize \<Rightarrow> usize res" where
  "usize_mul p a b = (if a * b < 2 ^ 32 then Inr (a * b) else overflow p ((a * b) mod 2 ^ 32))"

definition usize_saturating_add :: "usize \<Rightarrow> usize \<Rightarrow> usize" where
  "usize_saturating_add a b = min (a + b) (2 ^ 32 - 1)"

text \<open>Saturating subtraction is what subtraction on \<open>nat\<close> already does.\<close>

definition usize_saturating_sub :: "usize \<Rightarrow> usize \<Rightarrow> usize" where
  "usize_saturating_sub a b = a - b"

text \<open>\<open>NonZeroUsize::new\<close>\<close>

definition non_zero :: "usize \<Rightarrow> usize option" where
  "non_zero n = (if n = 0 then None else Some n)"

definition div_ceil :: "nat \<Rightarrow> nat \<Rightarrow> nat" where
  "div_ceil a b = (a div b) + (if a mod b = 0 then 0 else 1)"

definition debug_assert :: "profile \<Rightarrow> bool \<Rightarrow> unit res" where
  "debug_assert p b = (if p = Debug \<and> \<not> b then Inl Debug_Assert_Failed else Inr ())"

text \<open>
  A shift by the width or more panics with overflow checks; without them the hardware masks the
  shift count to its low five bits.
\<close>

definition u32_shl :: "profile \<Rightarrow> u32 \<Rightarrow> usize \<Rightarrow> u32 res" where
  "u32_shl p x n = (if n < 32 then Inr (push_bit n x)
     else case p of Debug \<Rightarrow> Inl Arith_Overflow | Release \<Rightarrow> Inr (push_bit (n mod 32) x))"

definition u32_shr :: "profile \<Rightarrow> u32 \<Rightarrow> usize \<Rightarrow> u32 res" where
  "u32_shr p x n = (if n < 32 then Inr (drop_bit n x)
     else case p of Debug \<Rightarrow> Inl Arith_Overflow | Release \<Rightarrow> Inr (drop_bit (n mod 32) x))"

definition u64_add :: "profile \<Rightarrow> u64 \<Rightarrow> u64 \<Rightarrow> u64 res" where
  "u64_add p a b = (if unat a + unat b < 2 ^ 64 then Inr (a + b)
     else case p of Debug \<Rightarrow> Inl Arith_Overflow | Release \<Rightarrow> Inr (a + b))"

lemma usize_add_ok [panic_free]: "a + b < 2 ^ 32 \<Longrightarrow> usize_add p a b = Inr (a + b)"
  by (simp add: usize_add_def)

lemma usize_sub_ok [panic_free]: "b \<le> a \<Longrightarrow> usize_sub p a b = Inr (a - b)"
  by (simp add: usize_sub_def)

lemma usize_mul_ok [panic_free]: "a * b < 2 ^ 32 \<Longrightarrow> usize_mul p a b = Inr (a * b)"
  by (simp add: usize_mul_def)

lemma debug_assert_ok [panic_free]: "b \<Longrightarrow> debug_assert p b = Inr ()"
  by (simp add: debug_assert_def)

lemma u32_shl_ok [panic_free]: "n < 32 \<Longrightarrow> u32_shl p x n = Inr (push_bit n x)"
  by (simp add: u32_shl_def)

lemma u32_shr_ok [panic_free]: "n < 32 \<Longrightarrow> u32_shr p x n = Inr (drop_bit n x)"
  by (simp add: u32_shr_def)

lemma div_ceil_le_iff: "0 < b \<Longrightarrow> div_ceil a b \<le> n \<longleftrightarrow> a \<le> n * b"
proof -
  assume b: "0 < b"
  have a: "a = a div b * b + a mod b" by simp
  have m: "a mod b < b" using b by simp
  show ?thesis
  proof (cases "a mod b = 0")
    case True
    then have "a = a div b * b" using a by simp
    then show ?thesis using b True by (simp add: div_ceil_def) (metis mult_le_cancel2)
  next
    case False
    have "a \<le> n * b \<longleftrightarrow> a div b < n"
    proof
      assume "a \<le> n * b"
      then have "a div b * b < n * b" using a False by linarith
      then show "a div b < n" by simp
    next
      assume "a div b < n"
      then have "Suc (a div b) * b \<le> n * b" by (intro mult_le_mono1) simp
      then have "a div b * b + b \<le> n * b" by simp
      then show "a \<le> n * b" using a m by linarith
    qed
    then show ?thesis using False by (simp add: div_ceil_def Suc_le_eq)
  qed
qed

lemma div_eq_iff_range:
  assumes "0 < (n :: nat)"
  shows "a div n = k \<longleftrightarrow> k * n \<le> a \<and> a < k * n + n"
proof
  assume "a div n = k"
  then show "k * n \<le> a \<and> a < k * n + n"
    using div_mult_mod_eq [of a n] mod_less_divisor [OF assms, of a] by auto
next
  assume "k * n \<le> a \<and> a < k * n + n"
  then show "a div n = k" by (intro div_nat_eqI) (auto simp: mult.commute)
qed

lemma mod_eq_sub: "(a :: nat) div n = k \<Longrightarrow> a mod n = a - k * n"
  by (auto simp: minus_div_mult_eq_mod)

text \<open>Between 32-bit words and natural numbers.\<close>

lemma unat_less_2p32: "unat (w :: u32) < 4294967296"
  using unsigned_less [of w] by simp

lemma unat_of_nat_u32: "n < 4294967296 \<Longrightarrow> unat (of_nat n :: u32) = n"
  by (simp add: unat_of_nat)

lemma u32_eq_iff_unat: "(v :: u32) = w \<longleftrightarrow> unat v = unat w"
  by (rule word_unat_eq_iff)

section \<open>Stateful code\<close>

text \<open>A computation over a state: it returns or panics, and leaves a state behind in both cases.\<close>

type_synonym ('s, 'a) st = "'s \<Rightarrow> 'a res \<times> 's"

definition ret :: "'a \<Rightarrow> ('s, 'a) st" where
  "ret x = (\<lambda>s. (Inr x, s))"

definition sbind :: "('s, 'a) st \<Rightarrow> ('a \<Rightarrow> ('s, 'b) st) \<Rightarrow> ('s, 'b) st" where
  "sbind m f = (\<lambda>s. case m s of (Inl e, s') \<Rightarrow> (Inl e, s') | (Inr x, s') \<Rightarrow> f x s')"

definition throw :: "panic \<Rightarrow> ('s, 'a) st" where
  "throw e = (\<lambda>s. (Inl e, s))"

definition lift :: "'a res \<Rightarrow> ('s, 'a) st" where
  "lift r = (\<lambda>s. (r, s))"

definition reads :: "('s \<Rightarrow> 'a res) \<Rightarrow> ('s, 'a) st" where
  "reads f = (\<lambda>s. (f s, s))"

definition update :: "('s \<Rightarrow> 's) \<Rightarrow> ('s, unit) st" where
  "update f = (\<lambda>s. (Inr (), f s))"

text \<open>\<open>for x in xs { body }\<close>; a panic in the body ends the loop.\<close>

fun for_each :: "('x \<Rightarrow> ('s, unit) st) \<Rightarrow> 'x list \<Rightarrow> ('s, unit) st" where
  "for_each body [] = ret ()"
| "for_each body (x # xs) = sbind (body x) (\<lambda>_. for_each body xs)"

lemma st_simps [simp]:
  "ret x s = (Inr x, s)"
  "throw e s = (Inl e, s)"
  "lift r s = (r, s)"
  "reads f s = (f s, s)"
  "update g s = (Inr (), g s)"
  by (simp_all add: ret_def throw_def lift_def reads_def update_def)

lemma sbind_Inr: "m s = (Inr x, s') \<Longrightarrow> sbind m f s = f x s'"
  by (simp add: sbind_def)

lemma sbind_Inl: "m s = (Inl e, s') \<Longrightarrow> sbind m f s = (Inl e, s')"
  by (simp add: sbind_def)

lemma sbind_simps [simp]:
  "sbind (ret x) f s = f x s"
  "sbind (throw e) f s = (Inl e, s)"
  "sbind (lift (Inr x)) f s = f x s"
  "sbind (lift (Inl e)) f s = (Inl e, s)"
  "sbind (update g) h s = h () (g s)"
  by (simp_all add: sbind_def)

lemma sbind_reads: "sbind (reads g) f s = (case g s of Inl e \<Rightarrow> (Inl e, s) | Inr x \<Rightarrow> f x s)"
  by (simp add: sbind_def split: sum.splits)

lemma sbind_assoc: "sbind (sbind m f) g = sbind m (\<lambda>x. sbind (f x) g)"
  by (auto simp: sbind_def fun_eq_iff split: prod.splits sum.splits)

text \<open>Code that may also not return: \<open>None\<close> is a run that never ends.\<close>

type_synonym ('s, 'a) dst = "'s \<Rightarrow> ('a res \<times> 's) option"

definition total_st :: "('s, 'a) st \<Rightarrow> ('s, 'a) dst" where
  "total_st m = (\<lambda>s. Some (m s))"

definition dbind :: "('s, 'a) dst \<Rightarrow> ('a \<Rightarrow> ('s, 'b) dst) \<Rightarrow> ('s, 'b) dst" where
  "dbind m f = (\<lambda>s. case m s of None \<Rightarrow> None
     | Some (Inl e, s') \<Rightarrow> Some (Inl e, s') | Some (Inr x, s') \<Rightarrow> f x s')"

lemma dbind_Inr: "m s = Some (Inr x, s') \<Longrightarrow> dbind m f s = f x s'"
  by (simp add: dbind_def)

lemma dbind_Inl: "m s = Some (Inl e, s') \<Longrightarrow> dbind m f s = Some (Inl e, s')"
  by (simp add: dbind_def)

lemma dbind_total: "m s = (Inr x, s') \<Longrightarrow> dbind (total_st m) f s = f x s'"
  by (simp add: dbind_def total_st_def)

text \<open>
  Total correctness of a loop: a step that keeps the invariant without panicking carries it from
  the empty prefix to the whole list.
\<close>

lemma for_each_invariant:
  assumes "I [] s"
    and "\<And>pre x post s. xs = pre @ x # post \<Longrightarrow> I pre s \<Longrightarrow>
           \<exists>s'. body x s = (Inr (), s') \<and> I (pre @ [x]) s'"
  shows "\<exists>s'. for_each body xs s = (Inr (), s') \<and> I xs s'"
proof -
  have "xs = pre @ ys \<Longrightarrow> I pre s \<Longrightarrow> \<exists>s'. for_each body ys s = (Inr (), s') \<and> I xs s'" for pre ys s
  proof (induction ys arbitrary: pre s)
    case Nil
    then show ?case by simp
  next
    case (Cons y ys)
    obtain s' where s': "body y s = (Inr (), s')" "I (pre @ [y]) s'"
      using assms(2) Cons.prems by blast
    from Cons.IH [of "pre @ [y]" s'] s' Cons.prems(1) show ?case
      by (simp add: sbind_Inr)
  qed
  from this [of "[]" xs s] assms(1) show ?thesis by simp
qed

lemma for_each_append:
  "for_each body (xs @ ys) s = sbind (for_each body xs) (\<lambda>_. for_each body ys) s"
  by (induction xs arbitrary: s) (simp_all add: sbind_def split: prod.splits sum.splits)

text \<open>What every step keeps, the whole keeps, whether it returns or panics.\<close>

lemma sbind_keeps:
  assumes "\<And>s. v (snd (m s)) = v s" "\<And>x s. v (snd (f x s)) = v s"
  shows "v (snd (sbind m f s)) = v s"
  using assms(1) [of s] assms(2) by (auto simp: sbind_def split: prod.splits sum.splits)

lemma for_each_keeps:
  assumes "\<And>x s. v (snd (body x s)) = v s"
  shows "v (snd (for_each body xs s)) = v s"
  by (induction xs arbitrary: s) (simp_all add: sbind_keeps assms)

lemma sbind_invariant:
  assumes "I (snd (m s))" "\<And>x s. I s \<Longrightarrow> I (snd (f x s))"
  shows "I (snd (sbind m f s))"
  using assms by (auto simp: sbind_def split: prod.splits sum.splits)

section \<open>Bytes and memory\<close>

text \<open>Little-endian decoding and encoding of a word (the target is little-endian).\<close>

definition of_le_bytes :: "u8 list \<Rightarrow> 'a::len word" where
  "of_le_bytes bs = foldr (\<lambda>b acc. ucast b OR push_bit 8 acc) bs 0"

definition to_le_bytes :: "nat \<Rightarrow> 'a::len word \<Rightarrow> u8 list" where
  "to_le_bytes n w = map (\<lambda>i. ucast (drop_bit (8 * i) w)) [0..<n]"

lemma of_le_bytes_simps [simp]:
  "of_le_bytes [] = 0"
  "of_le_bytes (b # bs) = ucast b OR push_bit 8 (of_le_bytes bs)"
  by (simp_all add: of_le_bytes_def)

lemma length_to_le_bytes [simp]: "length (to_le_bytes n w) = n"
  by (simp add: to_le_bytes_def)

lemma bit_of_le_bytes:
  "bit (of_le_bytes bs :: 'a::len word) i \<longleftrightarrow>
     i < LENGTH('a) \<and> i div 8 < length bs \<and> bit (bs ! (i div 8)) (i mod 8)"
proof (induction bs arbitrary: i)
  case Nil
  then show ?case by simp
next
  case (Cons b bs)
  show ?case
  proof (cases "i < 8")
    case True
    then show ?thesis by (auto simp: bit_simps)
  next
    case False
    then have nob: "\<not> bit b i"
      by (auto dest: bit_imp_le_length)
    from False have "(i - 8) div 8 = i div 8 - 1" "(i - 8) mod 8 = i mod 8" "0 < i div 8"
      by (auto simp: div_if mod_if)
    moreover from this have "i div 8 - 1 < length bs \<longleftrightarrow> i div 8 < Suc (length bs)"
      by linarith
    ultimately show ?thesis
      using nob False by (auto simp: bit_simps Cons.IH nth_Cons' less_imp_diff_less dest: bit_imp_le_length)
  qed
qed

lemma of_le_bytes_to_le_bytes:
  "of_le_bytes (to_le_bytes n (w :: 'a::len word)) = take_bit (8 * n) w"
proof (rule bit_word_eqI)
  fix i
  assume i: "i < LENGTH('a)"
  have "i div 8 < n \<longleftrightarrow> i < 8 * n" by auto
  with i show "bit (of_le_bytes (to_le_bytes n w) :: 'a word) i \<longleftrightarrow> bit (take_bit (8 * n) w) i"
    by (auto simp: bit_of_le_bytes to_le_bytes_def bit_simps)
qed

text \<open>Byte-addressed memory, as the raw pointer accesses of the code see it.\<close>

type_synonym memory = "nat \<Rightarrow> u8"

definition load_bytes :: "memory \<Rightarrow> nat \<Rightarrow> nat \<Rightarrow> u8 list" where
  "load_bytes m a n = map m [a..<a + n]"

definition store_bytes :: "nat \<Rightarrow> u8 list \<Rightarrow> memory \<Rightarrow> memory" where
  "store_bytes a bs m = (\<lambda>x. if a \<le> x \<and> x < a + length bs then bs ! (x - a) else m x)"

definition load32 :: "memory \<Rightarrow> nat \<Rightarrow> u32" where
  "load32 m a = of_le_bytes (load_bytes m a 4)"

definition store32 :: "nat \<Rightarrow> u32 \<Rightarrow> memory \<Rightarrow> memory" where
  "store32 a w m = store_bytes a (to_le_bytes 4 w) m"

lemma length_load_bytes [simp]: "length (load_bytes m a n) = n"
  by (simp add: load_bytes_def)

lemma load_bytes_store_bytes_same [simp]: "load_bytes (store_bytes a bs m) a (length bs) = bs"
  by (rule nth_equalityI) (simp_all add: load_bytes_def store_bytes_def)

lemma load_bytes_store_bytes_other:
  "a + n \<le> b \<or> b + length bs \<le> a \<Longrightarrow> load_bytes (store_bytes b bs m) a n = load_bytes m a n"
  by (auto simp: load_bytes_def store_bytes_def)

lemma store_bytes_outside: "x < a \<or> a + length bs \<le> x \<Longrightarrow> store_bytes a bs m x = m x"
  by (auto simp: store_bytes_def)

lemma load32_store32_same [simp]: "load32 (store32 a w m) a = w"
  using load_bytes_store_bytes_same [of a "to_le_bytes 4 w" m]
  by (simp add: load32_def store32_def of_le_bytes_to_le_bytes take_bit_word_eq_self)

lemma load32_store32_other: "a + 4 \<le> b \<or> b + 4 \<le> a \<Longrightarrow> load32 (store32 b w m) a = load32 m a"
  by (simp add: load32_def store32_def load_bytes_store_bytes_other)

lemma store32_outside: "x < a \<or> a + 4 \<le> x \<Longrightarrow> store32 a w m x = m x"
  by (simp add: store32_def store_bytes_outside)

lemma load32_cong: "(\<And>i. a \<le> i \<Longrightarrow> i < a + 4 \<Longrightarrow> m i = m' i) \<Longrightarrow> load32 m a = load32 m' a"
  by (auto simp: load32_def load_bytes_def intro!: arg_cong [where f = of_le_bytes])

end
