(* ===== verification/Format.thy ===== *)
theory Format
  imports Kernel_Prelude
begin

text \<open>
  The parts of Rust's formatting machinery the kernel uses: decimal numbers, right-aligned decimal
  numbers (\<open>{:>9}\<close>) and zero-padded hexadecimal numbers with a prefix (\<open>{:#010x}\<close>, \<open>{:#012x}\<close>,
  \<open>{:#x}\<close>).  Text is ASCII, so a string is a list of characters and its bytes are their codes.
\<close>

definition digit_char :: "nat \<Rightarrow> char" where
  "digit_char d = char_of (if d < 10 then 48 + d else 87 + d)"

text \<open>The digits of a number in a base of at least two, most significant first.\<close>

function digits_in :: "nat \<Rightarrow> nat \<Rightarrow> nat list" where
  "digits_in b n = (if b < 2 \<or> n < b then [n] else digits_in b (n div b) @ [n mod b])"
  by pat_completeness auto
termination
  by (relation "measure snd") (auto intro: div_less_dividend)

declare digits_in.simps [simp del]

definition fmt_dec :: "nat \<Rightarrow> string" where
  "fmt_dec n = map digit_char (digits_in 10 n)"

definition hex_digits :: "nat \<Rightarrow> string" where
  "hex_digits n = map digit_char (digits_in 16 n)"

text \<open>\<open>{:#0Wx}\<close>: the width \<open>W\<close> counts the prefix, and the zeros go between prefix and digits.\<close>

definition fmt_hex :: "nat \<Rightarrow> nat \<Rightarrow> string" where
  "fmt_hex w n = ''0x'' @ replicate (w - 2 - length (hex_digits n)) CHR ''0'' @ hex_digits n"

text \<open>\<open>{:>W}\<close>\<close>

definition pad_left :: "nat \<Rightarrow> string \<Rightarrow> string" where
  "pad_left w s = replicate (w - length s) CHR '' '' @ s"

text \<open>\<open>str::as_bytes\<close>\<close>

definition as_bytes :: "string \<Rightarrow> u8 list" where
  "as_bytes s = map of_char s"

text \<open>Reading digits back.\<close>

definition undigits :: "nat \<Rightarrow> nat list \<Rightarrow> nat" where
  "undigits b ds = foldl (\<lambda>acc d. acc * b + d) 0 ds"

lemma undigits_append: "undigits b (ds @ [d]) = undigits b ds * b + d"
  by (simp add: undigits_def)

lemma undigits_digits_in: "undigits b (digits_in b n) = n"
proof (induction b n rule: digits_in.induct)
  case (1 b n)
  show ?case
  proof (cases "b < 2 \<or> n < b")
    case True
    then show ?thesis by (subst digits_in.simps) (simp add: undigits_def)
  next
    case False
    with "1.IH" show ?thesis by (subst digits_in.simps) (simp add: undigits_append)
  qed
qed

lemma digits_in_less: "2 \<le> b \<Longrightarrow> \<forall>d \<in> set (digits_in b n). d < b"
proof (induction b n rule: digits_in.induct)
  case (1 b n)
  show ?case
  proof (cases "n < b")
    case True
    then show ?thesis by (subst digits_in.simps) simp
  next
    case False
    with "1.IH" "1.prems" have "\<forall>d \<in> set (digits_in b (n div b)). d < b" by simp
    with False "1.prems" show ?thesis by (subst digits_in.simps) auto
  qed
qed

lemma length_digits_in:
  "2 \<le> b \<Longrightarrow> n < b ^ k \<Longrightarrow> 0 < k \<Longrightarrow> length (digits_in b n) \<le> k"
proof (induction b n arbitrary: k rule: digits_in.induct)
  case (1 b n)
  show ?case
  proof (cases "n < b")
    case True
    with "1.prems" show ?thesis by (subst digits_in.simps) simp
  next
    case False
    have "k \<noteq> 1" using False "1.prems" by auto
    with "1.prems" obtain k' where k: "k = Suc k'" "0 < k'"
      by (cases k) auto
    with "1.prems" have "n div b < b ^ k'"
      by (simp add: less_mult_imp_div_less mult.commute)
    with "1.IH" [of k'] False "1.prems" k have "length (digits_in b (n div b)) \<le> k'" by simp
    with False "1.prems" k show ?thesis by (subst digits_in.simps) simp
  qed
qed

lemma as_bytes_append [simp]: "as_bytes (s @ t) = as_bytes s @ as_bytes t"
  by (simp add: as_bytes_def)

lemma length_as_bytes [simp]: "length (as_bytes s) = length s"
  by (simp add: as_bytes_def)

text \<open>A 32-bit value printed with \<open>{:#010x}\<close> always takes exactly ten characters.\<close>

lemma length_fmt_hex: "n < 16 ^ (w - 2) \<Longrightarrow> 2 < w \<Longrightarrow> length (fmt_hex w n) = w"
  using length_digits_in [of 16 n "w - 2"] by (simp add: fmt_hex_def hex_digits_def)

end
