(* ===== verification/Address.thy ===== *)
theory Address
  imports Format
begin

text \<open>
  The typed addresses of \<open>src/src/memory/address.rs\<close>: physical and virtual byte addresses and the
  4 KiB frame and page numbers they decompose into.  The newtypes are one-constructor datatypes and
  carry the derived orderings of the source.
\<close>

section \<open>The newtypes\<close>

datatype phys_addr = PhysAddr (phys_raw: u32)
datatype virt_addr = VirtAddr (virt_raw: u32)
datatype frame_number = FrameNumber (frame_index: usize)
datatype page_number = PageNumber (page_index: usize)

instantiation phys_addr :: linorder
begin

definition less_eq_phys_addr :: "phys_addr \<Rightarrow> phys_addr \<Rightarrow> bool" where
  "less_eq_phys_addr a b = (phys_raw a \<le> phys_raw b)"

definition less_phys_addr :: "phys_addr \<Rightarrow> phys_addr \<Rightarrow> bool" where
  "less_phys_addr a b = (phys_raw a < phys_raw b)"

instance
  by standard (auto simp: less_eq_phys_addr_def less_phys_addr_def phys_addr.expand)

end

instantiation virt_addr :: linorder
begin

definition less_eq_virt_addr :: "virt_addr \<Rightarrow> virt_addr \<Rightarrow> bool" where
  "less_eq_virt_addr a b = (virt_raw a \<le> virt_raw b)"

definition less_virt_addr :: "virt_addr \<Rightarrow> virt_addr \<Rightarrow> bool" where
  "less_virt_addr a b = (virt_raw a < virt_raw b)"

instance
  by standard (auto simp: less_eq_virt_addr_def less_virt_addr_def virt_addr.expand)

end

instantiation frame_number :: linorder
begin

definition less_eq_frame_number :: "frame_number \<Rightarrow> frame_number \<Rightarrow> bool" where
  "less_eq_frame_number a b = (frame_index a \<le> frame_index b)"

definition less_frame_number :: "frame_number \<Rightarrow> frame_number \<Rightarrow> bool" where
  "less_frame_number a b = (frame_index a < frame_index b)"

instance
  by standard (auto simp: less_eq_frame_number_def less_frame_number_def frame_number.expand)

end

instantiation page_number :: linorder
begin

definition less_eq_page_number :: "page_number \<Rightarrow> page_number \<Rightarrow> bool" where
  "less_eq_page_number a b = (page_index a \<le> page_index b)"

definition less_page_number :: "page_number \<Rightarrow> page_number \<Rightarrow> bool" where
  "less_page_number a b = (page_index a < page_index b)"

instance
  by standard (auto simp: less_eq_page_number_def less_page_number_def page_number.expand)

end

section \<open>Physical addresses\<close>

definition frame_floor :: "phys_addr \<Rightarrow> frame_number" where
  "frame_floor a = FrameNumber (unat (phys_raw a div 4096))"

definition frame_ceil :: "phys_addr \<Rightarrow> frame_number" where
  "frame_ceil a = FrameNumber (div_ceil (unat (phys_raw a)) 4096)"

definition is_frame_aligned :: "phys_addr \<Rightarrow> bool" where
  "is_frame_aligned a = (phys_raw a mod 4096 = 0)"

section \<open>Virtual addresses\<close>

text \<open>A pointer is the address it holds.\<close>

definition as_ptr :: "virt_addr \<Rightarrow> nat" where
  "as_ptr a = unat (virt_raw a)"

definition as_mut_ptr :: "virt_addr \<Rightarrow> nat" where
  "as_mut_ptr a = unat (virt_raw a)"

definition page_floor :: "virt_addr \<Rightarrow> page_number" where
  "page_floor a = PageNumber (unat (virt_raw a div 4096))"

definition page_ceil :: "virt_addr \<Rightarrow> page_number" where
  "page_ceil a = PageNumber (div_ceil (unat (virt_raw a)) 4096)"

definition pd_index :: "virt_addr \<Rightarrow> usize" where
  "pd_index a = unat (drop_bit 22 (virt_raw a))"

definition pt_index :: "virt_addr \<Rightarrow> usize" where
  "pt_index a = unat (drop_bit 12 (virt_raw a) AND 0x3FF)"

definition offset :: "virt_addr \<Rightarrow> usize" where
  "offset a = unat (virt_raw a AND 0xFFF)"

text \<open>The shifts act on a 32-bit \<open>usize\<close> and drop the bits that leave it.\<close>

definition from_indices :: "usize \<Rightarrow> usize \<Rightarrow> usize \<Rightarrow> virt_addr" where
  "from_indices pdi pti off =
     VirtAddr (push_bit 22 (of_nat pdi) OR push_bit 12 (of_nat pti) OR of_nat off)"

definition is_page_aligned :: "virt_addr \<Rightarrow> bool" where
  "is_page_aligned a = (virt_raw a mod 4096 = 0)"

section \<open>Frame and page numbers\<close>

definition frame_base_addr :: "profile \<Rightarrow> frame_number \<Rightarrow> phys_addr res" where
  "frame_base_addr p f = rbind (usize_mul p (frame_index f) 4096) (\<lambda>b. Inr (PhysAddr (of_nat b)))"

definition page_base_addr :: "profile \<Rightarrow> page_number \<Rightarrow> virt_addr res" where
  "page_base_addr p n = rbind (usize_mul p (page_index n) 4096) (\<lambda>b. Inr (VirtAddr (of_nat b)))"

section \<open>Debug output\<close>

definition phys_addr_debug :: "phys_addr \<Rightarrow> string" where
  "phys_addr_debug a = ''PhysAddr('' @ fmt_hex 10 (unat (phys_raw a)) @ '')''"

definition virt_addr_debug :: "virt_addr \<Rightarrow> string" where
  "virt_addr_debug a = ''VirtAddr('' @ fmt_hex 10 (unat (virt_raw a)) @ '')''"

definition frame_number_debug :: "frame_number \<Rightarrow> string" where
  "frame_number_debug f = ''FrameNumber('' @ fmt_dec (frame_index f) @ '')''"

definition page_number_debug :: "page_number \<Rightarrow> string" where
  "page_number_debug f = ''PageNumber('' @ fmt_dec (page_index f) @ '')''"

section \<open>Arithmetic views\<close>

text \<open>The bit operations as division and remainder on natural numbers.\<close>

lemma frame_floor_index [simp]: "frame_index (frame_floor a) = unat (phys_raw a) div 4096"
  by (simp add: frame_floor_def unat_div)

lemma frame_ceil_index [simp]: "frame_index (frame_ceil a) = div_ceil (unat (phys_raw a)) 4096"
  by (simp add: frame_ceil_def)

lemma pd_index_eq: "pd_index a = unat (virt_raw a) div 4194304"
  by (simp add: pd_index_def unat_drop_bit_eq drop_bit_eq_div unat_div)

lemma offset_eq: "offset a = unat (virt_raw a) mod 4096"
proof -
  have "virt_raw a AND 0xFFF = take_bit 12 (virt_raw a)"
    by (simp add: take_bit_eq_mask mask_eq_exp_minus_1)
  then show ?thesis
    by (simp add: offset_def unat_mod take_bit_eq_mod)
qed

lemma pt_index_eq: "pt_index a = unat (virt_raw a) div 4096 mod 1024"
proof -
  have "drop_bit 12 (virt_raw a) AND 0x3FF = take_bit 10 (drop_bit 12 (virt_raw a))"
    by (simp add: take_bit_eq_mask mask_eq_exp_minus_1)
  then show ?thesis
    by (simp add: pt_index_def take_bit_eq_mod drop_bit_eq_div unat_div unat_mod)
qed

lemma pd_index_less: "pd_index a < 1024"
  using unat_less_2p32 [of "virt_raw a"] by (simp add: pd_index_eq less_mult_imp_div_less)

lemma pt_index_less: "pt_index a < 1024"
  by (simp add: pt_index_eq)

lemma frame_base_addr_ok [panic_free]:
  "frame_index f < 2 ^ 20 \<Longrightarrow> frame_base_addr p f = Inr (PhysAddr (of_nat (frame_index f * 4096)))"
  by (simp add: frame_base_addr_def usize_mul_ok)

lemma page_base_addr_ok [panic_free]:
  "page_index n < 2 ^ 20 \<Longrightarrow> page_base_addr p n = Inr (VirtAddr (of_nat (page_index n * 4096)))"
  by (simp add: page_base_addr_def usize_mul_ok)

lemma frame_floor_less: "frame_index (frame_floor a) < 2 ^ 20"
  using unat_less_2p32 [of "phys_raw a"] by (simp add: less_mult_imp_div_less)

lemma page_floor_less: "page_index (page_floor a) < 2 ^ 20"
  using unat_less_2p32 [of "virt_raw a"] by (simp add: page_floor_def unat_div less_mult_imp_div_less)

text \<open>Two words without a common bit combine by addition.\<close>

lemma push_bit_or_add:
  assumes "unat (b :: u32) < 2 ^ n" "n < 32"
  shows "push_bit n a OR b = a * 2 ^ n + b"
proof -
  have "unat b = unat (take_bit n b)"
    using assms(1) by (simp add: unsigned_take_bit_eq take_bit_nat_eq_self)
  then have "b = take_bit n b" by (simp only: u32_eq_iff_unat)
  then have "bit b i \<Longrightarrow> i < n" for i
    by (metis bit_take_bit_iff)
  then have "push_bit n a AND b = 0"
    by (intro bit_word_eqI) (fastforce simp: bit_and_iff bit_push_bit_iff)
  then have "push_bit n a + b = push_bit n a OR b"
    by (rule disjunctive_add_eq_or)
  then show ?thesis
    by (simp add: push_bit_eq_mult)
qed


lemma unat_from_indices:
  assumes "pdi < 1024" "pti < 1024" "off < 4096"
  shows "unat (virt_raw (from_indices pdi pti off)) = pdi * 4194304 + pti * 4096 + off"
proof -
  let ?low = "of_nat (pti * 4096 + off) :: u32"
  have low: "unat ?low = pti * 4096 + off"
    using assms by (intro unat_of_nat_u32) linarith
  have "push_bit 12 (of_nat pti) OR of_nat off = ?low"
    using assms push_bit_or_add [of "of_nat off" 12 "of_nat pti"] by (simp add: unat_of_nat_u32)
  moreover have "push_bit 22 (of_nat pdi) OR ?low = of_nat pdi * 4194304 + ?low"
    using assms low push_bit_or_add [of ?low 22 "of_nat pdi"] by simp
  ultimately have "virt_raw (from_indices pdi pti off) = of_nat (pdi * 4194304 + pti * 4096 + off)"
    by (simp add: from_indices_def or.assoc)
  then show ?thesis
    using assms by (simp only:) (intro unat_of_nat_u32, linarith)
qed

lemma from_indices_of_parts: "from_indices (pd_index v) (pt_index v) (offset v) = v"
proof -
  have "unat (virt_raw (from_indices (pd_index v) (pt_index v) (offset v))) =
      unat (virt_raw v) div 4194304 * 4194304 + unat (virt_raw v) div 4096 mod 1024 * 4096
        + unat (virt_raw v) mod 4096"
    by (subst unat_from_indices)
      (simp_all add: pd_index_less pt_index_less offset_eq, simp add: pd_index_eq pt_index_eq)
  also have "\<dots> = unat (virt_raw v)"
  proof -
    have "n div 4194304 * 4194304 + n div 4096 mod 1024 * 4096 + n mod 4096 = n" for n :: nat
    proof -
      have "n div 4194304 = n div 4096 div 1024"
        by (simp add: div_mult2_eq [symmetric])
      then show ?thesis
        using div_mult_mod_eq [of n 4096] div_mult_mod_eq [of "n div 4096" 1024] by linarith
    qed
    then show ?thesis .
  qed
  finally show ?thesis
    by (intro virt_addr.expand) (simp only: u32_eq_iff_unat)
qed

section \<open>Properties\<close>

text \<open>
  C37: splitting a virtual address and putting it together again are inverse to each other.  The
  page-directory index, page-table index and offset of an address recompose to it, and indices in
  range survive the composition.
\<close>

theorem virt_addr_split_roundtrip:
  "from_indices (pd_index v) (pt_index v) (offset v) = v \<and>
   (pdi < 1024 \<and> pti < 1024 \<and> off < 4096 \<longrightarrow>
      pd_index (from_indices pdi pti off) = pdi \<and>
      pt_index (from_indices pdi pti off) = pti \<and>
      offset (from_indices pdi pti off) = off)"
proof (intro conjI impI)
  assume a: "pdi < 1024 \<and> pti < 1024 \<and> off < 4096"
  then have u: "unat (virt_raw (from_indices pdi pti off)) = pdi * 4194304 + pti * 4096 + off"
    by (simp add: unat_from_indices)
  show "pd_index (from_indices pdi pti off) = pdi"
    unfolding pd_index_eq u using a by (intro div_nat_eqI) auto
  have split: "pdi * 4194304 + pti * 4096 + off = (pdi * 1024 + pti) * 4096 + off"
    by simp
  then show "offset (from_indices pdi pti off) = off"
    unfolding offset_eq u split using a by (simp only: mod_mult_self3) simp
  have "(pdi * 4194304 + pti * 4096 + off) div 4096 = pdi * 1024 + pti"
    unfolding split using a by (intro div_nat_eqI) auto
  then show "pt_index (from_indices pdi pti off) = pti"
    using a by (simp add: pt_index_eq u)
qed (rule from_indices_of_parts)

theorem virt_addr_split_roundtrip_witness:
  "pd_index (from_indices 768 512 5) = 768 \<and> pt_index (from_indices 768 512 5) = 512 \<and>
   offset (from_indices 768 512 5) = 5"
  using virt_addr_split_roundtrip [of "VirtAddr 0" 768 512 5] by simp

text \<open>
  C38: rounding a physical address to frames.  The frame an address falls in starts at or below the
  address and less than a frame away, its base address never overflows, and the rounded-up frame
  is the least one whose base is not below the address; as an index it never exceeds \<open>2 ^ 20\<close>,
  even where the rounded byte address would pass the 4 GiB boundary.
\<close>

theorem frame_rounding:
  "\<exists>b. frame_base_addr p (frame_floor a) = Inr b \<and> is_frame_aligned b \<and>
     unat (phys_raw b) \<le> unat (phys_raw a) \<and> unat (phys_raw a) < unat (phys_raw b) + 4096 \<and>
     (\<forall>n. frame_index (frame_ceil a) \<le> n \<longleftrightarrow> unat (phys_raw a) \<le> n * 4096) \<and>
     frame_index (frame_ceil a) \<le> 2 ^ 20 \<and>
     (is_frame_aligned a \<longleftrightarrow> frame_floor a = frame_ceil a)"
proof -
  let ?n = "unat (phys_raw a)"
  let ?b = "PhysAddr (of_nat (?n div 4096 * 4096))"
  have "?n div 4096 * 4096 \<le> ?n" by simp
  also have "?n < 4294967296" by (rule unat_less_2p32)
  finally have u: "unat (phys_raw ?b) = ?n div 4096 * 4096"
    unfolding phys_addr.sel by (rule unat_of_nat_u32)
  have base: "frame_base_addr p (frame_floor a) = Inr ?b"
    using frame_base_addr_ok [OF frame_floor_less] by simp
  have aligned: "is_frame_aligned x \<longleftrightarrow> unat (phys_raw x) mod 4096 = 0" for x
    by (simp add: is_frame_aligned_def u32_eq_iff_unat unat_mod)
  have ceil: "frame_index (frame_ceil a) \<le> n \<longleftrightarrow> ?n \<le> n * 4096" for n
    by (simp add: div_ceil_le_iff)
  have "is_frame_aligned a \<longleftrightarrow> frame_floor a = frame_ceil a"
    by (simp add: aligned frame_number.expand frame_floor_def frame_ceil_def div_ceil_def unat_div)
  moreover have "?n div 4096 * 4096 \<le> ?n" "?n < ?n div 4096 * 4096 + 4096"
    using div_mult_mod_eq [of ?n 4096] mod_less_divisor [of 4096 ?n] by linarith+
  moreover have "is_frame_aligned ?b" unfolding aligned u by simp
  moreover have "frame_index (frame_ceil a) \<le> 2 ^ 20"
    using ceil [of "2 ^ 20"] unat_less_2p32 [of "phys_raw a"] by simp
  ultimately show ?thesis
    using base ceil u by auto
qed

end
