(* ===== verification/Bits.thy ===== *)
theory Bits
  imports Kernel_Prelude
begin

text \<open>
  The bit-mask helper of \<open>src/src/utils/bits.rs\<close>.  \<open>clipped_bit_range_mask\<close> is translated with
  every checked operation of the source; \<open>range_mask\<close> is the reference description by bits.
\<close>

definition WORD_BITS :: usize where
  "WORD_BITS = 32"

declare WORD_BITS_def [simp]

abbreviation U32_MAX :: u32 where
  "U32_MAX \<equiv> - 1"

definition clipped_bit_range_mask :: "profile \<Rightarrow> usize \<Rightarrow> usize \<Rightarrow> (u32 \<times> usize) res" where
  "clipped_bit_range_mask p start_bit len =
     rbind (debug_assert p (start_bit < WORD_BITS)) (\<lambda>_.
     rbind (usize_sub p WORD_BITS start_bit) (\<lambda>room.
     let take = min len room in
     if take = 0 then Inr (0, 0)
     else
       rbind (usize_add p start_bit take) (\<lambda>end_bit.
       rbind (u32_shl p U32_MAX start_bit) (\<lambda>above.
       rbind (usize_sub p WORD_BITS end_bit) (\<lambda>cut.
       rbind (u32_shr p U32_MAX cut) (\<lambda>below.
       Inr (above AND below, take)))))))"

text \<open>The mask whose set bits are exactly \<open>[start, start + len)\<close>.\<close>

definition range_mask :: "nat \<Rightarrow> nat \<Rightarrow> u32" where
  "range_mask start len = push_bit start (mask len)"

lemma bit_range_mask: "bit (range_mask start len) i \<longleftrightarrow> i < 32 \<and> start \<le> i \<and> i < start + len"
  by (auto simp: range_mask_def bit_simps)

lemma range_mask_0 [simp]: "range_mask start 0 = 0"
  by (simp add: range_mask_def)

lemma mask_intersection:
  assumes "start + len \<le> 32"
  shows "push_bit start U32_MAX AND drop_bit (32 - (start + len)) U32_MAX = range_mask start len"
  using assms
  by (intro bit_word_eqI) (auto simp: bit_and_iff bit_not_iff bit_mask_iff bit_range_mask)

lemma clipped_bit_range_mask_eq [panic_free]:
  assumes "start < 32"
  shows "clipped_bit_range_mask p start len =
           Inr (range_mask start (min len (32 - start)), min len (32 - start))"
proof (cases "len = 0")
  case True
  with assms show ?thesis by (simp add: clipped_bit_range_mask_def panic_free)
next
  case False
  let ?t = "min len (32 - start)"
  have le: "start + ?t \<le> 32" and pos: "?t \<noteq> 0" "32 - (start + ?t) < 32"
    using assms False by auto
  then have "usize_add p start ?t = Inr (start + ?t)"
    "usize_sub p 32 (start + ?t) = Inr (32 - (start + ?t))"
    "u32_shr p U32_MAX (32 - (start + ?t)) = Inr (drop_bit (32 - (start + ?t)) U32_MAX)"
    by (simp_all only: usize_add_def usize_sub_def u32_shr_def) simp_all
  with pos assms show ?thesis
    by (simp only: clipped_bit_range_mask_def mask_intersection [OF le] WORD_BITS_def Let_def
        debug_assert_ok usize_sub_ok u32_shl_ok rbind_simps if_False less_imp_le)
qed

text \<open>
  C39: for a start bit inside the word, \<open>clipped_bit_range_mask\<close> never panics, in either profile.
  The mask has exactly the bits of \<open>[start, start + len)\<close> that fit the word, and the second
  component counts them.
\<close>

theorem clipped_bit_range_mask_correct:
  assumes "start < WORD_BITS"
  shows "\<exists>m taken. clipped_bit_range_mask p start len = Inr (m, taken) \<and>
           taken = min len (WORD_BITS - start) \<and>
           (\<forall>i. bit m i \<longleftrightarrow> i < WORD_BITS \<and> start \<le> i \<and> i < start + len) \<and>
           taken = card {i. bit m i}"
proof -
  let ?t = "min len (32 - start)"
  let ?m = "range_mask start ?t"
  have s: "start < 32" using assms by simp
  have bits: "bit ?m i \<longleftrightarrow> i < 32 \<and> start \<le> i \<and> i < start + len" for i
    using s unfolding bit_range_mask by linarith
  have "{i. bit ?m i} = {start..<start + ?t}"
    using s unfolding bit_range_mask by auto
  then have card: "?t = card {i. bit ?m i}" by simp
  show ?thesis
    unfolding WORD_BITS_def
    by (intro exI [of _ ?m] exI [of _ ?t] conjI allI clipped_bit_range_mask_eq [OF s] refl bits card)
qed

theorem clipped_bit_range_mask_correct_witness:
  "(29 :: nat) < WORD_BITS \<and>
   (\<exists>m taken. clipped_bit_range_mask Debug 29 8 = Inr (m, taken) \<and>
      taken = min 8 (WORD_BITS - 29) \<and>
      (\<forall>i. bit m i \<longleftrightarrow> i < WORD_BITS \<and> 29 \<le> i \<and> i < 29 + 8) \<and>
      taken = card {i. bit m i})"
proof -
  have h: "(29 :: nat) < WORD_BITS" by simp
  show ?thesis using h clipped_bit_range_mask_correct [OF h, of Debug 8] by blast
qed

end
