(* ===== verification/Layout.thy ===== *)
theory Layout
  imports Kernel_Prelude
begin

text \<open>
  The static memory layout: the symbols of \<open>src/src/memory/layout.rs\<close> and \<open>src/src/stack.rs\<close>,
  which the linker script \<open>src/boot/linker.ld\<close> and the stack reservation in \<open>src/boot/boot.asm\<close>
  define.  \<open>link\<close> evaluates the script's location counter for given section sizes; \<open>layout_ok\<close> is
  what the rest of the development uses of the result.
\<close>

definition KERNEL_VIRTUAL_BASE :: usize where
  "KERNEL_VIRTUAL_BASE = 0xC0000000"

definition KERNEL_LMA :: usize where
  "KERNEL_LMA = 2 * 1024 * 1024"

record layout =
  kernel_phys_start :: usize
  kernel_phys_end :: usize
  kernel_virt_start :: usize
  kernel_data_start :: usize
  kernel_virt_end :: usize
  stack_guard :: usize
  stack_bottom :: usize
  stack_top :: usize

definition kernel_phys_start_addr :: "layout \<Rightarrow> usize" where
  "kernel_phys_start_addr L = kernel_phys_start L"

definition kernel_phys_end_addr :: "layout \<Rightarrow> usize" where
  "kernel_phys_end_addr L = kernel_phys_end L"

definition kernel_virt_start_addr :: "layout \<Rightarrow> usize" where
  "kernel_virt_start_addr L = kernel_virt_start L"

definition kernel_data_start_addr :: "layout \<Rightarrow> usize" where
  "kernel_data_start_addr L = kernel_data_start L"

definition kernel_virt_end_addr :: "layout \<Rightarrow> usize" where
  "kernel_virt_end_addr L = kernel_virt_end L"

definition stack_guard_addr :: "layout \<Rightarrow> usize" where
  "stack_guard_addr L = stack_guard L"

definition stack_bottom_addr :: "layout \<Rightarrow> usize" where
  "stack_bottom_addr L = stack_bottom L"

definition stack_top_addr :: "layout \<Rightarrow> usize" where
  "stack_top_addr L = stack_top L"

lemmas layout_addr_defs =
  kernel_phys_start_addr_def kernel_phys_end_addr_def kernel_virt_start_addr_def
  kernel_data_start_addr_def kernel_virt_end_addr_def
  stack_guard_addr_def stack_bottom_addr_def stack_top_addr_def

section \<open>Linking\<close>

text \<open>Sizes of the output sections; \<open>.bss\<close> is what lies before and after the boot stack.\<close>

record section_sizes =
  boot_size :: nat
  text_size :: nat
  rodata_size :: nat
  data_size :: nat
  bss_before :: nat
  bss_after :: nat

definition align_up :: "nat \<Rightarrow> nat \<Rightarrow> nat" where
  "align_up a n = div_ceil a n * n"

definition link :: "section_sizes \<Rightarrow> layout" where
  "link sz =
     (let phys_start = KERNEL_LMA;
          boot_end = align_up phys_start 4096 + boot_size sz;
          virt_start = align_up (boot_end + KERNEL_VIRTUAL_BASE) 4096;
          text_end = align_up virt_start 4096 + text_size sz;
          rodata_end = align_up text_end 4096 + rodata_size sz;
          data_start = align_up rodata_end 4096;
          data_end = align_up data_start 4096 + data_size sz;
          bss = align_up data_end 4096;
          guard = align_up (bss + bss_before sz) 4096;
          bottom = guard + 4096;
          top = bottom + 65536;
          virt_end = align_up (top + bss_after sz) 4096
      in \<lparr>kernel_phys_start = phys_start,
          kernel_phys_end = virt_end - KERNEL_VIRTUAL_BASE,
          kernel_virt_start = virt_start,
          kernel_data_start = data_start,
          kernel_virt_end = virt_end,
          stack_guard = guard,
          stack_bottom = bottom,
          stack_top = top\<rparr>)"

text \<open>
  What a linked image guarantees.  The last conjunct is the size limit \<open>PageDirectory::bootstrap\<close>
  states in its comment: the whole image fits the first 4 MiB of physical memory.
\<close>

definition layout_ok :: "layout \<Rightarrow> bool" where
  "layout_ok L \<longleftrightarrow>
     kernel_phys_start L = 0x200000 \<and>
     4096 dvd kernel_virt_start L \<and> 4096 dvd kernel_data_start L \<and>
     4096 dvd stack_guard L \<and> 4096 dvd kernel_virt_end L \<and>
     KERNEL_VIRTUAL_BASE + kernel_phys_start L \<le> kernel_virt_start L \<and>
     kernel_virt_start L \<le> kernel_data_start L \<and>
     kernel_data_start L \<le> stack_guard L \<and>
     stack_bottom L = stack_guard L + 4096 \<and>
     stack_top L = stack_bottom L + 65536 \<and>
     stack_top L \<le> kernel_virt_end L \<and>
     kernel_virt_end L = KERNEL_VIRTUAL_BASE + kernel_phys_end L \<and>
     kernel_phys_end L \<le> 0x400000"

lemma align_up_dvd [simp]: "n dvd align_up a n"
  by (simp add: align_up_def)

lemma align_up_ge: "0 < n \<Longrightarrow> a \<le> align_up a n"
  using div_ceil_le_iff [of n a "div_ceil a n"] by (simp add: align_up_def)

lemma align_up_less:
  assumes "0 < n"
  shows "align_up a n < a + n"
proof (cases "a mod n = 0")
  case True
  then have "align_up a n = a div n * n" by (simp add: align_up_def div_ceil_def)
  with True assms show ?thesis using div_mult_mod_eq [of a n] by linarith
next
  case False
  then have "align_up a n = a div n * n + n" by (simp add: align_up_def div_ceil_def)
  with False show ?thesis using div_mult_mod_eq [of a n] by linarith
qed

lemma link_layout_ok:
  assumes "boot_size sz + text_size sz + rodata_size sz + data_size sz + bss_before sz + bss_after sz
      \<le> 0x1D0000"
  shows "layout_ok (link sz)"
proof -
  let ?K = "3221225472 :: nat"
  define vs where "vs = align_up (align_up KERNEL_LMA 4096 + boot_size sz + KERNEL_VIRTUAL_BASE) 4096"
  define te where "te = align_up vs 4096 + text_size sz"
  define re where "re = align_up te 4096 + rodata_size sz"
  define ds where "ds = align_up re 4096"
  define de where "de = align_up ds 4096 + data_size sz"
  define gu where "gu = align_up (align_up de 4096 + bss_before sz) 4096"
  define ve where "ve = align_up (gu + 4096 + 65536 + bss_after sz) 4096"
  have up: "a \<le> align_up a 4096" "align_up a 4096 < a + 4096" for a
    using align_up_ge [of 4096 a] align_up_less [of 4096 a] by simp_all
  have lma: "align_up KERNEL_LMA 4096 = 0x200000"
    by (simp add: align_up_def div_ceil_def KERNEL_LMA_def)
  have link: "link sz = \<lparr>kernel_phys_start = KERNEL_LMA,
      kernel_phys_end = ve - KERNEL_VIRTUAL_BASE, kernel_virt_start = vs, kernel_data_start = ds,
      kernel_virt_end = ve, stack_guard = gu, stack_bottom = gu + 4096,
      stack_top = gu + 4096 + 65536\<rparr>"
    by (simp add: link_def Let_def vs_def te_def re_def ds_def de_def gu_def ve_def)
  note bounds = up [of "align_up KERNEL_LMA 4096 + boot_size sz + KERNEL_VIRTUAL_BASE", folded vs_def]
    up [of vs] up [of te] up [of re, folded ds_def] up [of ds] up [of de]
    up [of "align_up de 4096 + bss_before sz", folded gu_def]
    up [of "gu + 4096 + 65536 + bss_after sz", folded ve_def]
  have "?K + 0x200000 \<le> vs" "vs \<le> ds" "ds \<le> gu" "gu + 4096 + 65536 \<le> ve"
    using bounds lma te_def re_def de_def KERNEL_VIRTUAL_BASE_def by linarith+
  moreover have "ve \<le> ?K + 0x400000"
    using bounds lma te_def re_def de_def KERNEL_VIRTUAL_BASE_def assms by linarith
  moreover have "4096 dvd vs" "4096 dvd ds" "4096 dvd gu" "4096 dvd ve"
    by (simp_all add: vs_def ds_def gu_def ve_def)
  ultimately show ?thesis
    unfolding link layout_ok_def by (simp add: KERNEL_LMA_def KERNEL_VIRTUAL_BASE_def)
qed

text \<open>A layout for examples.\<close>

definition sample_layout :: layout where
  "sample_layout = link \<lparr>boot_size = 0x2000, text_size = 0x8000, rodata_size = 0x3000,
     data_size = 0x1000, bss_before = 0x20004, bss_after = 0x100\<rparr>"

lemma sample_layout_ok: "layout_ok sample_layout"
  unfolding sample_layout_def by (rule link_layout_ok) simp

lemma link_starts:
  "kernel_phys_start (link sz) = KERNEL_LMA"
  "kernel_virt_start (link sz) = align_up (align_up KERNEL_LMA 4096 + boot_size sz + KERNEL_VIRTUAL_BASE) 4096"
  by (simp_all add: link_def Let_def)

end
