(* ===== verification/Multiboot.thy ===== *)
theory Multiboot
  imports Format
begin

text \<open>
  The Multiboot hand-off of \<open>src/src/multiboot.rs\<close>: the information structure, the memory map that
  follows from it, the iterator over its variable-sized entries, and the classification and
  clamping of regions.

  The iterator is a state machine over a byte buffer and a cursor (\<open>memory_map\<close>, \<open>next\<close>).  A
  \<open>for\<close> loop over it (\<open>for_regions\<close>) is a partial function: \<open>None\<close> means that the loop does not
  return.  The lemmas show when it does, and that over a well-formed map it is a plain loop over
  the list of regions.
\<close>

section \<open>Data\<close>

definition BOOTLOADER_MAGIC :: u32 where
  "BOOTLOADER_MAGIC = 0x2BADB002"

record multiboot_info =
  mbi_flags :: u32
  mbi_reserved :: "u32 list"
  mbi_mmap_length :: u32
  mbi_mmap_addr :: u32

definition FLAG_MMAP :: u32 where
  "FLAG_MMAP = push_bit 6 1"

record mmap_entry =
  entry_size :: u32
  entry_base_addr :: u64
  entry_length :: u64
  entry_kind :: u32

text \<open>\<open>size_of::<MmapEntry>()\<close> of the packed layout\<close>

definition MMAP_ENTRY_SIZE :: usize where
  "MMAP_ENTRY_SIZE = 4 + 8 + 8 + 4"

record memory_map =
  mm_buf :: "u8 list"
  mm_offset :: usize

datatype region_kind = Available | AcpiReclaimable | AcpiNvs | Defective | Reserved u32

record memory_region =
  region_base :: u64
  region_length :: u64
  region_kind :: region_kind

section \<open>Operations\<close>

text \<open>\<open>MultibootInfo::memory_map\<close>: the buffer is what memory holds at \<open>mmap_addr\<close>.\<close>

definition info_memory_map :: "memory \<Rightarrow> multiboot_info \<Rightarrow> memory_map option" where
  "info_memory_map m info =
     (if mbi_flags info AND FLAG_MMAP = 0 then None
      else Some \<lparr>mm_buf = load_bytes m (unat (mbi_mmap_addr info)) (unat (mbi_mmap_length info)),
                 mm_offset = 0\<rparr>)"

definition read_entry :: "u8 list \<Rightarrow> mmap_entry" where
  "read_entry bytes =
     \<lparr>entry_size = of_le_bytes (take 4 bytes),
      entry_base_addr = of_le_bytes (take 8 (drop 4 bytes)),
      entry_length = of_le_bytes (take 8 (drop 12 bytes)),
      entry_kind = of_le_bytes (take 4 (drop 20 bytes))\<rparr>"

fun from_raw :: "u32 \<Rightarrow> region_kind" where
  "from_raw raw =
     (if raw = 1 then Available
      else if raw = 3 then AcpiReclaimable
      else if raw = 4 then AcpiNvs
      else if raw = 5 then Defective
      else Reserved raw)"

fun kind_is_available :: "region_kind \<Rightarrow> bool" where
  "kind_is_available Available = True"
| "kind_is_available _ = False"

text \<open>Slice access with \<open>get\<close>: \<open>None\<close> where the range leaves the buffer.\<close>

definition get_from :: "'a list \<Rightarrow> usize \<Rightarrow> 'a list option" where
  "get_from xs i = (if i \<le> length xs then Some (drop i xs) else None)"

definition get_to :: "'a list \<Rightarrow> usize \<Rightarrow> 'a list option" where
  "get_to xs n = (if n \<le> length xs then Some (take n xs) else None)"

text \<open>\<open>Iterator::next\<close> for \<open>MemoryMap\<close>\<close>

definition next_region :: "profile \<Rightarrow> memory_map \<Rightarrow> (memory_region option \<times> memory_map) res" where
  "next_region p mm =
     (case Option.bind (get_from (mm_buf mm) (mm_offset mm)) (\<lambda>rest. get_to rest MMAP_ENTRY_SIZE) of
        None \<Rightarrow> Inr (None, mm)
      | Some bytes \<Rightarrow>
          let entry = read_entry bytes in
          rbind (usize_add p (unat (entry_size entry)) 4) (\<lambda>stride.
          Inr (Some \<lparr>region_base = entry_base_addr entry,
                     region_length = entry_length entry,
                     region_kind = from_raw (entry_kind entry)\<rparr>,
               mm\<lparr>mm_offset := usize_saturating_add (mm_offset mm) stride\<rparr>)))"

text \<open>\<open>for region in map { body }\<close>; \<open>None\<close> if the loop never ends.\<close>

partial_function (option) for_regions ::
  "profile \<Rightarrow> (memory_region \<Rightarrow> ('s, unit) st) \<Rightarrow> memory_map \<Rightarrow> 's \<Rightarrow> (unit res \<times> 's) option" where
  "for_regions p body mm s =
     (case next_region p mm of
        Inl e \<Rightarrow> Some (Inl e, s)
      | Inr (None, mm') \<Rightarrow> Some (Inr (), s)
      | Inr (Some r, mm') \<Rightarrow>
          (case body r s of
             (Inl e, s') \<Rightarrow> Some (Inl e, s')
           | (Inr u, s') \<Rightarrow> for_regions p body mm' s'))"

definition region_is_available :: "memory_region \<Rightarrow> bool" where
  "region_is_available r = kind_is_available (region_kind r)"

definition u64_saturating_add :: "u64 \<Rightarrow> u64 \<Rightarrow> u64" where
  "u64_saturating_add a b = (if unat a + unat b < 2 ^ 64 then a + b else - 1)"

definition addressable_bytes :: "memory_region \<Rightarrow> u64" where
  "addressable_bytes r =
     (let LIMIT = push_bit 32 1 in
      if region_base r \<ge> LIMIT then 0
      else min (u64_saturating_add (region_base r) (region_length r)) LIMIT - region_base r)"

section \<open>Printing\<close>

fun kind_debug :: "region_kind \<Rightarrow> string" where
  "kind_debug Available = ''Available''"
| "kind_debug AcpiReclaimable = ''AcpiReclaimable''"
| "kind_debug AcpiNvs = ''AcpiNvs''"
| "kind_debug Defective = ''Defective''"
| "kind_debug (Reserved n) = ''Reserved('' @ fmt_dec (unat n) @ '')''"

text \<open>The line \<open>print_memory_map\<close> writes for one region, without its newline.\<close>

definition region_line :: "memory_region \<Rightarrow> string" where
  "region_line r =
     (let base = region_base r;
          end = u64_saturating_add base (region_length r);
          kib = region_length r div 1024
      in ''  ['' @ fmt_hex 12 (unat base) @ '', '' @ fmt_hex 12 (unat end) @ '') ''
         @ pad_left 9 (fmt_dec (unat kib)) @ '' KiB  '' @ kind_debug (region_kind r))"

section \<open>The cursor\<close>

lemma next_region_buf:
  "next_region p mm = Inr (r, mm') \<Longrightarrow> mm_buf mm' = mm_buf mm"
  by (auto simp: next_region_def Let_def rbind_eq_Inr split: option.splits)

lemma next_region_Some_bound:
  "next_region p mm = Inr (Some r, mm') \<Longrightarrow> mm_offset mm + 24 \<le> length (mm_buf mm)"
  by (auto simp: next_region_def get_from_def get_to_def MMAP_ENTRY_SIZE_def bind_eq_Some_conv
      split: option.splits if_splits)

text \<open>The stride \<open>next\<close> adds at a cursor that still has a whole entry in front of it.\<close>

definition stride_at :: "u8 list \<Rightarrow> usize \<Rightarrow> nat" where
  "stride_at buf off = unat (of_le_bytes (take 4 (drop off buf)) :: u32) + 4"

lemma next_region_step:
  assumes "mm_offset mm + 24 \<le> length (mm_buf mm)" "length (mm_buf mm) < 2 ^ 32"
    and "stride_at (mm_buf mm) (mm_offset mm) < 2 ^ 32"
  shows "\<exists>r. next_region p mm = Inr (Some r, mm\<lparr>mm_offset :=
           min (mm_offset mm + stride_at (mm_buf mm) (mm_offset mm)) (2 ^ 32 - 1)\<rparr>)"
  using assms
  by (simp add: next_region_def get_from_def get_to_def MMAP_ENTRY_SIZE_def read_entry_def Let_def
      usize_add_def usize_saturating_add_def stride_at_def)

lemma next_region_debug_progress:
  assumes "next_region Debug mm = Inr (Some r, mm')" "length (mm_buf mm) < 2 ^ 32"
  shows "mm_offset mm < mm_offset mm'"
proof -
  have "mm_offset mm + 24 \<le> length (mm_buf mm)"
    using assms(1) by (rule next_region_Some_bound)
  with assms show ?thesis
    by (auto simp: next_region_def get_from_def get_to_def MMAP_ENTRY_SIZE_def Let_def
        rbind_eq_Inr usize_add_def overflow_def usize_saturating_add_def split: if_splits)
qed

lemma unat_addressable_bytes:
  "unat (addressable_bytes r) =
     (if unat (region_base r) < 2 ^ 32
      then min (unat (region_base r) + unat (region_length r)) (2 ^ 32) - unat (region_base r) else 0)"
proof -
  let ?b = "unat (region_base r)" and ?l = "unat (region_length r)"
  let ?lim = "push_bit 32 1 :: u64"
  have lim: "unat ?lim = 2 ^ 32" by simp
  have sat: "unat (u64_saturating_add (region_base r) (region_length r)) = min (?b + ?l) (2 ^ 64 - 1)"
    by (auto simp: u64_saturating_add_def unat_word_ariths unsigned_minus_1_eq_mask mask_eq_exp_minus_1)
  show ?thesis
  proof (cases "?lim \<le> region_base r")
    case True
    then have "2 ^ 32 \<le> ?b" using lim by (simp only: word_le_nat_alt)
    then show ?thesis using True by (simp add: addressable_bytes_def)
  next
    case False
    then have b: "?b < 2 ^ 32" using lim by (simp only: word_le_nat_alt not_le)
    let ?e = "min (u64_saturating_add (region_base r) (region_length r)) ?lim"
    have e: "unat ?e = min (?b + ?l) (2 ^ 32)"
      using sat lim by (simp only: min_def word_le_nat_alt) (simp split: if_splits)
    have "region_base r \<le> ?e"
      unfolding word_le_nat_alt e using b by simp
    then have "unat (?e - region_base r) = unat ?e - ?b"
      by (rule unat_sub)
    with e b False show ?thesis
      by (simp only: addressable_bytes_def Let_def if_False if_True)
  qed
qed

text \<open>Of all type codes exactly 1 is available memory, and decoding loses no code.\<close>

lemma from_raw_classification:
  "(kind_is_available (from_raw k) \<longleftrightarrow> k = 1) \<and> (from_raw k = from_raw k' \<longleftrightarrow> k = k')"
  by auto

section \<open>Encoded maps\<close>

text \<open>
  The Multiboot layout of a map: each entry is its four little-endian fields followed by the padding
  its \<open>size\<close> field announces (\<open>size\<close> does not count itself, so the minimum is 20).
\<close>

type_synonym padded_entry = "mmap_entry \<times> u8 list"

definition encode_entry :: "padded_entry \<Rightarrow> u8 list" where
  "encode_entry ep = to_le_bytes 4 (entry_size (fst ep)) @ to_le_bytes 8 (entry_base_addr (fst ep))
     @ to_le_bytes 8 (entry_length (fst ep)) @ to_le_bytes 4 (entry_kind (fst ep)) @ snd ep"

definition entry_ok :: "padded_entry \<Rightarrow> bool" where
  "entry_ok ep \<longleftrightarrow> unat (entry_size (fst ep)) = 20 + length (snd ep)"

definition encode_map :: "padded_entry list \<Rightarrow> u8 list" where
  "encode_map eps = concat (map encode_entry eps)"

definition entry_region :: "padded_entry \<Rightarrow> memory_region" where
  "entry_region ep = \<lparr>region_base = entry_base_addr (fst ep), region_length = entry_length (fst ep),
     region_kind = from_raw (entry_kind (fst ep))\<rparr>"

lemma length_encode_entry: "length (encode_entry ep) = 24 + length (snd ep)"
  by (simp add: encode_entry_def)

lemma encode_map_simps [simp]:
  "encode_map [] = []"
  "encode_map (ep # eps) = encode_entry ep @ encode_map eps"
  by (simp_all add: encode_map_def)

lemma read_entry_encode: "read_entry (take 24 (encode_entry ep @ rest)) = fst ep"
  by (simp add: read_entry_def encode_entry_def of_le_bytes_to_le_bytes take_bit_word_eq_self)

lemma next_region_encoded:
  assumes "entry_ok ep" "length (pre @ encode_entry ep @ rest) < 2 ^ 32"
  shows "next_region p \<lparr>mm_buf = pre @ encode_entry ep @ rest, mm_offset = length pre\<rparr> =
    Inr (Some (entry_region ep),
      \<lparr>mm_buf = pre @ encode_entry ep @ rest, mm_offset = length (pre @ encode_entry ep)\<rparr>)"
  using assms read_entry_encode [of ep rest]
  by (simp add: next_region_def get_from_def get_to_def MMAP_ENTRY_SIZE_def length_encode_entry
      entry_ok_def entry_region_def usize_add_def usize_saturating_add_def Let_def)

lemma next_region_tail:
  "length tail < 24 \<Longrightarrow>
   next_region p \<lparr>mm_buf = pre @ tail, mm_offset = length pre\<rparr> =
     Inr (None, \<lparr>mm_buf = pre @ tail, mm_offset = length pre\<rparr>)"
  by (simp add: next_region_def get_from_def get_to_def MMAP_ENTRY_SIZE_def)

lemma for_regions_encoded_from:
  assumes "\<forall>ep \<in> set eps. entry_ok ep" "length (pre @ encode_map eps @ tail) < 2 ^ 32"
    and "length tail < 24"
  shows "for_regions p body \<lparr>mm_buf = pre @ encode_map eps @ tail, mm_offset = length pre\<rparr> s =
           Some (for_each body (map entry_region eps) s)"
  using assms
proof (induction eps arbitrary: pre s)
  case Nil
  then show ?case by (subst for_regions.simps) (simp add: next_region_tail)
next
  case (Cons ep eps)
  have IH: "for_regions p body \<lparr>mm_buf = (pre @ encode_entry ep) @ encode_map eps @ tail,
      mm_offset = length (pre @ encode_entry ep)\<rparr> t = Some (for_each body (map entry_region eps) t)"
    for t
    by (rule Cons.IH) (use Cons.prems in simp_all)
  have "next_region p \<lparr>mm_buf = pre @ encode_entry ep @ encode_map eps @ tail,
      mm_offset = length pre\<rparr> = Inr (Some (entry_region ep),
      \<lparr>mm_buf = pre @ encode_entry ep @ encode_map eps @ tail,
       mm_offset = length (pre @ encode_entry ep)\<rparr>)"
    by (rule next_region_encoded) (use Cons.prems in simp_all)
  then show ?case
    using IH by (subst for_regions.simps)
      (auto simp: sbind_def split: prod.splits sum.splits)
qed

lemma for_regions_invariant:
  assumes "for_regions p body mm s = Some (r, s')" "I s" "\<And>x t. I t \<Longrightarrow> I (snd (body x t))"
  shows "I s'"
proof -
  have "for_regions p b mm t = Some y \<Longrightarrow> b = body \<Longrightarrow> I t \<Longrightarrow> I (snd y)" for b mm t y
  proof (rule for_regions.raw_induct [where P = "\<lambda>p b mm t y. b = body \<longrightarrow> I t \<longrightarrow> I (snd y)", THEN mp, THEN mp])
    fix f p b mm t y
    assume IH: "\<And>p b mm t y. f p b mm t = Some y \<Longrightarrow> b = body \<longrightarrow> I t \<longrightarrow> I (snd y)"
      and eq: "(case next_region p mm of Inl e \<Rightarrow> Some (Inl e, t)
         | Inr (None, mm') \<Rightarrow> Some (Inr (), t)
         | Inr (Some r, mm') \<Rightarrow> (case b r t of (Inl e, s') \<Rightarrow> Some (Inl e, s')
             | (Inr u, s') \<Rightarrow> f p b mm' s')) = Some y"
    show "b = body \<longrightarrow> I t \<longrightarrow> I (snd y)"
    proof (intro impI)
      assume b: "b = body" and t: "I t"
      show "I (snd y)"
      proof (cases "\<exists>r mm'. next_region p mm = Inr (Some r, mm')")
        case True
        then obtain r mm' where n: "next_region p mm = Inr (Some r, mm')" by blast
        obtain u t' where bt: "body r t = (u, t')" by (cases "body r t")
        have "I t'" using assms(3) [OF t, of r] bt by simp
        then show ?thesis using eq IH [of p body mm' t' y] n bt b by (cases u) auto
      next
        case False
        then show ?thesis using eq t by (auto split: sum.splits prod.splits option.splits)
      qed
    qed
  qed
  with assms(1,2) show ?thesis by fastforce
qed

lemma for_regions_debug_returns:
  assumes "length (mm_buf mm) < 2 ^ 32"
  shows "\<exists>y. for_regions Debug body mm s = Some y"
  using assms
proof (induction "length (mm_buf mm) - mm_offset mm" arbitrary: mm s rule: less_induct)
  case less
  show ?case
  proof (cases "\<exists>r mm'. next_region Debug mm = Inr (Some r, mm')")
    case True
    then obtain r mm' where n: "next_region Debug mm = Inr (Some r, mm')" by blast
    have b: "mm_buf mm' = mm_buf mm" using n by (rule next_region_buf)
    have "mm_offset mm < mm_offset mm'" "mm_offset mm + 24 \<le> length (mm_buf mm)"
      using next_region_debug_progress [OF n less.prems] next_region_Some_bound [OF n] by simp_all
    then have "length (mm_buf mm') - mm_offset mm' < length (mm_buf mm) - mm_offset mm"
      by (simp add: b)
    then have "\<exists>y. for_regions Debug body mm' t = Some y" for t
      using less.hyps less.prems b by simp
    then show ?thesis
      using n by (subst for_regions.simps) (auto split: prod.splits sum.splits)
  next
    case False
    then show ?thesis
      by (subst for_regions.simps) (auto split: prod.splits sum.splits option.splits)
  qed
qed

section \<open>Properties\<close>

text \<open>
  C15: the memory-map walk reads back what the loader encoded.  Over a buffer of well-formed entries
  of any sizes, with a truncated tail of less than an entry, a \<open>for\<close> loop over the map terminates
  in both profiles and runs its body once per entry, in order, on the decoded regions.
\<close>

theorem memory_map_walk_encoded:
  assumes "\<forall>ep \<in> set eps. entry_ok ep" "length (encode_map eps @ tail) < 2 ^ 32" "length tail < 24"
  shows "for_regions p body \<lparr>mm_buf = encode_map eps @ tail, mm_offset = 0\<rparr> s =
           Some (for_each body (map entry_region eps) s)"
  using for_regions_encoded_from [of eps "[]" tail p body s] assms by simp

theorem memory_map_walk_encoded_witness:
  "for_regions Release (\<lambda>r. update (\<lambda>rs. rs @ [r]))
     \<lparr>mm_buf = encode_map
        [(\<lparr>entry_size = 24, entry_base_addr = 0, entry_length = 0x9FC00, entry_kind = 1\<rparr>, [1, 2, 3, 4]),
         (\<lparr>entry_size = 20, entry_base_addr = 0xF0000, entry_length = 0x10000, entry_kind = 2\<rparr>, [])]
        @ [7, 7, 7], mm_offset = 0\<rparr> [] =
   Some (Inr (),
     [\<lparr>region_base = 0, region_length = 0x9FC00, region_kind = Available\<rparr>,
      \<lparr>region_base = 0xF0000, region_length = 0x10000, region_kind = Reserved 2\<rparr>])"
  by (subst memory_map_walk_encoded) (simp_all add: entry_ok_def length_encode_entry entry_region_def)

text \<open>
  C34: with overflow checks on, every walk over a memory map ends, whatever bytes the buffer holds
  (the buffer is no longer than its 32-bit length field can say).
\<close>

theorem memory_map_walk_terminates_debug:
  assumes "length (mm_buf mm) < 2 ^ 32"
  shows "\<exists>y. for_regions Debug body mm s = Some y"
  by (rule for_regions_debug_returns [OF assms])

theorem memory_map_walk_terminates_debug_witness:
  "\<exists>y. for_regions Debug (\<lambda>r. ret ()) \<lparr>mm_buf = replicate 24 255, mm_offset = 0\<rparr> () = Some y"
  by (rule memory_map_walk_terminates_debug) simp

text \<open>
  C35: without overflow checks the walk need not end.  An entry whose \<open>size\<close> field is \<open>0xFFFFFFFC\<close>
  has the stride \<open>size + 4 = 0\<close> after wrap-around, and a loop whose body always returns stays at
  that entry forever.
\<close>

theorem memory_map_walk_release_diverges:
  assumes "\<And>r s. \<exists>s'. body r s = (Inr (), s')"
  shows "for_regions Release body
     \<lparr>mm_buf = [0xFC, 0xFF, 0xFF, 0xFF] @ replicate 20 0, mm_offset = 0\<rparr> s = None"
proof -
  let ?M = "\<lparr>mm_buf = [0xFC, 0xFF, 0xFF, 0xFF] @ replicate 20 0, mm_offset = 0\<rparr> :: memory_map"
  have stuck: "\<exists>r. next_region Release ?M = Inr (Some r, ?M)"
    by (simp add: next_region_def get_from_def get_to_def MMAP_ENTRY_SIZE_def read_entry_def Let_def
        usize_add_def overflow_def usize_saturating_add_def)
  have "for_regions p b mm t = Some y \<Longrightarrow> p = Release \<Longrightarrow> b = body \<Longrightarrow> mm \<noteq> ?M" for p b mm t y
  proof (rule for_regions.raw_induct
      [where P = "\<lambda>p b mm t y. p = Release \<longrightarrow> b = body \<longrightarrow> mm \<noteq> ?M", THEN mp, THEN mp])
    fix f p b mm t y
    assume IH: "\<And>p b mm t y. f p b mm t = Some y \<Longrightarrow> p = Release \<longrightarrow> b = body \<longrightarrow> mm \<noteq> ?M"
      and eq: "(case next_region p mm of Inl e \<Rightarrow> Some (Inl e, t)
         | Inr (None, mm') \<Rightarrow> Some (Inr (), t)
         | Inr (Some r, mm') \<Rightarrow> (case b r t of (Inl e, s') \<Rightarrow> Some (Inl e, s')
             | (Inr u, s') \<Rightarrow> f p b mm' s')) = Some y"
    show "p = Release \<longrightarrow> b = body \<longrightarrow> mm \<noteq> ?M"
    proof (intro impI notI)
      assume "p = Release" "b = body" "mm = ?M"
      with eq stuck assms obtain s' where "f Release body ?M s' = Some y"
        by (auto split: prod.splits sum.splits) (metis Pair_inject sum.inject(2) sum.simps(4))
      with IH show False by blast
    qed
  qed
  then show ?thesis by (cases "for_regions Release body ?M s") blast+
qed

theorem memory_map_walk_release_diverges_witness:
  "for_regions Release (\<lambda>r. ret ())
     \<lparr>mm_buf = [0xFC, 0xFF, 0xFF, 0xFF] @ replicate 20 0, mm_offset = 0\<rparr> () = None"
  by (rule memory_map_walk_release_diverges) simp

text \<open>
  C36: \<open>addressable_bytes\<close> is the size of the region's part below 4 GiB, also where base plus length
  exceeds 64 bits: no wrap-around, and the result with the base never passes the limit.
\<close>

theorem addressable_bytes_correct:
  "unat (addressable_bytes r) =
     card ({unat (region_base r)..<unat (region_base r) + unat (region_length r)} \<inter> {..<2 ^ 32})"
proof -
  let ?b = "unat (region_base r)" and ?l = "unat (region_length r)"
  have "{?b..<?b + ?l} \<inter> {..<2 ^ 32} = {?b..<min (?b + ?l) (2 ^ 32)}" by auto
  then show ?thesis unfolding unat_addressable_bytes by simp
qed

end
