(* ===== verification/Frame.thy ===== *)
theory Frame
  imports Address Bits Layout Multiboot
begin

text \<open>
  The physical frame allocator of \<open>src/src/memory/frame.rs\<close>: a bitmap with one bit per 4 KiB frame
  (set means free) and a search hint.  The operations are translated as they stand, over the list
  of 32768 bitmap words.  The abstract view is the set of free frames (\<open>free_frames\<close>); every
  operation is shown to act on it as a set operation.
\<close>

section \<open>State\<close>

definition FRAME_SIZE :: usize where
  "FRAME_SIZE = 4096"

definition FRAME_COUNT :: usize where
  "FRAME_COUNT = 2 ^ 20"

definition WORD_COUNT :: usize where
  "WORD_COUNT = FRAME_COUNT div WORD_BITS"

record frame_run =
  run_start :: frame_number
  run_len :: usize

record frame_bitmap =
  bitmap :: "u32 list"
  search_hint :: usize

section \<open>Runs\<close>

definition frame_run_new :: "profile \<Rightarrow> usize \<Rightarrow> usize \<Rightarrow> frame_run res" where
  "frame_run_new p start len =
     rbind (debug_assert p (start < FRAME_COUNT)) (\<lambda>_.
     rbind (debug_assert p (len \<le> FRAME_COUNT - start)) (\<lambda>_.
     Inr \<lparr>run_start = FrameNumber start, run_len = len\<rparr>))"

definition end_exclusive :: "profile \<Rightarrow> frame_run \<Rightarrow> usize res" where
  "end_exclusive p run = usize_add p (frame_index (run_start run)) (run_len run)"

section \<open>Masks of a frame range\<close>

text \<open>
  The closure of \<open>word_masks\<close> as a recursion over its captured variables.  The items are produced
  eagerly here; no item can panic once the first bit index is below the word size.
\<close>

function word_masks_from ::
  "profile \<Rightarrow> usize \<Rightarrow> usize \<Rightarrow> usize \<Rightarrow> (usize \<times> u32) list res" where
  "word_masks_from p word_i bit_i remaining =
     (if remaining = 0 then Inr []
      else case clipped_bit_range_mask p bit_i remaining of
             Inl e \<Rightarrow> Inl e
           | Inr (m, taken) \<Rightarrow>
               (case word_masks_from p (word_i + 1) 0 (remaining - taken) of
                  Inl e \<Rightarrow> Inl e
                | Inr items \<Rightarrow> Inr ((word_i, m) # items)))"
  by pat_completeness auto
termination
  by (relation "measures [\<lambda>(p, w, b, r). r, \<lambda>(p, w, b, r). b]")
    (auto simp: clipped_bit_range_mask_eq intro!: Nat.gr0I)

declare word_masks_from.simps [simp del]

definition word_masks :: "profile \<Rightarrow> usize \<Rightarrow> usize \<Rightarrow> (usize \<times> u32) list res" where
  "word_masks p start len = word_masks_from p (start div WORD_BITS) (start mod WORD_BITS) len"

section \<open>Bitmap access\<close>

definition bitmap_word :: "frame_bitmap \<Rightarrow> usize \<Rightarrow> u32 res" where
  "bitmap_word fb i =
     (if i < length (bitmap fb) then Inr (bitmap fb ! i)
      else Inl (Index_Out_Of_Bounds i (length (bitmap fb))))"

definition is_free :: "frame_bitmap \<Rightarrow> usize \<Rightarrow> bool res" where
  "is_free fb frame =
     rbind (bitmap_word fb (frame div WORD_BITS)) (\<lambda>w.
     Inr (w AND push_bit (frame mod WORD_BITS) 1 \<noteq> 0))"

fun any_word :: "frame_bitmap \<Rightarrow> (usize \<times> u32) list \<Rightarrow> bool res" where
  "any_word fb [] = Inr False"
| "any_word fb ((word_i, m) # items) =
     rbind (bitmap_word fb word_i) (\<lambda>w. if w AND m \<noteq> 0 then Inr True else any_word fb items)"

definition any_free_in :: "profile \<Rightarrow> usize \<Rightarrow> usize \<Rightarrow> frame_bitmap \<Rightarrow> bool res" where
  "any_free_in p start len fb = rbind (word_masks p start len) (any_word fb)"

definition update_word :: "(u32 \<Rightarrow> u32) \<Rightarrow> usize \<Rightarrow> (frame_bitmap, unit) st" where
  "update_word f i =
     sbind (reads (\<lambda>fb. bitmap_word fb i)) (\<lambda>w.
     update (\<lambda>fb. fb\<lparr>bitmap := (bitmap fb)[i := f w]\<rparr>))"

definition set_free :: "profile \<Rightarrow> frame_number \<Rightarrow> usize \<Rightarrow> (frame_bitmap, unit) st" where
  "set_free p start len =
     sbind (lift (word_masks p (frame_index start) len))
       (for_each (\<lambda>(word_i, m). update_word (\<lambda>w. w OR m) word_i))"

definition set_occupied :: "profile \<Rightarrow> frame_number \<Rightarrow> usize \<Rightarrow> (frame_bitmap, unit) st" where
  "set_occupied p start len =
     sbind (lift (word_masks p (frame_index start) len))
       (for_each (\<lambda>(word_i, m). update_word (\<lambda>w. w AND NOT m) word_i))"

section \<open>Searching\<close>

text \<open>The loop of \<open>scan_for_run\<close>; the counters stay below \<open>FRAME_COUNT\<close> and cannot overflow.\<close>

function scan_loop :: "frame_bitmap \<Rightarrow> usize \<Rightarrow> usize \<Rightarrow> usize \<Rightarrow> usize \<Rightarrow> usize option res" where
  "scan_loop fb count frame start len =
     (if frame < FRAME_COUNT then
        case is_free fb frame of
          Inl e \<Rightarrow> Inl e
        | Inr free \<Rightarrow>
            if \<not> free then scan_loop fb count (frame + 1) start 0
            else
              let start' = (if len = 0 then frame else start);
                  len' = len + 1
              in if len' = count then Inr (Some start')
                 else scan_loop fb count (frame + 1) start' len'
      else Inr None)"
  by pat_completeness auto
termination
  by (relation "measure (\<lambda>(fb, count, frame, start, len). FRAME_COUNT - frame)") auto

declare scan_loop.simps [simp del]

definition scan_for_run :: "usize \<Rightarrow> usize \<Rightarrow> frame_bitmap \<Rightarrow> usize option res" where
  "scan_for_run from count fb = scan_loop fb count from 0 0"

definition find_free_run :: "profile \<Rightarrow> usize \<Rightarrow> frame_bitmap \<Rightarrow> usize option res" where
  "find_free_run p count fb =
     rbind (usize_mul p (search_hint fb) WORD_BITS) (\<lambda>from.
     rbind (scan_for_run from count fb) (\<lambda>found.
     case found of Some start \<Rightarrow> Inr (Some start) | None \<Rightarrow> scan_for_run 0 count fb))"

section \<open>Allocator operations\<close>

definition frame_bitmap_new :: frame_bitmap where
  "frame_bitmap_new = \<lparr>bitmap = replicate WORD_COUNT 0, search_hint = 0\<rparr>"

definition mark_free :: "profile \<Rightarrow> frame_number \<Rightarrow> usize \<Rightarrow> (frame_bitmap, unit) st" where
  "mark_free p start count =
     sbind (set_free p start count) (\<lambda>_.
     update (\<lambda>fb. fb\<lparr>search_hint := min (search_hint fb) (frame_index start div WORD_BITS)\<rparr>))"

definition reserve_bytes :: "profile \<Rightarrow> usize \<Rightarrow> usize \<Rightarrow> (frame_bitmap, unit) st" where
  "reserve_bytes p addr len =
     (let start = frame_floor (PhysAddr (of_nat addr)) in
      sbind (lift (usize_add p addr len)) (\<lambda>last.
      let end = frame_ceil (PhysAddr (of_nat last)) in
      sbind (lift (usize_sub p (frame_index end) (frame_index start))) (\<lambda>count.
      set_occupied p start count)))"

text \<open>The body of the loop in \<open>init\<close>; the casts to \<open>usize\<close> truncate to 32 bits.\<close>

definition init_region :: "profile \<Rightarrow> memory_region \<Rightarrow> (frame_bitmap, unit) st" where
  "init_region p region =
     (let bytes = unat (addressable_bytes region) mod 2 ^ 32 in
      if \<not> region_is_available region \<or> bytes = 0 then ret ()
      else
        let base = unat (region_base region) mod 2 ^ 32;
            start = FrameNumber (div_ceil base FRAME_SIZE)
        in sbind (lift (usize_add p base bytes)) (\<lambda>top.
           let end = top div FRAME_SIZE in
           case non_zero (usize_saturating_sub end (frame_index start)) of
             Some len \<Rightarrow> mark_free p start len
           | None \<Rightarrow> ret ()))"

definition init_reserve :: "profile \<Rightarrow> layout \<Rightarrow> (frame_bitmap, unit) st" where
  "init_reserve p L =
     sbind (reserve_bytes p 0 FRAME_SIZE) (\<lambda>_.
     let kstart = kernel_phys_start_addr L in
     sbind (lift (usize_sub p (kernel_phys_end_addr L) kstart)) (\<lambda>klen.
     reserve_bytes p kstart klen))"

definition frame_init ::
  "profile \<Rightarrow> layout \<Rightarrow> memory_map \<Rightarrow> frame_bitmap \<Rightarrow> (unit res \<times> frame_bitmap) option" where
  "frame_init p L mmap fb =
     map_option (\<lambda>(r, fb'). case r of Inl e \<Rightarrow> (Inl e, fb') | Inr _ \<Rightarrow> init_reserve p L fb')
       (for_regions p (init_region p) mmap fb)"

definition allocate :: "profile \<Rightarrow> usize \<Rightarrow> (frame_bitmap, frame_run option) st" where
  "allocate p count =
     (if count > FRAME_COUNT then ret None
      else
        sbind (reads (find_free_run p count)) (\<lambda>found.
        case found of
          None \<Rightarrow> ret None
        | Some start \<Rightarrow>
            sbind (set_occupied p (FrameNumber start) count) (\<lambda>_.
            sbind (lift (usize_add p start count)) (\<lambda>past.
            sbind (update (\<lambda>fb. fb\<lparr>search_hint := past div WORD_BITS\<rparr>)) (\<lambda>_.
            sbind (lift (frame_run_new p start count)) (\<lambda>run.
            ret (Some run)))))))"

definition allocate_one :: "profile \<Rightarrow> (frame_bitmap, frame_run option) st" where
  "allocate_one p = allocate p 1"

definition free :: "profile \<Rightarrow> frame_run \<Rightarrow> (frame_bitmap, unit) st" where
  "free p run =
     (let start = frame_index (run_start run); len = run_len run in
      sbind (reads (any_free_in p start len)) (\<lambda>dup.
      if dup then throw Double_Free
      else
        sbind (set_free p (FrameNumber start) len) (\<lambda>_.
        update (\<lambda>fb. fb\<lparr>search_hint := min (search_hint fb) (start div WORD_BITS)\<rparr>))))"

end
