(* ===== verification/Paging.thy ===== *)
theory Paging
  imports Frame
begin

text \<open>
  The 32-bit page tables of \<open>src/src/memory/paging.rs\<close>: flags, entries, the bootstrap directory, and
  the construction of the real directory in physical memory with the final switch of \<open>CR3\<close> and
  \<open>CR0\<close>.

  Entries are raw 32-bit words.  While the directory is built the low 4 MiB of memory are identity
  mapped, so a paging frame is accessed at its physical address; \<open>machine\<close> holds that memory, the
  frame allocator and the two control registers.
\<close>

section \<open>Constants and flags\<close>

definition PAGE_SIZE :: usize where
  "PAGE_SIZE = 4096"

definition ENTRY_COUNT :: usize where
  "ENTRY_COUNT = 1024"

definition PAGE_TABLE_SPAN :: usize where
  "PAGE_TABLE_SPAN = PAGE_SIZE * ENTRY_COUNT"

definition FLAGS_MASK :: u32 where
  "FLAGS_MASK = of_nat PAGE_SIZE - 1"

definition ADDRESS_MASK :: u32 where
  "ADDRESS_MASK = NOT FLAGS_MASK"

datatype page_flags = PageFlags (flag_bits: u32)

definition PRESENT :: page_flags where "PRESENT = PageFlags 1"
definition WRITABLE :: page_flags where "WRITABLE = PageFlags (push_bit 1 1)"
definition USER :: page_flags where "USER = PageFlags (push_bit 2 1)"
definition WRITE_THROUGH :: page_flags where "WRITE_THROUGH = PageFlags (push_bit 3 1)"
definition CACHE_DISABLE :: page_flags where "CACHE_DISABLE = PageFlags (push_bit 4 1)"
definition ACCESSED :: page_flags where "ACCESSED = PageFlags (push_bit 5 1)"
definition DIRTY :: page_flags where "DIRTY = PageFlags (push_bit 6 1)"
definition GLOBAL :: page_flags where "GLOBAL = PageFlags (push_bit 8 1)"

definition flags_empty :: page_flags where
  "flags_empty = PageFlags 0"

definition flags_from_bits :: "u32 \<Rightarrow> page_flags" where
  "flags_from_bits b = PageFlags (b AND FLAGS_MASK)"

definition flags_union :: "page_flags \<Rightarrow> page_flags \<Rightarrow> page_flags" where
  "flags_union a b = PageFlags (flag_bits a OR flag_bits b)"

definition flags_contains :: "page_flags \<Rightarrow> page_flags \<Rightarrow> bool" where
  "flags_contains a b = (flag_bits a AND flag_bits b = flag_bits b)"

definition flags_bitor :: "page_flags \<Rightarrow> page_flags \<Rightarrow> page_flags" where
  "flags_bitor a b = flags_union a b"

definition KERNEL_RO :: page_flags where "KERNEL_RO = PRESENT"
definition KERNEL_RW :: page_flags where "KERNEL_RW = flags_union PRESENT WRITABLE"
definition USER_RO :: page_flags where "USER_RO = flags_union PRESENT USER"
definition USER_RW :: page_flags where "USER_RW = flags_union (flags_union PRESENT WRITABLE) USER"

lemmas flag_defs = PRESENT_def WRITABLE_def USER_def WRITE_THROUGH_def CACHE_DISABLE_def
  ACCESSED_def DIRTY_def GLOBAL_def KERNEL_RO_def KERNEL_RW_def USER_RO_def USER_RW_def
  flags_union_def

section \<open>Entries\<close>

datatype page_table_entry = PageTableEntry (pte_raw: u32)
datatype page_directory_entry = PageDirectoryEntry (pde_raw: u32)

definition PTE_EMPTY :: page_table_entry where
  "PTE_EMPTY = PageTableEntry 0"

definition pte_new :: "profile \<Rightarrow> frame_number \<Rightarrow> page_flags \<Rightarrow> page_table_entry res" where
  "pte_new p frame flags =
     rbind (frame_base_addr p frame) (\<lambda>a. Inr (PageTableEntry (phys_raw a OR flag_bits flags)))"

definition pte_flags :: "page_table_entry \<Rightarrow> page_flags" where
  "pte_flags e = flags_from_bits (pte_raw e)"

definition pte_frame :: "page_table_entry \<Rightarrow> frame_number" where
  "pte_frame e = frame_floor (PhysAddr (pte_raw e AND ADDRESS_MASK))"

definition pte_is_present :: "page_table_entry \<Rightarrow> bool" where
  "pte_is_present e = flags_contains (pte_flags e) PRESENT"

definition PAGE_SIZE_BIT :: u32 where
  "PAGE_SIZE_BIT = push_bit 7 1"

definition PDE_EMPTY :: page_directory_entry where
  "PDE_EMPTY = PageDirectoryEntry 0"

definition for_table :: "profile \<Rightarrow> frame_number \<Rightarrow> page_flags \<Rightarrow> page_directory_entry res" where
  "for_table p frame flags =
     rbind (frame_base_addr p frame) (\<lambda>a. Inr (PageDirectoryEntry (phys_raw a OR flag_bits flags)))"

definition for_huge_page :: "profile \<Rightarrow> phys_addr \<Rightarrow> page_flags \<Rightarrow> page_directory_entry res" where
  "for_huge_page p base flags =
     rbind (debug_assert p (unat (phys_raw base) mod PAGE_TABLE_SPAN = 0)) (\<lambda>_.
     Inr (PageDirectoryEntry (phys_raw base OR PAGE_SIZE_BIT OR flag_bits flags)))"

definition pde_flags :: "page_directory_entry \<Rightarrow> page_flags" where
  "pde_flags e = flags_from_bits (pde_raw e)"

definition is_huge :: "page_directory_entry \<Rightarrow> bool" where
  "is_huge e = (pde_raw e AND PAGE_SIZE_BIT \<noteq> 0)"

definition pde_is_present :: "page_directory_entry \<Rightarrow> bool" where
  "pde_is_present e = flags_contains (pde_flags e) PRESENT"

definition table_frame :: "page_directory_entry \<Rightarrow> frame_number" where
  "table_frame e = frame_floor (PhysAddr (pde_raw e AND ADDRESS_MASK))"

section \<open>The bootstrap directory\<close>

text \<open>\<open>PageDirectory\<close> is an array of \<open>ENTRY_COUNT\<close> entries.\<close>

type_synonym page_directory = "page_directory_entry list"

definition bootstrap_directory :: "profile \<Rightarrow> page_directory res" where
  "bootstrap_directory p =
     (let entries = replicate ENTRY_COUNT PDE_EMPTY in
      rbind (for_huge_page p (PhysAddr 0) KERNEL_RW) (\<lambda>low.
      let entries = entries[0 := low] in
      rbind (for_huge_page p (PhysAddr 0) KERNEL_RW) (\<lambda>high.
      Inr (entries[KERNEL_VIRTUAL_BASE div PAGE_TABLE_SPAN := high]))))"

section \<open>Building the real directory\<close>

definition RECURSIVE_INDEX :: usize where
  "RECURSIVE_INDEX = ENTRY_COUNT - 1"

definition BOOTSTRAP_IDENTITY_LIMIT :: usize where
  "BOOTSTRAP_IDENTITY_LIMIT = PAGE_TABLE_SPAN"

definition CR0_WP :: u32 where
  "CR0_WP = push_bit 16 1"

record machine =
  mem :: memory
  frame_alloc :: frame_bitmap
  cr3 :: u32
  cr0 :: u32

text \<open>Running an allocator operation on the machine's allocator.\<close>

definition on_frames :: "(frame_bitmap, 'a) st \<Rightarrow> ('z machine_scheme, 'a) st" where
  "on_frames m = (\<lambda>s. case m (frame_alloc s) of (r, fb) \<Rightarrow> (r, s\<lparr>frame_alloc := fb\<rparr>))"

definition on_mem :: "(memory \<Rightarrow> memory) \<Rightarrow> ('z machine_scheme, unit) st" where
  "on_mem f = update (\<lambda>s. s\<lparr>mem := f (mem s)\<rparr>)"

definition alloc_frame :: "profile \<Rightarrow> ('z machine_scheme, frame_number) st" where
  "alloc_frame p =
     sbind (on_frames (allocate_one p)) (\<lambda>found.
     case found of None \<Rightarrow> throw Out_Of_Frames | Some run \<Rightarrow> ret (run_start run))"

definition bootstrap_frame_ptr :: "profile \<Rightarrow> frame_number \<Rightarrow> usize res" where
  "bootstrap_frame_ptr p frame =
     rbind (frame_base_addr p frame) (\<lambda>a.
     let phys = unat (phys_raw a) in
     if phys < BOOTSTRAP_IDENTITY_LIMIT then Inr phys else Inl (Above_Identity_Map phys))"

definition zero_frame :: "profile \<Rightarrow> frame_number \<Rightarrow> ('z machine_scheme, unit) st" where
  "zero_frame p frame =
     sbind (lift (bootstrap_frame_ptr p frame)) (\<lambda>ptr.
     on_mem (store_bytes ptr (replicate PAGE_SIZE 0)))"

text \<open>Entry \<open>i\<close> of the directory or table at \<open>ptr\<close>; the index is bounds-checked.\<close>

definition entry_read :: "usize \<Rightarrow> usize \<Rightarrow> ('z machine_scheme, u32) st" where
  "entry_read ptr i =
     (if i < ENTRY_COUNT then reads (\<lambda>s. Inr (load32 (mem s) (ptr + 4 * i)))
      else throw (Index_Out_Of_Bounds i ENTRY_COUNT))"

definition entry_write :: "usize \<Rightarrow> usize \<Rightarrow> u32 \<Rightarrow> ('z machine_scheme, unit) st" where
  "entry_write ptr i e =
     (if i < ENTRY_COUNT then on_mem (store32 (ptr + 4 * i) e)
      else throw (Index_Out_Of_Bounds i ENTRY_COUNT))"

definition map_bootstrap ::
  "profile \<Rightarrow> usize \<Rightarrow> virt_addr \<Rightarrow> phys_addr \<Rightarrow> page_flags \<Rightarrow> ('z machine_scheme, unit) st" where
  "map_bootstrap p pd virt phys flags =
     (let index = pd_index virt in
      sbind (entry_read pd index) (\<lambda>raw.
      let pde = PageDirectoryEntry raw in
      sbind
        (if pde_is_present pde then ret (table_frame pde)
         else
           sbind (alloc_frame p) (\<lambda>frame.
           sbind (zero_frame p frame) (\<lambda>_.
           sbind (lift (for_table p frame KERNEL_RW)) (\<lambda>e.
           sbind (entry_write pd index (pde_raw e)) (\<lambda>_.
           ret frame)))))
        (\<lambda>frame.
      sbind (lift (bootstrap_frame_ptr p frame)) (\<lambda>table.
      sbind (lift (pte_new p (frame_floor phys) flags)) (\<lambda>e.
      entry_write table (pt_index virt) (pte_raw e))))))"

text \<open>\<open>(a..b).step_by(PAGE_SIZE)\<close>\<close>

definition page_steps :: "usize \<Rightarrow> usize \<Rightarrow> usize list" where
  "page_steps a b = map (\<lambda>i. a + i * PAGE_SIZE) [0..<div_ceil (b - a) PAGE_SIZE]"

definition map_kernel_page :: "profile \<Rightarrow> layout \<Rightarrow> usize \<Rightarrow> usize \<Rightarrow> ('z machine_scheme, unit) st" where
  "map_kernel_page p L pd virt =
     (if virt = stack_guard_addr L then ret ()
      else
        let flags = (if virt < kernel_data_start_addr L then KERNEL_RO else KERNEL_RW) in
        sbind (lift (usize_sub p virt KERNEL_VIRTUAL_BASE)) (\<lambda>phys.
        map_bootstrap p pd (VirtAddr (of_nat virt)) (PhysAddr (of_nat phys)) flags))"

definition map_low_page :: "profile \<Rightarrow> usize \<Rightarrow> usize \<Rightarrow> ('z machine_scheme, unit) st" where
  "map_low_page p pd phys =
     map_bootstrap p pd (VirtAddr (of_nat phys)) (PhysAddr (of_nat phys)) KERNEL_RW"

definition paging_init :: "profile \<Rightarrow> layout \<Rightarrow> ('z machine_scheme, unit) st" where
  "paging_init p L =
     sbind (alloc_frame p) (\<lambda>pd_frame.
     sbind (zero_frame p pd_frame) (\<lambda>_.
     sbind (lift (bootstrap_frame_ptr p pd_frame)) (\<lambda>pd.
     sbind (lift (for_table p pd_frame KERNEL_RW)) (\<lambda>self.
     sbind (entry_write pd RECURSIVE_INDEX (pde_raw self)) (\<lambda>_.
     sbind (for_each (map_kernel_page p L pd)
              (page_steps (kernel_virt_start_addr L) (kernel_virt_end_addr L))) (\<lambda>_.
     sbind (for_each (map_low_page p pd) (page_steps 0 (kernel_phys_start_addr L))) (\<lambda>_.
     sbind (lift (frame_base_addr p pd_frame)) (\<lambda>base.
     update (\<lambda>s. s\<lparr>cr3 := phys_raw base, cr0 := cr0 s OR CR0_WP\<rparr>)))))))))"

section \<open>Debug output\<close>

definition NAMED :: "(page_flags \<times> string) list" where
  "NAMED =
     [(PRESENT, ''PRESENT''), (WRITABLE, ''WRITABLE''), (USER, ''USER''),
      (WRITE_THROUGH, ''WRITE_THROUGH''), (CACHE_DISABLE, ''CACHE_DISABLE''),
      (ACCESSED, ''ACCESSED''), (DIRTY, ''DIRTY''), (GLOBAL, ''GLOBAL'')]"

text \<open>The loop over \<open>NAMED\<close>, with the \<open>first\<close> flag; it returns the text and the final flag.\<close>

fun flag_names :: "page_flags \<Rightarrow> bool \<Rightarrow> (page_flags \<times> string) list \<Rightarrow> string \<times> bool" where
  "flag_names fl first [] = ([], first)"
| "flag_names fl first ((flag, name) # rest) =
     (if flags_contains fl flag
      then let (text, first') = flag_names fl False rest
           in ((if first then '''' else '' | '') @ name @ text, first')
      else flag_names fl first rest)"

definition flags_debug :: "page_flags \<Rightarrow> string" where
  "flags_debug fl =
     (let (text, first) = flag_names fl True NAMED
      in ''PageFlags('' @ text @ (if first then ''empty'' else '''') @ '')'')"

definition pte_debug :: "page_table_entry \<Rightarrow> string" where
  "pte_debug e = ''PageTableEntry { frame: '' @ frame_number_debug (pte_frame e)
     @ '', flags: '' @ flags_debug (pte_flags e) @ '' }''"

definition pde_debug :: "page_directory_entry \<Rightarrow> string" where
  "pde_debug e =
     (if is_huge e then ''PageDirectoryEntry(huge 4 MiB, '' @ flags_debug (pde_flags e) @ '')''
      else ''PageDirectoryEntry { table_frame: '' @ frame_number_debug (table_frame e)
        @ '', flags: '' @ flags_debug (pde_flags e) @ '' }'')"

end
