(* ===== verification/Paging_Entries.thy ===== *)
theory Paging_Entries
  imports Paging
begin

text \<open>
  Page-table entries, decoded: packing and unpacking, the hardware's two-level walk \<open>mmu_walk\<close> as
  the meaning of a directory in memory, and what the bootstrap directory means under it.
\<close>

section \<open>Packing\<close>

lemma FLAGS_MASK_mask: "FLAGS_MASK = mask 12"
  by (simp add: FLAGS_MASK_def PAGE_SIZE_def mask_eq_exp_minus_1)

lemma ADDRESS_MASK_mask: "ADDRESS_MASK = NOT (mask 12)"
  by (simp add: ADDRESS_MASK_def FLAGS_MASK_mask)

text \<open>The word that holds frame \<open>f\<close> with flag bits \<open>b\<close>.\<close>

definition packed_entry :: "nat \<Rightarrow> u32 \<Rightarrow> u32" where
  "packed_entry f b = of_nat (f * 4096) OR b"

lemma small_flags_bit: "unat (b :: u32) < 4096 \<Longrightarrow> bit b i \<Longrightarrow> i < 12"
proof -
  assume "unat b < 4096"
  then have "unat (take_bit 12 b) = unat b"
    by (simp add: unsigned_take_bit_eq take_bit_nat_eq_self)
  then have "take_bit 12 b = b" by (simp only: u32_eq_iff_unat)
  then show "bit b i \<Longrightarrow> i < 12" by (metis bit_take_bit_iff)
qed

lemma bit_packed_entry:
  assumes "unat b < 4096"
  shows "bit (packed_entry f b) i \<longleftrightarrow> (if i < 12 then bit b i else bit (of_nat (f * 4096) :: u32) i)"
proof -
  have "(of_nat (f * 4096) :: u32) = push_bit 12 (of_nat f)"
    by (simp add: push_bit_eq_mult mult.commute)
  then have low: "\<not> bit (of_nat (f * 4096) :: u32) i" if "i < 12"
    using that by (simp add: bit_simps)
  show ?thesis
    using low small_flags_bit [OF assms, of i] by (auto simp: packed_entry_def bit_or_iff)
qed

lemma packed_entry_address:
  assumes "unat b < 4096"
  shows "packed_entry f b AND ADDRESS_MASK = of_nat (f * 4096)"
proof (rule bit_word_eqI)
  fix i assume "i < LENGTH(32)"
  have "(of_nat (f * 4096) :: u32) = push_bit 12 (of_nat f)"
    by (simp add: push_bit_eq_mult mult.commute)
  then have "\<not> bit (of_nat (f * 4096) :: u32) i" if "i < 12"
    using that by (simp add: bit_simps)
  then show "bit (packed_entry f b AND ADDRESS_MASK) i \<longleftrightarrow> bit (of_nat (f * 4096) :: u32) i"
    using \<open>i < _\<close> by (auto simp: ADDRESS_MASK_mask bit_and_iff bit_not_iff bit_mask_iff bit_packed_entry [OF assms])
qed

lemma packed_entry_flags:
  assumes "unat b < 4096"
  shows "packed_entry f b AND FLAGS_MASK = b"
  by (rule bit_word_eqI)
    (use small_flags_bit [OF assms] in
      \<open>auto simp: FLAGS_MASK_mask bit_and_iff bit_mask_iff bit_packed_entry [OF assms]\<close>)

lemma unat_frame_base: "f < 2 ^ 20 \<Longrightarrow> unat (of_nat (f * 4096) :: u32) = f * 4096"
  by (rule unat_of_nat_u32) simp

lemma frame_floor_base: "f < 2 ^ 20 \<Longrightarrow> frame_floor (PhysAddr (of_nat (f * 4096))) = FrameNumber f"
  by (simp only: frame_floor_def phys_addr.sel unat_div unat_frame_base) simp

lemma pte_new_ok [panic_free]:
  "frame_index f < 2 ^ 20 \<Longrightarrow> pte_new p f fl = Inr (PageTableEntry (packed_entry (frame_index f) (flag_bits fl)))"
  by (simp add: pte_new_def frame_base_addr_ok packed_entry_def)

lemma for_table_ok [panic_free]:
  "frame_index f < 2 ^ 20 \<Longrightarrow>
     for_table p f fl = Inr (PageDirectoryEntry (packed_entry (frame_index f) (flag_bits fl)))"
  by (simp add: for_table_def frame_base_addr_ok packed_entry_def)

lemma contains_PRESENT: "flags_contains fl PRESENT \<longleftrightarrow> bit (flag_bits fl) 0"
  by (simp add: flags_contains_def PRESENT_def and_one_eq bit_0 odd_iff_mod_2_eq_one)

lemma present_iff_bit: "flags_contains (flags_from_bits w) PRESENT \<longleftrightarrow> bit w 0"
  by (simp only: contains_PRESENT) (simp add: flags_from_bits_def FLAGS_MASK_mask bit_simps)

lemma packed_entry_present: "unat b < 4096 \<Longrightarrow> bit (packed_entry f b) 0 \<longleftrightarrow> bit b 0"
  by (simp only: bit_packed_entry) simp

lemma packed_table_frame:
  "f < 2 ^ 20 \<Longrightarrow> unat b < 4096 \<Longrightarrow> table_frame (PageDirectoryEntry (packed_entry f b)) = FrameNumber f"
  by (simp only: table_frame_def page_directory_entry.sel packed_entry_address frame_floor_base)

lemma of_nat_frame_base: "(of_nat (unat w div 4096 * 4096) :: u32) = w AND ADDRESS_MASK"
proof -
  have "(of_nat (unat w div 4096) :: u32) = drop_bit 12 w"
    by (rule word_unat_eq_iff [THEN iffD2])
      (use unat_less_2p32 [of w] in \<open>simp add: unat_drop_bit_eq drop_bit_eq_div unat_of_nat unat_div\<close>)
  then have "(of_nat (unat w div 4096 * 4096) :: u32) = push_bit 12 (drop_bit 12 w)"
    by (simp only: of_nat_mult) (simp add: push_bit_eq_mult)
  also have "\<dots> = w AND ADDRESS_MASK"
    by (rule bit_word_eqI) (auto simp: ADDRESS_MASK_mask bit_simps)
  finally show ?thesis .
qed

lemma packed_parts:
  "packed_entry (frame_index (frame_floor (PhysAddr (w AND ADDRESS_MASK)))) (w AND FLAGS_MASK) = w"
proof -
  have "frame_index (frame_floor (PhysAddr (w AND ADDRESS_MASK))) = unat (w AND ADDRESS_MASK) div 4096"
    by (simp only: frame_floor_def frame_number.sel phys_addr.sel unat_div) simp
  then have "(of_nat (frame_index (frame_floor (PhysAddr (w AND ADDRESS_MASK))) * 4096) :: u32)
      = w AND ADDRESS_MASK"
    by (simp only: of_nat_frame_base and.assoc and.idem)
  then show ?thesis
    unfolding packed_entry_def
    by (simp only:) (rule bit_word_eqI, auto simp: FLAGS_MASK_mask ADDRESS_MASK_mask bit_simps)
qed

section \<open>The hardware walk\<close>

text \<open>
  The translation the processor performs with \<open>CR4.PSE\<close> set and without PAE: the directory entry
  selects a 4 MiB page or a table, a table entry a 4 KiB page, and the rights of the two levels
  combine.  \<open>None\<close> is a page fault on an absent entry.
\<close>

record translation =
  target :: nat
  can_write :: bool
  user_mode :: bool

definition mmu_walk :: "memory \<Rightarrow> u32 \<Rightarrow> virt_addr \<Rightarrow> translation option" where
  "mmu_walk m dir v =
     (let pde = load32 m (unat (dir AND 0xFFFFF000) + 4 * pd_index v) in
      if \<not> bit pde 0 then None
      else if bit pde 7 then
        Some \<lparr>target = unat (pde AND 0xFFC00000) + unat (virt_raw v) mod 0x400000,
              can_write = bit pde 1, user_mode = bit pde 2\<rparr>
      else
        let pte = load32 m (unat (pde AND 0xFFFFF000) + 4 * pt_index v) in
        if \<not> bit pte 0 then None
        else Some \<lparr>target = unat (pte AND 0xFFFFF000) + offset v,
                   can_write = (bit pde 1 \<and> bit pte 1), user_mode = (bit pde 2 \<and> bit pte 2)\<rparr>)"

lemma ADDRESS_MASK_numeral: "0xFFFFF000 = ADDRESS_MASK"
  by (simp add: ADDRESS_MASK_def FLAGS_MASK_def PAGE_SIZE_def)

lemma KERNEL_RW_bits: "flag_bits KERNEL_RW = 3"
  by (simp add: flag_defs)

lemma KERNEL_RO_bits: "flag_bits KERNEL_RO = 1"
  by (simp add: flag_defs)

lemma aligned_address: "is_frame_aligned (PhysAddr w) \<Longrightarrow> w AND ADDRESS_MASK = w"
proof -
  assume "is_frame_aligned (PhysAddr w)"
  then have t: "take_bit 12 w = 0"
    by (simp add: is_frame_aligned_def take_bit_eq_mod)
  have "\<not> bit w i" if "i < 12" for i
    using that arg_cong [OF t, of "\<lambda>x. bit x i"] by (simp add: bit_simps)
  then show ?thesis
    by (intro bit_word_eqI) (auto simp: ADDRESS_MASK_mask bit_simps)
qed

lemma bootstrap_entries:
  "\<exists>es. bootstrap_directory p = Inr es \<and> length es = 1024 \<and>
     (\<forall>i < 1024. es ! i = PageDirectoryEntry (if i = 0 \<or> i = 768 then 0x83 else 0))"
  by (auto simp: bootstrap_directory_def for_huge_page_def debug_assert_def PAGE_SIZE_BIT_def
      KERNEL_RW_bits ENTRY_COUNT_def PDE_EMPTY_def PAGE_TABLE_SPAN_def PAGE_SIZE_def
      KERNEL_VIRTUAL_BASE_def nth_list_update)

lemma bootstrap_walk:
  assumes al: "is_frame_aligned (PhysAddr base)"
    and ld: "\<And>i. i < 1024 \<Longrightarrow> load32 m (unat base + 4 * i) = (if i = 0 \<or> i = 768 then 0x83 else 0)"
  shows "mmu_walk m base v =
    (let a = unat (virt_raw v) in
     if a < 0x400000 then Some \<lparr>target = a, can_write = True, user_mode = False\<rparr>
     else if KERNEL_VIRTUAL_BASE \<le> a \<and> a < KERNEL_VIRTUAL_BASE + 0x400000
     then Some \<lparr>target = a - KERNEL_VIRTUAL_BASE, can_write = True, user_mode = False\<rparr>
     else None)"
proof -
  define a where "a = unat (virt_raw v)"
  note pde = ld [OF pd_index_less [of v]]
  have b: "bit (0x83 :: u32) 0" "bit (0x83 :: u32) 7" "bit (0x83 :: u32) (Suc 0)" "\<not> bit (0x83 :: u32) 2"
    by simp_all
  have "pd_index v = 0 \<longleftrightarrow> a < 0x400000"
    "pd_index v = 768 \<longleftrightarrow> 0xC0000000 \<le> a \<and> a < 0xC0400000"
    unfolding pd_index_eq a_def [symmetric] by (simp_all only: div_eq_iff_range zero_less_numeral) simp_all
  moreover have "a mod 0x400000 = a - pd_index v * 0x400000"
    unfolding pd_index_eq a_def by (rule mod_eq_sub) simp
  ultimately show ?thesis
    unfolding mmu_walk_def Let_def ADDRESS_MASK_numeral aligned_address [OF al] pde
      a_def [symmetric] KERNEL_VIRTUAL_BASE_def
    by (cases "pd_index v = 0"; cases "pd_index v = 768") (simp_all add: b)
qed

text \<open>Memory that holds the bootstrap directory at \<open>b\<close> and is zero elsewhere.\<close>

definition directory_memory :: "nat \<Rightarrow> memory" where
  "directory_memory b = (\<lambda>x. if x = b \<or> x = b + 3072 then 0x83 else 0)"

lemma load_directory_memory:
  "load32 (directory_memory b) (b + 4 * i) = (if i = 0 \<or> i = 768 then 0x83 else 0)"
proof -
  have "4 * i + 1 \<noteq> 0 \<and> 4 * i + 1 \<noteq> 3072 \<and> 4 * i + 2 \<noteq> 3072 \<and> 4 * i + 3 \<noteq> 3072"
    by arith
  moreover have "[b + 4 * i..<b + 4 * i + 4] = [b + 4 * i, b + 4 * i + 1, b + 4 * i + 2, b + 4 * i + 3]"
    by (simp add: upt_rec)
  ultimately show ?thesis
    by (auto simp: load32_def load_bytes_def directory_memory_def)
qed

section \<open>Properties\<close>

text \<open>
  C29: entries pack and unpack without loss.  A table entry or directory entry built from a frame
  number of the 4 GiB space and flags in the low twelve bits gives both back, is present exactly
  when the flags say so, and any raw table entry is the entry built from its own frame and flags.
\<close>

theorem page_entry_roundtrip:
  "(frame_index f < 2 ^ 20 \<and> unat (flag_bits fl) < 4096 \<longrightarrow>
     (\<exists>e. pte_new p f fl = Inr e \<and> pte_frame e = f \<and> pte_flags e = fl \<and>
        (pte_is_present e \<longleftrightarrow> flags_contains fl PRESENT)) \<and>
     (\<exists>d. for_table p f fl = Inr d \<and> table_frame d = f \<and> pde_flags d = fl \<and>
        (pde_is_present d \<longleftrightarrow> flags_contains fl PRESENT))) \<and>
   pte_new p (pte_frame e') (pte_flags e') = Inr e'"
proof (intro conjI impI)
  assume a: "frame_index f < 2 ^ 20 \<and> unat (flag_bits fl) < 4096"
  note unpack = packed_entry_address packed_entry_flags frame_floor_base
  show "\<exists>e. pte_new p f fl = Inr e \<and> pte_frame e = f \<and> pte_flags e = fl \<and>
        (pte_is_present e \<longleftrightarrow> flags_contains fl PRESENT)"
    using a by (simp only: pte_new_ok sum.inject simp_thms pte_frame_def pte_flags_def
        pte_is_present_def page_table_entry.sel flags_from_bits_def unpack) auto
  show "\<exists>d. for_table p f fl = Inr d \<and> table_frame d = f \<and> pde_flags d = fl \<and>
        (pde_is_present d \<longleftrightarrow> flags_contains fl PRESENT)"
    using a by (simp only: for_table_ok sum.inject simp_thms table_frame_def pde_flags_def
        pde_is_present_def page_directory_entry.sel flags_from_bits_def unpack) auto
next
  show "pte_new p (pte_frame e') (pte_flags e') = Inr e'"
    using frame_floor_less [of "PhysAddr (pte_raw e' AND ADDRESS_MASK)"] packed_parts [of "pte_raw e'"]
    by (simp only: pte_new_ok pte_frame_def pte_flags_def flags_from_bits_def page_flags.sel) simp
qed

theorem page_entry_roundtrip_witness:
  "\<exists>e. pte_new Debug (FrameNumber 0x123) USER_RW = Inr e \<and> pte_frame e = FrameNumber 0x123 \<and>
     pte_flags e = USER_RW"
  using page_entry_roundtrip [of "FrameNumber 0x123" USER_RW Debug PTE_EMPTY] by (auto simp: flag_defs)

text \<open>
  C28: the bootstrap directory.  Loaded into \<open>CR3\<close> it maps the low 4 MiB onto themselves and the
  4 MiB at \<open>KERNEL_VIRTUAL_BASE\<close> onto the same physical memory, writable and supervisor-only, and
  nothing else.
\<close>

theorem bootstrap_directory_translation:
  "\<exists>es. bootstrap_directory p = Inr es \<and> length es = ENTRY_COUNT \<and>
     (\<forall>m base v.
        is_frame_aligned (PhysAddr base) \<and>
        (\<forall>i < ENTRY_COUNT. load32 m (unat base + 4 * i) = pde_raw (es ! i)) \<longrightarrow>
        mmu_walk m base v =
          (let a = unat (virt_raw v) in
           if a < 0x400000 then Some \<lparr>target = a, can_write = True, user_mode = False\<rparr>
           else if KERNEL_VIRTUAL_BASE \<le> a \<and> a < KERNEL_VIRTUAL_BASE + 0x400000
           then Some \<lparr>target = a - KERNEL_VIRTUAL_BASE, can_write = True, user_mode = False\<rparr>
           else None))"
proof -
  obtain es where es: "bootstrap_directory p = Inr es" "length es = 1024"
    "\<And>i. i < 1024 \<Longrightarrow> es ! i = PageDirectoryEntry (if i = 0 \<or> i = 768 then 0x83 else 0)"
    using bootstrap_entries [of p] by blast
  then show ?thesis
    using bootstrap_walk by (simp add: ENTRY_COUNT_def)
qed

theorem bootstrap_directory_translation_witness:
  "mmu_walk (directory_memory 0) 0 (VirtAddr 0xC0200123) =
     Some \<lparr>target = 0x200123, can_write = True, user_mode = False\<rparr>"
proof -
  obtain es where es: "bootstrap_directory Debug = Inr es"
    "\<And>i. i < 1024 \<Longrightarrow> es ! i = PageDirectoryEntry (if i = 0 \<or> i = 768 then 0x83 else 0)"
    using bootstrap_entries [of Debug] by blast
  with load_directory_memory [of 0] bootstrap_directory_translation [of Debug] show ?thesis
    by (auto simp: ENTRY_COUNT_def is_frame_aligned_def KERNEL_VIRTUAL_BASE_def Let_def)
qed

end
