(* ===== verification/Frame_Interface.thy ===== *)
theory Frame_Interface
  imports Frame
begin

text \<open>
  What clients of the frame allocator rely on, as interface locales.

  \<open>run_allocator\<close> is the contract of \<open>allocate\<close> and \<open>free\<close> over the set of available frames.  A
  client owns runs: it takes some and gives some back, never one it does not own (\<open>FrameRun\<close> is
  neither \<open>Copy\<close> nor constructible outside the allocator).  The lemmas of the locale show that under
  the contract owned runs never overlap and frames are neither lost nor duplicated.

  \<open>lowest_frame_source\<close> is the contract boot-time paging needs of \<open>allocate_one\<close>: it hands out the
  lowest available frame.
\<close>

definition run_frames :: "frame_run \<Rightarrow> nat set" where
  "run_frames r = {frame_index (run_start r)..<frame_index (run_start r) + run_len r}"

section \<open>Owners of runs\<close>

text \<open>One move of a client with the runs it owns.\<close>

inductive owner_step ::
  "(usize \<Rightarrow> ('s, frame_run option) st) \<Rightarrow> (frame_run \<Rightarrow> ('s, unit) st) \<Rightarrow>
   's \<times> frame_run list \<Rightarrow> 's \<times> frame_run list \<Rightarrow> bool"
  for alloc :: "usize \<Rightarrow> ('s, frame_run option) st" and release :: "frame_run \<Rightarrow> ('s, unit) st" where
  take: "0 < n \<Longrightarrow> alloc n s = (Inr (Some r), s') \<Longrightarrow> owner_step alloc release (s, rs) (s', r # rs)"
| refused: "0 < n \<Longrightarrow> alloc n s = (Inr None, s') \<Longrightarrow> owner_step alloc release (s, rs) (s', rs)"
| give: "r \<in> set rs \<Longrightarrow> release r s = (Inr (), s') \<Longrightarrow>
     owner_step alloc release (s, rs) (s', remove1 r rs)"

inductive_cases owner_stepE: "owner_step alloc release x y"

abbreviation owner_steps ::
  "(usize \<Rightarrow> ('s, frame_run option) st) \<Rightarrow> (frame_run \<Rightarrow> ('s, unit) st) \<Rightarrow>
   's \<times> frame_run list \<Rightarrow> 's \<times> frame_run list \<Rightarrow> bool" where
  "owner_steps alloc release \<equiv> (owner_step alloc release)\<^sup>*\<^sup>*"

fun disjoint_runs :: "frame_run list \<Rightarrow> bool" where
  "disjoint_runs [] \<longleftrightarrow> True"
| "disjoint_runs (r # rs) \<longleftrightarrow>
     (\<forall>r' \<in> set rs. run_frames r \<inter> run_frames r' = {}) \<and> disjoint_runs rs"

definition owned_frames :: "frame_run list \<Rightarrow> nat set" where
  "owned_frames rs = (\<Union>r \<in> set rs. run_frames r)"

lemma owned_frames_simps [simp]:
  "owned_frames [] = {}"
  "owned_frames (r # rs) = run_frames r \<union> owned_frames rs"
  by (auto simp: owned_frames_def)

lemma run_frames_subset_owned: "r \<in> set rs \<Longrightarrow> run_frames r \<subseteq> owned_frames rs"
  by (auto simp: owned_frames_def)

lemma disjoint_runs_remove1: "disjoint_runs rs \<Longrightarrow> disjoint_runs (remove1 r rs)"
  by (induction rs) (auto dest: notin_set_remove1 [rotated])

lemma owned_frames_remove1:
  "disjoint_runs rs \<Longrightarrow> r \<in> set rs \<Longrightarrow> owned_frames (remove1 r rs) = owned_frames rs - run_frames r"
proof (induction rs)
  case Nil
  then show ?case by simp
next
  case (Cons x rs)
  show ?case
  proof (cases "x = r")
    case True
    then show ?thesis using Cons.prems by (auto simp: owned_frames_def)
  next
    case False
    then show ?thesis using Cons by (auto simp: owned_frames_def)
  qed
qed

section \<open>Interface: allocating and releasing runs\<close>

locale run_allocator =
  fixes alloc :: "usize \<Rightarrow> ('s, frame_run option) st"
    and release :: "frame_run \<Rightarrow> ('s, unit) st"
    and avail :: "'s \<Rightarrow> nat set"
    and inv :: "'s \<Rightarrow> bool"
  assumes avail_bounded: "inv s \<Longrightarrow> avail s \<subseteq> {..<FRAME_COUNT}"
    and alloc_none: "inv s \<Longrightarrow> 0 < n \<Longrightarrow> \<forall>a. \<not> {a..<a + n} \<subseteq> avail s \<Longrightarrow> alloc n s = (Inr None, s)"
    and alloc_some: "inv s \<Longrightarrow> 0 < n \<Longrightarrow> {a..<a + n} \<subseteq> avail s \<Longrightarrow>
      \<exists>r s'. alloc n s = (Inr (Some r), s') \<and> inv s' \<and> run_len r = n \<and>
        run_frames r \<subseteq> avail s \<and> avail s' = avail s - run_frames r"
    and release_owned: "inv s \<Longrightarrow> 0 < run_len r \<Longrightarrow> run_frames r \<subseteq> {..<FRAME_COUNT} \<Longrightarrow>
      run_frames r \<inter> avail s = {} \<Longrightarrow>
      \<exists>s'. release r s = (Inr (), s') \<and> inv s' \<and> avail s' = avail s \<union> run_frames r"
begin

text \<open>The invariant of a client that started without runs, when \<open>F\<close> was available.\<close>

definition owner_inv :: "nat set \<Rightarrow> 's \<times> frame_run list \<Rightarrow> bool" where
  "owner_inv F x \<longleftrightarrow> inv (fst x) \<and> disjoint_runs (snd x) \<and> (\<forall>r \<in> set (snd x). 0 < run_len r) \<and>
     avail (fst x) \<inter> owned_frames (snd x) = {} \<and> avail (fst x) \<union> owned_frames (snd x) = F"

lemma alloc_cases:
  assumes "inv s" "0 < n"
  shows "alloc n s = (Inr None, s) \<or> (\<exists>r s'. alloc n s = (Inr (Some r), s') \<and> inv s' \<and>
    run_len r = n \<and> run_frames r \<subseteq> avail s \<and> avail s' = avail s - run_frames r)"
  using alloc_none [OF assms] alloc_some [OF assms] by blast

lemma alloc_taken:
  assumes "inv s" "0 < n" "alloc n s = (Inr (Some r), s')"
  shows "inv s' \<and> run_len r = n \<and> run_frames r \<subseteq> avail s \<and> avail s' = avail s - run_frames r"
  using alloc_cases [OF assms(1,2)] assms(3) by auto

lemma alloc_refused:
  assumes "inv s" "0 < n" "alloc n s = (Inr None, s')"
  shows "s' = s"
  using alloc_cases [OF assms(1,2)] assms(3) by auto

lemma owned_release:
  assumes "owner_inv F (s, rs)" "F \<subseteq> {..<FRAME_COUNT}" "r \<in> set rs"
  shows "\<exists>s'. release r s = (Inr (), s') \<and> inv s' \<and> avail s' = avail s \<union> run_frames r"
  using assms run_frames_subset_owned [OF assms(3)]
  by (intro release_owned) (auto simp: owner_inv_def)

lemma owner_step_inv:
  assumes "owner_step alloc release x y" "owner_inv F x" "F \<subseteq> {..<FRAME_COUNT}"
  shows "owner_inv F y"
  using assms(1)
proof (cases rule: owner_step.cases)
  case (take n s r s' rs)
  then have "inv s" using assms(2) by (simp add: owner_inv_def)
  with take have t: "inv s' \<and> run_len r = n \<and> run_frames r \<subseteq> avail s \<and> avail s' = avail s - run_frames r"
    by (intro alloc_taken)
  have "\<forall>r' \<in> set rs. run_frames r \<inter> run_frames r' = {}"
    using t assms(2) take(1) run_frames_subset_owned by (fastforce simp: owner_inv_def)
  then show ?thesis
    using t assms(2) take by (auto simp: owner_inv_def)
next
  case (refused n s s' rs)
  then have "s' = s" using assms(2) by (intro alloc_refused) (auto simp: owner_inv_def)
  then show ?thesis using refused assms(2) by simp
next
  case (give r rs s s')
  with assms obtain s'' where "release r s = (Inr (), s'')" "inv s''" "avail s'' = avail s \<union> run_frames r"
    using owned_release [of F s rs r] by auto
  then have rel: "inv s'" "avail s' = avail s \<union> run_frames r"
    using give(4) by auto
  have "disjoint_runs rs" "run_frames r \<subseteq> owned_frames rs"
    using assms(2) give run_frames_subset_owned by (auto simp: owner_inv_def)
  then show ?thesis
    using rel assms(2) give owned_frames_remove1 disjoint_runs_remove1 set_remove1_subset [of r rs]
    by (auto simp: owner_inv_def)
qed

lemma owner_steps_inv:
  assumes "owner_steps alloc release (s, []) y" "inv s"
  shows "owner_inv (avail s) y"
  using assms(1)
proof (induction rule: rtranclp_induct)
  case base
  then show ?case using assms(2) by (simp add: owner_inv_def)
next
  case (step y z)
  then show ?case using owner_step_inv avail_bounded [OF assms(2)] by blast
qed

end

section \<open>Interface: a source of single low frames\<close>

locale lowest_frame_source =
  fixes take_one :: "('s, frame_run option) st"
    and avail :: "'s \<Rightarrow> nat set"
    and inv :: "'s \<Rightarrow> bool"
  assumes take_empty: "inv s \<Longrightarrow> avail s = {} \<Longrightarrow> take_one s = (Inr None, s)"
    and take_lowest: "inv s \<Longrightarrow> f \<in> avail s \<Longrightarrow> \<forall>g \<in> avail s. f \<le> g \<Longrightarrow>
      \<exists>s'. take_one s = (Inr (Some \<lparr>run_start = FrameNumber f, run_len = 1\<rparr>), s') \<and> inv s' \<and>
        avail s' = avail s - {f}"
begin

lemma take_one_cases:
  assumes "inv s" "avail s \<noteq> {}"
  obtains f s' where "take_one s = (Inr (Some \<lparr>run_start = FrameNumber f, run_len = 1\<rparr>), s')"
    "inv s'" "f \<in> avail s" "\<forall>g \<in> avail s. f \<le> g" "avail s' = avail s - {f}"
proof -
  define f where "f = (LEAST f. f \<in> avail s)"
  have f: "f \<in> avail s" "\<forall>g \<in> avail s. f \<le> g"
    unfolding f_def using assms(2) by (auto intro: LeastI Least_le)
  from take_lowest [OF assms(1) f] obtain s' where
    "take_one s = (Inr (Some \<lparr>run_start = FrameNumber f, run_len = 1\<rparr>), s')" "inv s'"
    "avail s' = avail s - {f}" by blast
  with f show thesis by (intro that)
qed

text \<open>
  As long as more than \<open>k\<close> of the available frames lie below a bound, taking one gives a frame
  below it and leaves at least \<open>k\<close>.
\<close>

lemma take_one_below:
  assumes "inv s" "k < card (avail s \<inter> {..<b})"
  obtains f s' where "take_one s = (Inr (Some \<lparr>run_start = FrameNumber f, run_len = 1\<rparr>), s')"
    "inv s'" "f \<in> avail s" "f < b" "avail s' = avail s - {f}" "k \<le> card (avail s' \<inter> {..<b})"
proof -
  have "avail s \<inter> {..<b} \<noteq> {}" using assms(2) by auto
  then obtain g where g: "g \<in> avail s" "g < b" by auto
  then have "avail s \<noteq> {}" by auto
  from take_one_cases [OF assms(1) this] obtain f s' where
    t: "take_one s = (Inr (Some \<lparr>run_start = FrameNumber f, run_len = 1\<rparr>), s')"
    "inv s'" "f \<in> avail s" "\<forall>g \<in> avail s. f \<le> g" "avail s' = avail s - {f}" .
  have "f < b" using g t(4) by auto
  moreover have "avail s' \<inter> {..<b} = (avail s \<inter> {..<b}) - {f}" using t(5) by auto
  then have "k \<le> card (avail s' \<inter> {..<b})"
    using assms(2) t(3) \<open>f < b\<close> by (simp add: card_Diff_singleton)
  ultimately show thesis using t by (intro that)
qed

end

end
