(* ===== verification/Frame_Proofs.thy ===== *)
theory Frame_Proofs
  imports Frame_Interface
begin

text \<open>
  Correctness of the frame allocator.  The invariant \<open>wf_bitmap\<close> is the array length and the bound
  on the hint the source states; \<open>free_frames\<close> abstracts the bitmap to a set.  Each operation is
  shown to keep the invariant, not to panic under its precondition, and to compute a set operation
  on \<open>free_frames\<close>; the search is first-fit and complete.  The interface locale \<open>run_allocator\<close>
  states what a client may rely on, and its lemmas (no two owned runs overlap, no frame is lost)
  are interpreted for the bitmap allocator.
\<close>

section \<open>Abstraction\<close>

definition wf_bitmap :: "frame_bitmap \<Rightarrow> bool" where
  "wf_bitmap fb \<longleftrightarrow> length (bitmap fb) = WORD_COUNT \<and> search_hint fb \<le> WORD_COUNT"

definition frame_free :: "frame_bitmap \<Rightarrow> nat \<Rightarrow> bool" where
  "frame_free fb f \<longleftrightarrow> f < FRAME_COUNT \<and> bit (bitmap fb ! (f div 32)) (f mod 32)"

definition free_frames :: "frame_bitmap \<Rightarrow> nat set" where
  "free_frames fb = {f. frame_free fb f}"

lemma FRAME_COUNT_eq: "FRAME_COUNT = 1048576"
  by (simp add: FRAME_COUNT_def)

lemma WORD_COUNT_eq: "WORD_COUNT = 32768"
  by (simp add: WORD_COUNT_def FRAME_COUNT_def)

lemma word_index_less_iff: "f div 32 < WORD_COUNT \<longleftrightarrow> f < FRAME_COUNT"
  by (simp add: WORD_COUNT_eq FRAME_COUNT_eq div_less_iff_less_mult)

lemma free_frames_less: "free_frames fb \<subseteq> {..<FRAME_COUNT}"
  by (auto simp: free_frames_def frame_free_def)

lemma mem_free_frames [simp]: "f \<in> free_frames fb \<longleftrightarrow> frame_free fb f"
  by (simp add: free_frames_def)

lemma frame_free_update_hint [simp]: "frame_free (fb\<lparr>search_hint := h\<rparr>) f = frame_free fb f"
  by (simp add: frame_free_def)

lemma free_frames_update_hint [simp]: "free_frames (fb\<lparr>search_hint := h\<rparr>) = free_frames fb"
  by (simp add: free_frames_def)

text \<open>The set of free frames determines the bitmap.\<close>

lemma bitmap_eqI:
  assumes "length (bitmap fb) = WORD_COUNT" "length (bitmap fb') = WORD_COUNT"
    and "free_frames fb = free_frames fb'"
  shows "bitmap fb = bitmap fb'"
proof (rule nth_equalityI)
  fix i
  assume i: "i < length (bitmap fb)"
  show "bitmap fb ! i = bitmap fb' ! i"
  proof (rule bit_word_eqI)
    fix k
    assume "k < LENGTH(32)"
    then have k: "k < 32" by simp
    have "i * 32 + k < FRAME_COUNT"
      using i k assms(1) by (simp add: WORD_COUNT_eq FRAME_COUNT_eq)
    moreover have "(i * 32 + k) div 32 = i" "(i * 32 + k) mod 32 = k"
      using k by auto
    moreover have "frame_free fb (i * 32 + k) \<longleftrightarrow> frame_free fb' (i * 32 + k)"
      using assms(3) by (metis mem_free_frames)
    ultimately show "bit (bitmap fb ! i) k = bit (bitmap fb' ! i) k"
      by (simp add: frame_free_def)
  qed
qed (simp add: assms)

section \<open>Masks\<close>

definition covers :: "(usize \<times> u32) list \<Rightarrow> nat \<Rightarrow> bool" where
  "covers items f \<longleftrightarrow> (\<exists>m. (f div 32, m) \<in> set items \<and> bit m (f mod 32))"

lemma covers_simps [simp]:
  "\<not> covers [] f"
  "covers ((i, m) # items) f \<longleftrightarrow> f div 32 = i \<and> bit m (f mod 32) \<or> covers items f"
  by (auto simp: covers_def)

lemma in_word_range_iff:
  fixes f w b t :: nat
  assumes "b + t \<le> 32"
  shows "f div 32 = w \<and> b \<le> f mod 32 \<and> f mod 32 < b + t \<longleftrightarrow> w * 32 + b \<le> f \<and> f < w * 32 + b + t"
proof
  assume "f div 32 = w \<and> b \<le> f mod 32 \<and> f mod 32 < b + t"
  then show "w * 32 + b \<le> f \<and> f < w * 32 + b + t"
    using div_mult_mod_eq [of f 32] by auto
next
  assume r: "w * 32 + b \<le> f \<and> f < w * 32 + b + t"
  then have "f div 32 = w" using assms by (intro div_nat_eqI) auto
  then show "f div 32 = w \<and> b \<le> f mod 32 \<and> f mod 32 < b + t"
    using r div_mult_mod_eq [of f 32] by auto
qed

lemma word_masks_from_spec:
  assumes "b < 32"
  shows "\<exists>items. word_masks_from p w b r = Inr items \<and>
    (\<forall>f. covers items f \<longleftrightarrow> w * 32 + b \<le> f \<and> f < w * 32 + b + r) \<and>
    (\<forall>(i, m) \<in> set items. m \<noteq> 0)"
  using assms
proof (induction r arbitrary: w b rule: less_induct)
  case (less r)
  show ?case
  proof (cases "r = 0")
    case True
    then show ?thesis by (subst word_masks_from.simps) simp
  next
    case False
    let ?t = "min r (32 - b)"
    have t: "0 < ?t" "b + ?t \<le> 32" "r - ?t < r" using False less.prems by auto
    obtain items where items: "word_masks_from p (w + 1) 0 (r - ?t) = Inr items"
      "\<And>f. covers items f \<longleftrightarrow> (w + 1) * 32 \<le> f \<and> f < (w + 1) * 32 + (r - ?t)"
      "\<forall>(i, m) \<in> set items. m \<noteq> 0"
      using less.IH [of "r - ?t" 0 "w + 1"] t by auto
    have "word_masks_from p w b r = Inr ((w, range_mask b ?t) # items)"
      using False items(1) less.prems
      by (subst word_masks_from.simps) (simp add: clipped_bit_range_mask_eq)
    moreover have "covers ((w, range_mask b ?t) # items) f \<longleftrightarrow> w * 32 + b \<le> f \<and> f < w * 32 + b + r" for f
    proof -
      have "covers ((w, range_mask b ?t) # items) f \<longleftrightarrow>
          w * 32 + b \<le> f \<and> f < w * 32 + b + ?t \<or> (w + 1) * 32 \<le> f \<and> f < (w + 1) * 32 + (r - ?t)"
        using in_word_range_iff [OF t(2), of f w]
        unfolding covers_simps items(2) bit_range_mask by (metis mod_less_divisor zero_less_numeral)
      also have "\<dots> \<longleftrightarrow> w * 32 + b \<le> f \<and> f < w * 32 + b + r"
      proof (cases "r \<le> 32 - b")
        case True
        then show ?thesis by auto
      next
        case False
        with less.prems show ?thesis by (auto simp: min_def)
      qed
      finally show ?thesis .
    qed
    moreover have "range_mask b ?t \<noteq> 0"
      using t less.prems by (metis bit_0_eq bit_range_mask bot_apply le_refl less_add_same_cancel1 bot_bool_def)
    ultimately show ?thesis using items(3) by auto
  qed
qed

lemma word_masks_spec:
  "\<exists>items. word_masks p start len = Inr items \<and>
    (\<forall>f. covers items f \<longleftrightarrow> start \<le> f \<and> f < start + len) \<and> (\<forall>(i, m) \<in> set items. m \<noteq> 0)"
  using word_masks_from_spec [of "start mod 32" p "start div 32" len] by (simp add: word_masks_def)

text \<open>A word the masks name holds a frame of the range.\<close>

lemma mask_word_in_range:
  assumes "\<forall>f. covers items f \<longleftrightarrow> start \<le> f \<and> f < start + len" "(i, m) \<in> set items" "m \<noteq> 0"
    and "start + len \<le> FRAME_COUNT"
  shows "i < WORD_COUNT"
proof -
  from \<open>m \<noteq> 0\<close> obtain k where k: "bit m k" by (auto simp: bit_eq_iff)
  then have "k < 32" by (auto dest: bit_imp_le_length)
  then have "(i * 32 + k) div 32 = i" "(i * 32 + k) mod 32 = k" by auto
  then have "covers items (i * 32 + k)"
    using assms(2) k unfolding covers_def by metis
  then have "i * 32 + k < FRAME_COUNT" using assms(1,4) by auto
  then show ?thesis by (simp add: WORD_COUNT_eq FRAME_COUNT_eq)
qed

section \<open>Bitmap access\<close>

lemma bit_test_iff: "k < 32 \<Longrightarrow> (w :: u32) AND push_bit k 1 \<noteq> 0 \<longleftrightarrow> bit w k"
  by (simp add: bit_iff_and_push_bit_not_eq_0)

lemma is_free_eq [panic_free]:
  "wf_bitmap fb \<Longrightarrow> f < FRAME_COUNT \<Longrightarrow> is_free fb f = Inr (frame_free fb f)"
  by (simp add: is_free_def bitmap_word_def wf_bitmap_def frame_free_def word_index_less_iff bit_test_iff
      del: push_bit_of_1)

lemma and_nonzero_iff: "(w :: u32) AND m \<noteq> 0 \<longleftrightarrow> (\<exists>k < 32. bit w k \<and> bit m k)"
  by (auto simp: bit_eq_iff bit_and_iff dest: bit_imp_le_length)

lemma any_word_eq:
  "\<forall>(i, m) \<in> set items. i < length (bitmap fb) \<Longrightarrow>
   any_word fb items = Inr (\<exists>(i, m) \<in> set items. bitmap fb ! i AND m \<noteq> 0)"
  by (induction fb items rule: any_word.induct) (auto simp: bitmap_word_def)

lemma any_free_in_eq [panic_free]:
  assumes "wf_bitmap fb" "start + len \<le> FRAME_COUNT"
  shows "any_free_in p start len fb = Inr (\<exists>f. start \<le> f \<and> f < start + len \<and> frame_free fb f)"
proof -
  obtain items where items: "word_masks p start len = Inr items"
    and cov: "\<forall>f. covers items f \<longleftrightarrow> start \<le> f \<and> f < start + len"
    and nz: "\<forall>(i, m) \<in> set items. m \<noteq> 0"
    using word_masks_spec by blast
  have idx: "i < WORD_COUNT" if "(i, m) \<in> set items" for i m
    using mask_word_in_range [OF cov that _ assms(2)] nz that by auto
  have "(\<exists>(i, m) \<in> set items. bitmap fb ! i AND m \<noteq> 0) \<longleftrightarrow> (\<exists>f. covers items f \<and> frame_free fb f)"
  proof
    assume "\<exists>(i, m) \<in> set items. bitmap fb ! i AND m \<noteq> 0"
    then obtain i m k where im: "(i, m) \<in> set items" and k: "k < 32" "bit (bitmap fb ! i) k" "bit m k"
      by (auto simp: and_nonzero_iff)
    let ?f = "i * 32 + k"
    have f: "?f div 32 = i" "?f mod 32 = k" using k by auto
    then have "covers items ?f" using im k unfolding covers_def by metis
    moreover have "?f < FRAME_COUNT" using idx [OF im] f by (metis word_index_less_iff)
    ultimately show "\<exists>f. covers items f \<and> frame_free fb f"
      using f k by (metis frame_free_def)
  next
    assume "\<exists>f. covers items f \<and> frame_free fb f"
    then obtain f m where "(f div 32, m) \<in> set items" "bit m (f mod 32)"
      "bit (bitmap fb ! (f div 32)) (f mod 32)"
      by (auto simp: covers_def frame_free_def)
    then show "\<exists>(i, m) \<in> set items. bitmap fb ! i AND m \<noteq> 0"
      by (force simp: and_nonzero_iff)
  qed
  moreover have "any_word fb items = Inr (\<exists>(i, m) \<in> set items. bitmap fb ! i AND m \<noteq> 0)"
    using idx assms(1) by (intro any_word_eq) (auto simp: wf_bitmap_def)
  ultimately show ?thesis
    using cov by (simp add: any_free_in_def items)
qed

text \<open>
  Both range updates write a constant into the masked bits: one where \<open>set_free\<close> ORs, zero where
  \<open>set_occupied\<close> clears.
\<close>

definition writes_bit :: "(u32 \<Rightarrow> u32 \<Rightarrow> u32) \<Rightarrow> bool \<Rightarrow> bool" where
  "writes_bit upd v \<longleftrightarrow> (\<forall>w m k. k < 32 \<longrightarrow> (bit (upd m w) k \<longleftrightarrow> (if bit m k then v else bit w k)))"

lemma writes_bit_or: "writes_bit (\<lambda>m w. w OR m) True"
  by (simp add: writes_bit_def bit_or_iff)

lemma writes_bit_and_not: "writes_bit (\<lambda>m w. w AND NOT m) False"
  by (auto simp: writes_bit_def bit_and_iff bit_not_iff)

lemma update_word_ok:
  "i < length (bitmap fb) \<Longrightarrow>
   update_word g i fb = (Inr (), fb\<lparr>bitmap := (bitmap fb)[i := g (bitmap fb ! i)]\<rparr>)"
  by (simp add: update_word_def sbind_reads bitmap_word_def)

lemma update_word_panic:
  "\<not> i < length (bitmap fb) \<Longrightarrow>
   update_word g i fb = (Inl (Index_Out_Of_Bounds i (length (bitmap fb))), fb)"
  by (simp add: update_word_def sbind_reads bitmap_word_def)

lemma for_each_update_word:
  assumes "writes_bit upd v" "\<forall>(i, m) \<in> set items. i < length (bitmap fb)"
  shows "\<exists>bm. for_each (\<lambda>(i, m). update_word (upd m) i) items fb = (Inr (), fb\<lparr>bitmap := bm\<rparr>) \<and>
    length bm = length (bitmap fb) \<and>
    (\<forall>f. f div 32 < length bm \<longrightarrow>
       (bit (bm ! (f div 32)) (f mod 32) \<longleftrightarrow>
         (if covers items f then v else bit (bitmap fb ! (f div 32)) (f mod 32))))"
  using assms(2)
proof (induction items arbitrary: fb)
  case Nil
  then show ?case by (intro exI [of _ "bitmap fb"]) simp
next
  case (Cons im items)
  obtain i m where im: "im = (i, m)" by (cases im)
  have i: "i < length (bitmap fb)" using Cons.prems im by simp
  let ?fb = "fb\<lparr>bitmap := (bitmap fb)[i := upd m (bitmap fb ! i)]\<rparr>"
  have "\<forall>(i, m) \<in> set items. i < length (bitmap ?fb)" using Cons.prems by simp
  from Cons.IH [OF this] obtain bm where
    run: "for_each (\<lambda>(i, m). update_word (upd m) i) items ?fb = (Inr (), ?fb\<lparr>bitmap := bm\<rparr>)"
    and len: "length bm = length (bitmap ?fb)"
    and bits: "\<And>f. f div 32 < length bm \<Longrightarrow> bit (bm ! (f div 32)) (f mod 32) \<longleftrightarrow>
      (if covers items f then v else bit (bitmap ?fb ! (f div 32)) (f mod 32))"
    by blast
  have "bit (bm ! (f div 32)) (f mod 32) \<longleftrightarrow>
      (if covers (im # items) f then v else bit (bitmap fb ! (f div 32)) (f mod 32))"
    if "f div 32 < length bm" for f
    using bits [OF that] that i assms(1) unfolding writes_bit_def
    by (auto simp: im nth_list_update)
  moreover have "for_each (\<lambda>(i, m). update_word (upd m) i) (im # items) fb = (Inr (), fb\<lparr>bitmap := bm\<rparr>)"
    using run by (simp add: im sbind_def update_word_ok [OF i])
  ultimately show ?case using len by (intro exI [of _ bm]) simp
qed

lemma for_each_update_word_panic:
  assumes "(i, m) \<in> set items" "\<not> i < length (bitmap fb)"
  shows "\<exists>j fb'. for_each (\<lambda>(i, m). update_word (upd m) i) items fb =
    (Inl (Index_Out_Of_Bounds j (length (bitmap fb))), fb')"
  using assms
proof (induction items arbitrary: fb)
  case Nil
  then show ?case by simp
next
  case (Cons im items)
  obtain i' m' where im: "im = (i', m')" by (cases im)
  show ?case
  proof (cases "i' < length (bitmap fb)")
    case True
    let ?fb = "fb\<lparr>bitmap := (bitmap fb)[i' := upd m' (bitmap fb ! i')]\<rparr>"
    have "(i, m) \<in> set items" "\<not> i < length (bitmap ?fb)" using Cons.prems True im by auto
    from Cons.IH [OF this] show ?thesis
      by (simp add: im sbind_def update_word_ok [OF True])
  next
    case False
    then show ?thesis by (simp add: im sbind_def update_word_panic)
  qed
qed

lemma update_range_spec:
  assumes "writes_bit upd v" "wf_bitmap fb" "start + len \<le> FRAME_COUNT"
  shows "\<exists>fb'. sbind (lift (word_masks p start len)) (for_each (\<lambda>(i, m). update_word (upd m) i)) fb
      = (Inr (), fb') \<and> wf_bitmap fb' \<and> search_hint fb' = search_hint fb \<and>
    (\<forall>f < FRAME_COUNT. frame_free fb' f \<longleftrightarrow>
       (if start \<le> f \<and> f < start + len then v else frame_free fb f))"
proof -
  obtain items where items: "word_masks p start len = Inr items"
    and cov: "\<forall>f. covers items f \<longleftrightarrow> start \<le> f \<and> f < start + len"
    and nz: "\<forall>(i, m) \<in> set items. m \<noteq> 0"
    using word_masks_spec by blast
  have "\<forall>(i, m) \<in> set items. i < length (bitmap fb)"
    using mask_word_in_range [OF cov _ _ assms(3)] nz assms(2) by (fastforce simp: wf_bitmap_def)
  from for_each_update_word [OF assms(1) this] obtain bm where bm:
    "for_each (\<lambda>(i, m). update_word (upd m) i) items fb = (Inr (), fb\<lparr>bitmap := bm\<rparr>)"
    "length bm = length (bitmap fb)"
    "\<forall>f. f div 32 < length bm \<longrightarrow> (bit (bm ! (f div 32)) (f mod 32) \<longleftrightarrow>
         (if covers items f then v else bit (bitmap fb ! (f div 32)) (f mod 32)))"
    by blast
  then show ?thesis
    using assms(2) cov by (auto simp: items wf_bitmap_def frame_free_def word_index_less_iff)
qed

lemma set_free_spec:
  assumes "wf_bitmap fb" "frame_index start + len \<le> FRAME_COUNT"
  obtains fb' where "set_free p start len fb = (Inr (), fb')" "wf_bitmap fb'"
    "search_hint fb' = search_hint fb"
    "free_frames fb' = free_frames fb \<union> {frame_index start..<frame_index start + len}"
proof -
  obtain fb' where fb': "set_free p start len fb = (Inr (), fb')" "wf_bitmap fb'"
    "search_hint fb' = search_hint fb"
    "\<forall>f < FRAME_COUNT. frame_free fb' f \<longleftrightarrow>
       (if frame_index start \<le> f \<and> f < frame_index start + len then True else frame_free fb f)"
    using update_range_spec [OF writes_bit_or assms, of p] unfolding set_free_def by blast
  have "free_frames fb' = free_frames fb \<union> {frame_index start..<frame_index start + len}"
    using fb'(4) assms(2) free_frames_less [of fb] free_frames_less [of fb']
    by (intro set_eqI) (auto split: if_splits)
  with fb' show thesis by (intro that)
qed

lemma set_occupied_spec:
  assumes "wf_bitmap fb" "frame_index start + len \<le> FRAME_COUNT"
  obtains fb' where "set_occupied p start len fb = (Inr (), fb')" "wf_bitmap fb'"
    "search_hint fb' = search_hint fb"
    "free_frames fb' = free_frames fb - {frame_index start..<frame_index start + len}"
proof -
  obtain fb' where fb': "set_occupied p start len fb = (Inr (), fb')" "wf_bitmap fb'"
    "search_hint fb' = search_hint fb"
    "\<forall>f < FRAME_COUNT. frame_free fb' f \<longleftrightarrow>
       (if frame_index start \<le> f \<and> f < frame_index start + len then False else frame_free fb f)"
    using update_range_spec [OF writes_bit_and_not assms, of p] unfolding set_occupied_def by blast
  have "free_frames fb' = free_frames fb - {frame_index start..<frame_index start + len}"
    using fb'(4) assms(2) free_frames_less [of fb] free_frames_less [of fb']
    by (intro set_eqI) (auto split: if_splits)
  with fb' show thesis by (intro that)
qed

lemma set_free_panic:
  assumes "wf_bitmap fb" "FRAME_COUNT < frame_index start + len" "0 < len"
  shows "\<exists>j fb'. set_free p start len fb = (Inl (Index_Out_Of_Bounds j WORD_COUNT), fb')"
proof -
  obtain items where items: "word_masks p (frame_index start) len = Inr items"
    and cov: "\<forall>f. covers items f \<longleftrightarrow> frame_index start \<le> f \<and> f < frame_index start + len"
    using word_masks_spec by blast
  let ?f = "frame_index start + len - 1"
  have "covers items ?f" using cov assms(2,3) by auto
  then obtain m where m: "(?f div 32, m) \<in> set items" by (auto simp: covers_def)
  have "\<not> ?f div 32 < length (bitmap fb)"
    using assms by (simp add: wf_bitmap_def word_index_less_iff)
  from for_each_update_word_panic [OF m this, of "\<lambda>m w. w OR m"] show ?thesis
    using assms(1) by (simp add: set_free_def items wf_bitmap_def)
qed

section \<open>Searching\<close>

text \<open>\<open>count\<close> contiguous free frames start at \<open>s\<close>.\<close>

definition run_at :: "frame_bitmap \<Rightarrow> nat \<Rightarrow> nat \<Rightarrow> bool" where
  "run_at fb s count \<longleftrightarrow> (\<forall>f. s \<le> f \<and> f < s + count \<longrightarrow> frame_free fb f)"

lemma run_at_0 [simp]: "run_at fb s 0"
  by (auto simp: run_at_def)

lemma run_at_iff_subset: "run_at fb s count \<longleftrightarrow> {s..<s + count} \<subseteq> free_frames fb"
  by (auto simp: run_at_def)

lemma run_at_bound: "run_at fb s count \<Longrightarrow> 0 < count \<Longrightarrow> s + count \<le> FRAME_COUNT"
proof -
  assume "run_at fb s count" "0 < count"
  then have "frame_free fb (s + count - 1)" by (auto simp: run_at_def)
  then show ?thesis by (auto simp: frame_free_def)
qed

definition first_run :: "frame_bitmap \<Rightarrow> nat \<Rightarrow> nat \<Rightarrow> nat option \<Rightarrow> bool" where
  "first_run fb from count r \<longleftrightarrow>
     (case r of
        None \<Rightarrow> (\<forall>s \<ge> from. \<not> run_at fb s count)
      | Some s \<Rightarrow> from \<le> s \<and> run_at fb s count \<and> (\<forall>t. from \<le> t \<and> t < s \<longrightarrow> \<not> run_at fb t count))"

lemma scan_loop_spec:
  assumes "wf_bitmap fb" "len < count" "len \<le> frame" "len = 0 \<or> start = frame - len"
    and "run_at fb (frame - len) len"
  shows "\<exists>r. scan_loop fb count frame start len = Inr r \<and> first_run fb (frame - len) count r"
  using assms
proof (induction fb count frame start len rule: scan_loop.induct)
  case (1 fb count frame start len)
  note prems = "1.prems"
  show ?case
  proof (cases "frame < FRAME_COUNT")
    case False
    have "\<not> run_at fb s count" if "frame - len \<le> s" for s
      using run_at_bound [of fb s count] that False prems by auto
    then show ?thesis
      using False by (subst scan_loop.simps) (auto simp: first_run_def)
  next
    case True
    note free = is_free_eq [OF prems(1) True]
    show ?thesis
    proof (cases "frame_free fb frame")
      case False
      obtain r where r: "scan_loop fb count (frame + 1) start 0 = Inr r" "first_run fb (frame + 1) count r"
        using "1.IH"(1) [OF True free] False prems by (auto simp: run_at_def)
      have no: "\<not> run_at fb s count" if "frame - len \<le> s" "s \<le> frame" for s
        using False that prems(2,3) by (auto simp: run_at_def)
      have "first_run fb (frame - len) count r"
        using r(2) no by (fastforce simp: first_run_def not_less_eq_eq split: option.splits)
      then show ?thesis
        using r(1) True False free by (subst scan_loop.simps) simp
    next
      case fr: True
      let ?start = "if len = 0 then frame else start"
      have start: "?start = frame - len" using prems(4) by auto
      have run: "run_at fb (frame - len) (len + 1)"
        using fr prems(3,5) by (fastforce simp: run_at_def less_Suc_eq)
      show ?thesis
      proof (cases "len + 1 = count")
        case True
        then show ?thesis
          using \<open>frame < FRAME_COUNT\<close> fr free run start
          by (subst scan_loop.simps) (auto simp: first_run_def Let_def)
      next
        case False
        then have "\<exists>r. scan_loop fb count (frame + 1) ?start (len + 1) = Inr r \<and>
            first_run fb (frame + 1 - (len + 1)) count r"
          using "1.IH"(2) [OF True free _ refl refl False] fr prems start run by auto
        then show ?thesis
          using \<open>frame < FRAME_COUNT\<close> fr free False by (subst scan_loop.simps) (auto simp: Let_def)
      qed
    qed
  qed
qed

lemma scan_for_run_spec:
  "wf_bitmap fb \<Longrightarrow> 0 < count \<Longrightarrow>
   \<exists>r. scan_for_run lo count fb = Inr r \<and> first_run fb lo count r"
  using scan_loop_spec [of fb 0 count lo 0] by (simp add: scan_for_run_def)

text \<open>The result of the search: the first run from the hint on, else the first run at all.\<close>

lemma find_free_run_spec:
  assumes "wf_bitmap fb" "0 < count"
  obtains r where "find_free_run p count fb = Inr r"
    "r = None \<longrightarrow> (\<forall>s. \<not> run_at fb s count)"
    "\<And>s. r = Some s \<Longrightarrow> run_at fb s count"
    "first_run fb (search_hint fb * 32) count r \<or>
     first_run fb (search_hint fb * 32) count None \<and> first_run fb 0 count r"
proof -
  have hint: "search_hint fb * 32 < 2 ^ 32"
    using assms(1) by (simp add: wf_bitmap_def WORD_COUNT_eq)
  obtain r1 where r1: "scan_for_run (search_hint fb * 32) count fb = Inr r1"
    "first_run fb (search_hint fb * 32) count r1"
    using scan_for_run_spec [OF assms] by blast
  obtain r2 where r2: "scan_for_run 0 count fb = Inr r2" "first_run fb 0 count r2"
    using scan_for_run_spec [OF assms] by blast
  show thesis
  proof (cases r1)
    case None
    with r1 r2 hint show thesis
      by (intro that [of r2]) (auto simp: find_free_run_def usize_mul_ok first_run_def)
  next
    case (Some s)
    with r1 hint show thesis
      by (intro that [of r1]) (auto simp: find_free_run_def usize_mul_ok first_run_def)
  qed
qed

section \<open>Allocation and release\<close>

lemma hint_after_run: "s + count \<le> FRAME_COUNT \<Longrightarrow> (s + count) div 32 \<le> WORD_COUNT"
  by (simp add: WORD_COUNT_eq FRAME_COUNT_eq div_le_mono [of _ "32768 * 32" 32, simplified])

lemma allocate_found:
  assumes "wf_bitmap fb" "0 < count" "find_free_run p count fb = Inr (Some s)" "run_at fb s count"
  obtains fb' where "allocate p count fb = (Inr (Some \<lparr>run_start = FrameNumber s, run_len = count\<rparr>), fb')"
    "wf_bitmap fb'" "free_frames fb' = free_frames fb - {s..<s + count}"
    "search_hint fb' = (s + count) div 32"
proof -
  have bound: "s + count \<le> FRAME_COUNT" using assms by (intro run_at_bound)
  then obtain fb1 where fb1: "set_occupied p (FrameNumber s) count fb = (Inr (), fb1)" "wf_bitmap fb1"
    "free_frames fb1 = free_frames fb - {s..<s + count}"
    using set_occupied_spec [OF assms(1), of "FrameNumber s" count p] by auto
  have "allocate p count fb = (Inr (Some \<lparr>run_start = FrameNumber s, run_len = count\<rparr>),
      fb1\<lparr>search_hint := (s + count) div 32\<rparr>)"
    using assms(2,3) bound
    by (simp add: allocate_def sbind_def fb1(1) frame_run_new_def panic_free FRAME_COUNT_eq)
  then show thesis
    by (rule that) (use fb1 hint_after_run [OF bound] in \<open>auto simp: wf_bitmap_def\<close>)
qed

lemma allocate_cases:
  assumes "wf_bitmap fb" "0 < count"
  obtains (none) "allocate p count fb = (Inr None, fb)" "\<forall>s. \<not> run_at fb s count"
  | (some) s fb' where "allocate p count fb = (Inr (Some \<lparr>run_start = FrameNumber s, run_len = count\<rparr>), fb')"
    "run_at fb s count" "wf_bitmap fb'" "free_frames fb' = free_frames fb - {s..<s + count}"
    "search_hint fb' = (s + count) div 32"
    "first_run fb (search_hint fb * 32) count (Some s) \<or>
     first_run fb (search_hint fb * 32) count None \<and> first_run fb 0 count (Some s)"
proof -
  obtain r where r: "find_free_run p count fb = Inr r" "r = None \<longrightarrow> (\<forall>s. \<not> run_at fb s count)"
    "\<And>s. r = Some s \<Longrightarrow> run_at fb s count"
    "first_run fb (search_hint fb * 32) count r \<or>
     first_run fb (search_hint fb * 32) count None \<and> first_run fb 0 count r"
    using find_free_run_spec [OF assms] by blast
  show thesis
  proof (cases r)
    case None
    show thesis
    proof (rule none)
      show "\<forall>s. \<not> run_at fb s count" using r(2) None by simp
      show "allocate p count fb = (Inr None, fb)"
        using r(1) None by (simp add: allocate_def sbind_reads)
    qed
  next
    case (Some s)
    then have f: "find_free_run p count fb = Inr (Some s)" using r(1) by simp
    from allocate_found [OF assms f r(3) [OF Some]] obtain fb' where
      "allocate p count fb = (Inr (Some \<lparr>run_start = FrameNumber s, run_len = count\<rparr>), fb')"
      "wf_bitmap fb'" "free_frames fb' = free_frames fb - {s..<s + count}"
      "search_hint fb' = (s + count) div 32" .
    then show thesis using r(3,4) Some by (intro some) auto
  qed
qed

lemma free_double:
  assumes "wf_bitmap fb" "frame_index (run_start r) + run_len r \<le> FRAME_COUNT"
    and "run_frames r \<inter> free_frames fb \<noteq> {}"
  shows "free p r fb = (Inl Double_Free, fb)"
proof -
  have "\<exists>f. frame_index (run_start r) \<le> f \<and> f < frame_index (run_start r) + run_len r \<and> frame_free fb f"
    using assms(3) by (auto simp: run_frames_def)
  then show ?thesis
    using any_free_in_eq [OF assms(1,2), of p] by (simp add: free_def Let_def sbind_reads)
qed

lemma free_owned:
  assumes "wf_bitmap fb" "frame_index (run_start r) + run_len r \<le> FRAME_COUNT"
    and "run_frames r \<inter> free_frames fb = {}"
  obtains fb' where "free p r fb = (Inr (), fb')" "wf_bitmap fb'"
    "free_frames fb' = free_frames fb \<union> run_frames r"
    "search_hint fb' = min (search_hint fb) (frame_index (run_start r) div 32)"
proof -
  obtain fb1 where fb1: "set_free p (run_start r) (run_len r) fb = (Inr (), fb1)" "wf_bitmap fb1"
    "search_hint fb1 = search_hint fb" "free_frames fb1 = free_frames fb \<union> run_frames r"
    using set_free_spec [OF assms(1,2)] unfolding run_frames_def by metis
  have "\<not> (\<exists>f. frame_index (run_start r) \<le> f \<and>
      f < frame_index (run_start r) + run_len r \<and> frame_free fb f)"
    using assms(3) by (auto simp: run_frames_def)
  then have "any_free_in p (frame_index (run_start r)) (run_len r) fb = Inr False"
    using any_free_in_eq [OF assms(1,2)] by simp
  then have "free p r fb = (Inr (), fb1\<lparr>search_hint :=
      min (search_hint fb) (frame_index (run_start r) div 32)\<rparr>)"
    by (simp add: free_def Let_def sbind_def fb1(1,3))
  then show thesis
    by (rule that) (use fb1 in \<open>auto simp: wf_bitmap_def\<close>)
qed

section \<open>The interfaces, for the bitmap allocator\<close>

interpretation frames: run_allocator "allocate p" "free p" free_frames wf_bitmap for p
proof
  fix s
  show "free_frames s \<subseteq> {..<FRAME_COUNT}" by (rule free_frames_less)
next
  fix s n
  assume "wf_bitmap s" "(0::nat) < n" "\<forall>a. \<not> {a..<a + n} \<subseteq> free_frames s"
  then show "allocate p n s = (Inr None, s)"
    by (cases rule: allocate_cases [of s n p]) (auto simp: run_at_iff_subset)
next
  fix s n a
  assume "wf_bitmap s" "(0::nat) < n" "{a..<a + n} \<subseteq> free_frames s"
  then show "\<exists>r s'. allocate p n s = (Inr (Some r), s') \<and> wf_bitmap s' \<and> run_len r = n \<and>
      run_frames r \<subseteq> free_frames s \<and> free_frames s' = free_frames s - run_frames r"
    by (cases rule: allocate_cases [of s n p]) (auto simp: run_at_iff_subset run_frames_def)
next
  fix s r
  assume a: "wf_bitmap s" "0 < run_len r" "run_frames r \<subseteq> {..<FRAME_COUNT}" "run_frames r \<inter> free_frames s = {}"
  then have "frame_index (run_start r) + run_len r - 1 \<in> run_frames r"
    by (auto simp: run_frames_def)
  with a have b: "frame_index (run_start r) + run_len r \<le> FRAME_COUNT" by auto
  show "\<exists>s'. free p r s = (Inr (), s') \<and> wf_bitmap s' \<and> free_frames s' = free_frames s \<union> run_frames r"
    by (rule free_owned [OF a(1) b a(4), of p]) blast
qed

text \<open>No free frame lies below the words the hint skips: then first-fit is lowest-fit.\<close>

definition packed :: "frame_bitmap \<Rightarrow> bool" where
  "packed fb \<longleftrightarrow> (\<forall>f \<in> free_frames fb. search_hint fb * 32 \<le> f)"

lemma allocate_one_lowest:
  assumes "wf_bitmap fb" "packed fb" "f \<in> free_frames fb" "\<forall>g \<in> free_frames fb. f \<le> g"
  shows "\<exists>fb'. allocate_one p fb = (Inr (Some \<lparr>run_start = FrameNumber f, run_len = 1\<rparr>), fb') \<and>
    (wf_bitmap fb' \<and> packed fb') \<and> free_frames fb' = free_frames fb - {f}"
  using assms(1) zero_less_one
proof (cases rule: allocate_cases [where p = p])
  case none
  have "run_at fb f 1" using assms(3) by (auto simp: run_at_def less_Suc_eq_le)
  with none(2) show ?thesis by blast
next
  case (some s fb')
  have "run_at fb f 1" using assms(3) by (auto simp: run_at_def less_Suc_eq_le)
  moreover have "search_hint fb * 32 \<le> f" using assms(2,3) by (auto simp: packed_def)
  ultimately have "s \<le> f" using some(6) by (auto simp: first_run_def not_less [symmetric])
  moreover have "f \<le> s" using some(2) assms(4) by (auto simp: run_at_def)
  ultimately have s: "s = f" by simp
  have "packed fb'"
    unfolding packed_def
  proof
    fix g
    assume "g \<in> free_frames fb'"
    then have "g \<in> free_frames fb" "g \<noteq> f" using some(4) s by auto
    then have "f + 1 \<le> g" using assms(4) by (simp add: Suc_le_eq le_neq_implies_less)
    then show "search_hint fb' * 32 \<le> g"
      using some(5) s div_times_less_eq_dividend [of "f + 1" 32] by simp
  qed
  then show ?thesis using some s by (simp add: allocate_one_def)
qed

interpretation low_frames: lowest_frame_source "allocate_one p" free_frames
  "\<lambda>fb. wf_bitmap fb \<and> packed fb" for p
proof
  fix s
  assume "wf_bitmap s \<and> packed s" "free_frames s = {}"
  then show "allocate_one p s = (Inr None, s)"
    unfolding allocate_one_def
    by (intro frames.alloc_none) auto
next
  fix s f
  assume "wf_bitmap s \<and> packed s" "f \<in> free_frames s" "\<forall>g \<in> free_frames s. f \<le> g"
  then show "\<exists>s'. allocate_one p s = (Inr (Some \<lparr>run_start = FrameNumber f, run_len = 1\<rparr>), s') \<and>
      (wf_bitmap s' \<and> packed s') \<and> free_frames s' = free_frames s - {f}"
    by (intro allocate_one_lowest) auto
qed

end
