(* ===== verification/Paging_Tables.thy ===== *)
theory Paging_Tables
  imports Paging_Entries Frame_Proofs
begin

text \<open>
  The directory under construction: \<open>tables\<close> says that a frame of memory holds a directory, which
  frames hold its page tables, and which entry every page has.  The steps of the construction
  (allocating a frame, zeroing it, writing an entry) keep it, and \<open>map_bootstrap\<close> updates exactly
  one page.
\<close>

section \<open>Words of a frame\<close>

definition zeroed :: "nat \<Rightarrow> memory \<Rightarrow> memory" where
  "zeroed f = store_bytes (f * 4096) (replicate 4096 0)"

text \<open>Two words that differ in frame or index do not overlap.\<close>

lemma word_disjoint:
  assumes "(g, j) \<noteq> (f, i)" "i < 1024" "j < (1024 :: nat)"
  shows "g * 4096 + 4 * j + 4 \<le> f * 4096 + 4 * i \<or> f * 4096 + 4 * i + 4 \<le> g * 4096 + 4 * j"
  using assms by (cases "g = f") auto

lemma load_store_word:
  "i < 1024 \<Longrightarrow> j < 1024 \<Longrightarrow>
     load32 (store32 (f * 4096 + 4 * i) w m) (g * 4096 + 4 * j) =
       (if g = f \<and> j = i then w else load32 m (g * 4096 + 4 * j))"
  using word_disjoint [of g j f i] by (auto intro: load32_store32_other)

lemma load_zeroed:
  assumes "j < 1024"
  shows "load32 (zeroed f m) (g * 4096 + 4 * j) = (if g = f then 0 else load32 m (g * 4096 + 4 * j))"
proof (cases "g = f")
  case True
  have "load_bytes (zeroed f m) (f * 4096 + 4 * j) 4 = replicate 4 0"
    using assms by (intro nth_equalityI) (auto simp: load_bytes_def zeroed_def store_bytes_def)
  then show ?thesis using True by (simp add: load32_def eval_nat_numeral)
next
  case False
  then have "g * 4096 + 4 * j + 4 \<le> f * 4096 \<or> f * 4096 + 4096 \<le> g * 4096 + 4 * j"
    using assms by auto
  then show ?thesis
    using False by (auto simp: load32_def zeroed_def load_bytes_store_bytes_other)
qed

lemma zeroed_outside: "x div 4096 \<noteq> f \<Longrightarrow> zeroed f m x = m x"
  unfolding zeroed_def by (rule store_bytes_outside) (auto simp: div_eq_iff_range)

lemma store_word_outside: "x div 4096 \<noteq> f \<Longrightarrow> i < 1024 \<Longrightarrow> store32 (f * 4096 + 4 * i) w m x = m x"
  by (rule store32_outside) (auto simp: div_eq_iff_range)

lemma page_slot_eq:
  assumes "j < 1024" "j' < (1024 :: nat)"
  shows "i * 4194304 + j * 4096 = i' * 4194304 + j' * 4096 \<longleftrightarrow> i = i' \<and> j = j'"
proof
  assume e: "i * 4194304 + j * 4096 = i' * 4194304 + j' * 4096"
  have "(i * 4194304 + j * 4096) div 4194304 = i" "(i' * 4194304 + j' * 4096) div 4194304 = i'"
    using assms by (auto simp: div_eq_iff_range)
  then show "i = i' \<and> j = j'" using e by simp
qed simp

section \<open>A directory and its tables\<close>

text \<open>
  Frame \<open>D\<close> holds the directory, \<open>tbl i\<close> is the frame of the table in slot \<open>i\<close>, and \<open>E a\<close> is the
  entry of the page at the virtual address \<open>a\<close>.
\<close>

definition tables :: "memory \<Rightarrow> nat \<Rightarrow> (nat \<rightharpoonup> nat) \<Rightarrow> (nat \<Rightarrow> u32) \<Rightarrow> bool" where
  "tables m D tbl E \<longleftrightarrow>
     D < 1024 \<and> dom tbl \<subseteq> {..<1023} \<and> inj_on tbl (dom tbl) \<and> ran tbl \<subseteq> {..<1024} - {D} \<and>
     (\<forall>i < 1023. load32 m (D * 4096 + 4 * i) =
        (case tbl i of None \<Rightarrow> 0 | Some t \<Rightarrow> packed_entry t 3)) \<and>
     load32 m (D * 4096 + 4 * 1023) = packed_entry D 3 \<and>
     (\<forall>i t. tbl i = Some t \<longrightarrow> (\<forall>j < 1024. load32 m (t * 4096 + 4 * j) = E (i * 4194304 + j * 4096))) \<and>
     (\<forall>i < 1023. tbl i = None \<longrightarrow> (\<forall>j < 1024. E (i * 4194304 + j * 4096) = 0))"

lemma tablesI:
  assumes "D < 1024" "dom tbl \<subseteq> {..<1023}" "inj_on tbl (dom tbl)" "ran tbl \<subseteq> {..<1024} - {D}"
    and "\<And>i. i < 1023 \<Longrightarrow> load32 m (D * 4096 + 4 * i) =
        (case tbl i of None \<Rightarrow> 0 | Some t \<Rightarrow> packed_entry t 3)"
    and "load32 m (D * 4096 + 4 * 1023) = packed_entry D 3"
    and "\<And>i t j. tbl i = Some t \<Longrightarrow> j < 1024 \<Longrightarrow> load32 m (t * 4096 + 4 * j) = E (i * 4194304 + j * 4096)"
    and "\<And>i j. i < 1023 \<Longrightarrow> tbl i = None \<Longrightarrow> j < 1024 \<Longrightarrow> E (i * 4194304 + j * 4096) = 0"
  shows "tables m D tbl E"
  unfolding tables_def using assms by blast

lemma tablesD:
  assumes "tables m D tbl E"
  shows "D < 1024" "dom tbl \<subseteq> {..<1023}" "inj_on tbl (dom tbl)" "ran tbl \<subseteq> {..<1024} - {D}"
    and "i < 1023 \<Longrightarrow> load32 m (D * 4096 + 4 * i) =
        (case tbl i of None \<Rightarrow> 0 | Some t \<Rightarrow> packed_entry t 3)"
    and "load32 m (D * 4096 + 4 * 1023) = packed_entry D 3"
    and "tbl i = Some t \<Longrightarrow> j < 1024 \<Longrightarrow> load32 m (t * 4096 + 4 * j) = E (i * 4194304 + j * 4096)"
    and "i < 1023 \<Longrightarrow> tbl i = None \<Longrightarrow> j < 1024 \<Longrightarrow> E (i * 4194304 + j * 4096) = 0"
  using assms unfolding tables_def by blast+

lemma tables_start:
  assumes "D < 1024"
  shows "tables (store32 (D * 4096 + 4 * 1023) (packed_entry D 3) (zeroed D m)) D Map.empty (\<lambda>_. 0)"
proof -
  have "load32 (store32 (D * 4096 + 4 * 1023) (packed_entry D 3) (zeroed D m)) (D * 4096 + 4 * i) = 0"
    if "i < 1023" for i
    using that by (simp only: load_store_word load_zeroed) auto
  then show ?thesis using assms by (simp add: tables_def)
qed

lemma tables_new:
  assumes t: "tables m D tbl E" and i: "i < 1023" "tbl i = None"
    and f: "f < 1024" "f \<noteq> D" "f \<notin> ran tbl"
  shows "tables (store32 (D * 4096 + 4 * i) (packed_entry f 3) (zeroed f m)) D (tbl(i \<mapsto> f)) E"
proof -
  let ?m = "store32 (D * 4096 + 4 * i) (packed_entry f 3) (zeroed f m)"
  have ld: "load32 ?m (g * 4096 + 4 * j) =
      (if g = D \<and> j = i then packed_entry f 3 else if g = f then 0 else load32 m (g * 4096 + 4 * j))"
    if "j < 1024" for g j
    using that i by (simp add: load_store_word load_zeroed)
  have ranD: "t' \<noteq> D" "t' \<noteq> f" if "tbl k = Some t'" for k t'
    using that t f by (auto simp: tables_def ran_def)
  have fresh: "tbl k \<noteq> Some f" "Some f \<noteq> tbl k" for k
    using f(3) by (auto simp: ran_def)
  have "inj_on (tbl(i \<mapsto> f)) (insert i (dom tbl))"
    using fresh i(2) by (intro inj_on_insert [THEN iffD2] conjI inj_on_fun_updI tablesD(3) [OF t])
      (auto simp: image_iff)
  then have "inj_on (tbl(i \<mapsto> f)) (dom (tbl(i \<mapsto> f)))"
    by (simp add: insert_absorb)
  moreover have "dom (tbl(i \<mapsto> f)) \<subseteq> {..<1023}" "ran (tbl(i \<mapsto> f)) \<subseteq> {..<1024} - {D}"
    using tablesD(2,4) [OF t] f i by (auto simp: ran_map_upd)
  moreover have "load32 ?m (D * 4096 + 4 * k) =
      (case (tbl(i \<mapsto> f)) k of None \<Rightarrow> 0 | Some t \<Rightarrow> packed_entry t 3)" if "k < 1023" for k
    using that tablesD(5) [OF t that] f ld [of k D] by auto
  moreover have "load32 ?m (D * 4096 + 4 * 1023) = packed_entry D 3"
    using tablesD(6) [OF t] f i ld [of 1023 D] by auto
  moreover have "load32 ?m (t' * 4096 + 4 * j) = E (k * 4194304 + j * 4096)"
    if "(tbl(i \<mapsto> f)) k = Some t'" "j < 1024" for k t' j
    using that tablesD(7) [OF t, of k t' j] tablesD(8) [OF t i] f ld [of j t'] ranD [of k t']
    by (auto split: if_splits)
  moreover have "E (k * 4194304 + j * 4096) = 0" if "k < 1023" "(tbl(i \<mapsto> f)) k = None" "j < 1024" for k j
    using that tablesD(8) [OF t, of k j] by (auto split: if_splits)
  ultimately show ?thesis
    using tablesD(1) [OF t] by (intro tablesI)
qed

lemma tables_write:
  assumes t: "tables m D tbl E" and i: "tbl i = Some f" and j: "j < 1024"
  shows "tables (store32 (f * 4096 + 4 * j) w m) D tbl (E(i * 4194304 + j * 4096 := w))"
proof -
  let ?m = "store32 (f * 4096 + 4 * j) w m"
  let ?E = "E(i * 4194304 + j * 4096 := w)"
  have fD: "f \<noteq> D" using t i by (auto simp: tables_def ran_def)
  have dir: "load32 ?m (D * 4096 + 4 * k) = load32 m (D * 4096 + 4 * k)" if "k < 1024" for k
    using that j fD by (simp only: load_store_word) auto
  have "load32 ?m (f' * 4096 + 4 * l) = ?E (k * 4194304 + l * 4096)"
    if "tbl k = Some f'" "l < 1024" for k f' l
  proof -
    have "f' = f \<longleftrightarrow> k = i"
      using that i inj_onD [OF tablesD(3) [OF t], of k i] by auto
    then show ?thesis
      using that j tablesD(7) [OF t that] by (auto simp: load_store_word page_slot_eq)
  qed
  moreover have "?E (k * 4194304 + l * 4096) = 0" if "k < 1023" "tbl k = None" "l < 1024" for k l
    using that i j tablesD(8) [OF t that] by (auto simp: page_slot_eq)
  moreover have "load32 ?m (D * 4096 + 4 * 1023) = packed_entry D 3"
    using dir [of 1023] tablesD(6) [OF t] by simp
  moreover have "load32 ?m (D * 4096 + 4 * k) =
      (case tbl k of None \<Rightarrow> 0 | Some t \<Rightarrow> packed_entry t 3)" if "k < 1023" for k
    using that dir [of k] tablesD(5) [OF t that] by simp
  ultimately show ?thesis
    using tablesD(1-4) [OF t] by (intro tablesI)
qed

end
