(* ===== verification/Paging_Proofs.thy ===== *)
theory Paging_Proofs
  imports Paging_Tables
begin

text \<open>
  Total correctness of the page-table construction: each step of \<open>map_bootstrap\<close> and \<open>paging_init\<close>
  returns without a panic and keeps the invariant \<open>building\<close>, given enough free frames below the
  4 MiB the bootstrap directory maps.
\<close>

section \<open>The steps\<close>

definition low_free :: "'z machine_scheme \<Rightarrow> nat" where
  "low_free s = card (free_frames (frame_alloc s) \<inter> {..<1024})"

text \<open>The allocator is in the state boot leaves it in: well-formed, with no free frame below the hint.\<close>

definition alloc_ok :: "'z machine_scheme \<Rightarrow> bool" where
  "alloc_ok s \<longleftrightarrow> wf_bitmap (frame_alloc s) \<and> packed (frame_alloc s)"

text \<open>Only the frames of \<open>F\<close> and the allocator may change.\<close>

definition keeps :: "nat set \<Rightarrow> 'z machine_scheme \<Rightarrow> 'z machine_scheme \<Rightarrow> bool" where
  "keeps F s s' \<longleftrightarrow> cr3 s' = cr3 s \<and> cr0 s' = cr0 s \<and> machine.more s' = machine.more s \<and>
     (\<forall>x. x div 4096 \<notin> F \<longrightarrow> mem s' x = mem s x)"

lemma keeps_refl: "keeps F s s"
  by (simp add: keeps_def)

lemma keeps_trans: "keeps F s s' \<Longrightarrow> keeps F s' s'' \<Longrightarrow> keeps F s s''"
  by (simp add: keeps_def)

lemma alloc_frame_below:
  assumes "alloc_ok s" "k < low_free s"
  obtains f fb where "alloc_frame p s = (Inr (FrameNumber f), s\<lparr>frame_alloc := fb\<rparr>)"
    "alloc_ok (s\<lparr>frame_alloc := fb\<rparr>)" "f \<in> free_frames (frame_alloc s)" "f < 1024"
    "free_frames fb = free_frames (frame_alloc s) - {f}" "k \<le> low_free (s\<lparr>frame_alloc := fb\<rparr>)"
proof -
  have "wf_bitmap (frame_alloc s) \<and> packed (frame_alloc s)"
    using assms(1) by (simp add: alloc_ok_def)
  moreover have "k < card (free_frames (frame_alloc s) \<inter> {..<1024})"
    using assms(2) by (simp add: low_free_def)
  ultimately obtain f fb where
    "allocate_one p (frame_alloc s) = (Inr (Some \<lparr>run_start = FrameNumber f, run_len = 1\<rparr>), fb)"
    "wf_bitmap fb \<and> packed fb" "f \<in> free_frames (frame_alloc s)" "f < 1024"
    "free_frames fb = free_frames (frame_alloc s) - {f}" "k \<le> card (free_frames fb \<inter> {..<1024})"
    by (rule low_frames.take_one_below)
  then show thesis
    by (intro that [of f fb]) (simp_all add: alloc_frame_def on_frames_def sbind_def alloc_ok_def low_free_def)
qed

lemma bootstrap_frame_ptr_ok [panic_free]:
  "f < 1024 \<Longrightarrow> bootstrap_frame_ptr p (FrameNumber f) = Inr (f * 4096)"
  using unat_frame_base [of f]
  by (simp add: bootstrap_frame_ptr_def frame_base_addr_ok BOOTSTRAP_IDENTITY_LIMIT_def
      PAGE_TABLE_SPAN_def PAGE_SIZE_def ENTRY_COUNT_def)

lemma zero_frame_ok [panic_free]:
  "f < 1024 \<Longrightarrow> zero_frame p (FrameNumber f) s = (Inr (), s\<lparr>mem := zeroed f (mem s)\<rparr>)"
  by (simp add: zero_frame_def bootstrap_frame_ptr_ok on_mem_def zeroed_def PAGE_SIZE_def)

lemma entry_read_ok [panic_free]:
  "i < 1024 \<Longrightarrow> entry_read a i s = (Inr (load32 (mem s) (a + 4 * i)), s)"
  by (simp add: entry_read_def ENTRY_COUNT_def)

lemma entry_write_ok [panic_free]:
  "i < 1024 \<Longrightarrow> entry_write a i w s = (Inr (), s\<lparr>mem := store32 (a + 4 * i) w (mem s)\<rparr>)"
  by (simp add: entry_write_def ENTRY_COUNT_def on_mem_def)

section \<open>Mapping one page\<close>

definition building ::
  "nat set \<Rightarrow> nat \<Rightarrow> (nat \<rightharpoonup> nat) \<Rightarrow> (nat \<Rightarrow> u32) \<Rightarrow> 'z machine_scheme \<Rightarrow> bool" where
  "building F D tbl E s \<longleftrightarrow> tables (mem s) D tbl E \<and> alloc_ok s \<and>
     insert D (ran tbl) \<union> free_frames (frame_alloc s) = F \<and>
     insert D (ran tbl) \<inter> free_frames (frame_alloc s) = {}"

text \<open>The part of \<open>map_bootstrap\<close> that finds or makes the table of a directory slot.\<close>

definition table_for :: "profile \<Rightarrow> usize \<Rightarrow> usize \<Rightarrow> ('z machine_scheme, frame_number) st" where
  "table_for p pd index =
     sbind (entry_read pd index) (\<lambda>raw.
      if pde_is_present (PageDirectoryEntry raw) then ret (table_frame (PageDirectoryEntry raw))
      else
        sbind (alloc_frame p) (\<lambda>frame.
        sbind (zero_frame p frame) (\<lambda>_.
        sbind (lift (for_table p frame KERNEL_RW)) (\<lambda>e.
        sbind (entry_write pd index (pde_raw e)) (\<lambda>_.
        ret frame)))))"

lemma map_bootstrap_table_for:
  "map_bootstrap p pd virt phys flags =
     sbind (table_for p pd (pd_index virt)) (\<lambda>frame.
     sbind (lift (bootstrap_frame_ptr p frame)) (\<lambda>table.
     sbind (lift (pte_new p (frame_floor phys) flags)) (\<lambda>e.
     entry_write table (pt_index virt) (pte_raw e))))"
  by (simp add: map_bootstrap_def table_for_def sbind_assoc Let_def)

lemma present_packed: "pde_is_present (PageDirectoryEntry (packed_entry f 3))"
  by (simp add: pde_is_present_def pde_flags_def present_iff_bit packed_entry_present)

lemma present_zero: "\<not> pde_is_present (PageDirectoryEntry 0)"
  by (simp add: pde_is_present_def pde_flags_def present_iff_bit)

lemma table_for_spec:
  assumes b: "building F D tbl E s" and i: "i < 1023" and room: "i \<notin> dom tbl \<Longrightarrow> k < low_free s"
    and k: "i \<in> dom tbl \<Longrightarrow> k \<le> low_free s"
  shows "\<exists>f tbl' s'. table_for p (D * 4096) i s = (Inr (FrameNumber f), s') \<and>
    building F D tbl' E s' \<and> tbl' i = Some f \<and> dom tbl' = insert i (dom tbl) \<and>
    k \<le> low_free s' \<and> keeps F s s'"
proof (cases "tbl i")
  case (Some f)
  then have f: "f < 1024" using b by (auto simp: building_def tables_def ran_def)
  have "load32 (mem s) (D * 4096 + 4 * i) = packed_entry f 3"
    using tablesD(5) [of "mem s" D tbl E i] b i Some by (simp add: building_def)
  then have "table_for p (D * 4096) i s = (Inr (FrameNumber f), s)"
    using f i by (simp add: table_for_def sbind_def entry_read_ok present_packed packed_table_frame)
  then show ?thesis
    using b Some k keeps_refl by (intro exI [of _ f] exI [of _ tbl] exI [of _ s]) auto
next
  case None
  then have "k < low_free s" "alloc_ok s" using room b by (auto simp: building_def)
  then obtain f fb where f: "alloc_frame p s = (Inr (FrameNumber f), s\<lparr>frame_alloc := fb\<rparr>)"
    "alloc_ok (s\<lparr>frame_alloc := fb\<rparr>)" "f \<in> free_frames (frame_alloc s)" "f < 1024"
    "free_frames fb = free_frames (frame_alloc s) - {f}" "k \<le> low_free (s\<lparr>frame_alloc := fb\<rparr>)"
    by (metis alloc_frame_below)
  let ?m = "store32 (D * 4096 + 4 * i) (packed_entry f 3) (zeroed f (mem s))"
  let ?s = "s\<lparr>frame_alloc := fb, mem := ?m\<rparr>"
  have z: "load32 (mem s) (D * 4096 + 4 * i) = 0"
    using tablesD(5) [of "mem s" D tbl E i] b i None by (simp add: building_def)
  have run: "table_for p (D * 4096) i s = (Inr (FrameNumber f), ?s)"
    using f i z by (simp add: table_for_def sbind_def entry_read_ok present_zero zero_frame_ok
        for_table_ok entry_write_ok KERNEL_RW_bits)
  have "f \<noteq> D" "f \<notin> ran tbl" "f \<in> F" "D \<in> F" using b f(3) by (auto simp: building_def)
  then have "tables ?m D (tbl(i \<mapsto> f)) E"
    using b i None f(4) by (intro tables_new) (simp_all add: building_def)
  moreover have "keeps F s ?s"
  proof -
    have "?m x = mem s x" if "x div 4096 \<notin> F" for x
      using that \<open>f \<in> F\<close> \<open>D \<in> F\<close> i by (subst store_word_outside) (auto intro: zeroed_outside)
    then show ?thesis by (simp add: keeps_def)
  qed
  ultimately have "building F D (tbl(i \<mapsto> f)) E ?s" "k \<le> low_free ?s"
    using b f None \<open>f \<noteq> D\<close> \<open>f \<notin> ran tbl\<close>
    by (auto simp: building_def alloc_ok_def low_free_def ran_map_upd)
  then show ?thesis
    using run \<open>keeps F s ?s\<close> by (intro exI [of _ f] exI [of _ "tbl(i \<mapsto> f)"] exI [of _ ?s]) auto
qed

lemma map_bootstrap_spec:
  assumes b: "building F D tbl E s" and i: "pd_index v < 1023"
    and room: "pd_index v \<notin> dom tbl \<Longrightarrow> k < low_free s" "pd_index v \<in> dom tbl \<Longrightarrow> k \<le> low_free s"
  shows "\<exists>tbl' s'. map_bootstrap p (D * 4096) v phys fl s = (Inr (), s') \<and>
    building F D tbl' (E(pd_index v * 4194304 + pt_index v * 4096 :=
      packed_entry (frame_index (frame_floor phys)) (flag_bits fl))) s' \<and>
    dom tbl' = insert (pd_index v) (dom tbl) \<and> k \<le> low_free s' \<and> keeps F s s'"
proof -
  obtain f tbl' s1 where t: "table_for p (D * 4096) (pd_index v) s = (Inr (FrameNumber f), s1)"
    "building F D tbl' E s1" "tbl' (pd_index v) = Some f" "dom tbl' = insert (pd_index v) (dom tbl)"
    "k \<le> low_free s1" "keeps F s s1"
    using table_for_spec [OF b i room] by blast
  let ?e = "packed_entry (frame_index (frame_floor phys)) (flag_bits fl)"
  let ?s = "s1\<lparr>mem := store32 (f * 4096 + 4 * pt_index v) ?e (mem s1)\<rparr>"
  have f: "f \<in> ran tbl'" "f < 1024" using t(2,3) by (auto simp: building_def tables_def ran_def)
  have run: "map_bootstrap p (D * 4096) v phys fl s = (Inr (), ?s)"
    using t(1) f(2) frame_floor_less [of phys] pt_index_less [of v]
    by (simp add: map_bootstrap_table_for sbind_Inr bootstrap_frame_ptr_ok pte_new_ok entry_write_ok)
  have "building F D tbl' (E(pd_index v * 4194304 + pt_index v * 4096 := ?e)) ?s"
    using t(2,3) pt_index_less [of v] by (auto simp: building_def alloc_ok_def intro: tables_write)
  moreover have "keeps F s1 ?s"
  proof -
    have "f \<in> F" using f(1) t(2) by (auto simp: building_def)
    then have "mem ?s x = mem s1 x" if "x div 4096 \<notin> F" for x
      using that pt_index_less [of v] by simp (rule store_word_outside, auto)
    then show ?thesis by (simp add: keeps_def)
  qed
  moreover have "k \<le> low_free ?s" using t(5) by (simp add: low_free_def)
  ultimately show ?thesis
    using run t(4,6) keeps_trans by (intro exI [of _ tbl'] exI [of _ ?s]) blast
qed

section \<open>Mapping a list of pages\<close>

text \<open>A plan says for each page whether it is mapped, and onto what; \<open>E\<close> with a plan carried out.\<close>

definition plan_entries ::
  "(nat \<Rightarrow> (phys_addr \<times> page_flags) option) \<Rightarrow> nat set \<Rightarrow> (nat \<Rightarrow> u32) \<Rightarrow> nat \<Rightarrow> u32" where
  "plan_entries plan A E a =
     (case plan a of Some (phys, fl) \<Rightarrow>
        if a \<in> A then packed_entry (frame_index (frame_floor phys)) (flag_bits fl) else E a
      | None \<Rightarrow> E a)"

lemma plan_entries_empty: "plan_entries plan {} E = E"
  by (auto simp: plan_entries_def split: option.splits)

lemma plan_entries_skip: "plan x = None \<Longrightarrow> plan_entries plan (insert x A) E = plan_entries plan A E"
  by (auto simp: plan_entries_def split: option.splits)

lemma plan_entries_insert:
  "plan x = Some (phys, fl) \<Longrightarrow> plan_entries plan (insert x A) E =
     (plan_entries plan A E)(x := packed_entry (frame_index (frame_floor phys)) (flag_bits fl))"
  by (auto simp: plan_entries_def split: option.splits)

text \<open>Frames still needed for the tables of the two slots the kernel uses.\<close>

definition missing :: "(nat \<rightharpoonup> nat) \<Rightarrow> nat" where
  "missing tbl = card ({0, 768} - dom tbl)"

lemma missing_insert:
  assumes "i \<in> {0, 768}" "dom tbl' = insert i (dom tbl)"
  shows "i \<notin> dom tbl \<Longrightarrow> missing tbl' < missing tbl" "i \<in> dom tbl \<Longrightarrow> missing tbl' = missing tbl"
  unfolding missing_def assms(2)
  by (rule psubset_card_mono, simp, use assms(1) in blast) (simp add: insert_absorb)

lemma page_slot:
  assumes "x < 2 ^ 32" "4096 dvd x"
  shows "pd_index (VirtAddr (of_nat x)) * 4194304 + pt_index (VirtAddr (of_nat x)) * 4096 = x"
    and "pd_index (VirtAddr (of_nat x)) = x div 4194304"
proof -
  have u: "unat (of_nat x :: u32) = x" using assms by (intro unat_of_nat_u32) simp
  show "pd_index (VirtAddr (of_nat x)) = x div 4194304"
    by (simp only: pd_index_eq virt_addr.sel u)
  obtain n where n: "x = 4096 * n" using assms(2) by blast
  have "n div 1024 * 4194304 + n mod 1024 * 4096 = 4096 * n"
    using div_mult_mod_eq [of n 1024] by linarith
  then show "pd_index (VirtAddr (of_nat x)) * 4194304 + pt_index (VirtAddr (of_nat x)) * 4096 = x"
    by (simp only: pd_index_eq pt_index_eq virt_addr.sel u) (simp add: n div_mult2_eq [of _ 4096 1024, simplified])
qed

text \<open>The pages of \<open>A\<close> have been mapped by the plan, starting from the state \<open>s\<close>.\<close>

definition pages_mapped ::
  "nat set \<Rightarrow> nat \<Rightarrow> (nat \<rightharpoonup> nat) \<Rightarrow> (nat \<Rightarrow> u32) \<Rightarrow> (nat \<Rightarrow> (phys_addr \<times> page_flags) option) \<Rightarrow>
     'z machine_scheme \<Rightarrow> nat set \<Rightarrow> 'z machine_scheme \<Rightarrow> bool" where
  "pages_mapped F D tbl E plan s A s' \<longleftrightarrow>
     (\<exists>tbl'. building F D tbl' (plan_entries plan A E) s' \<and> missing tbl' \<le> low_free s' \<and>
        dom tbl' = dom tbl \<union> (\<lambda>x. x div 4194304) ` (A \<inter> dom plan) \<and> keeps F s s')"

lemma pages_mapped_step:
  assumes m: "pages_mapped F D tbl E plan s A s1"
    and x: "x < 2 ^ 32" "4096 dvd x" "x div 4194304 \<in> {0, 768}" and q: "plan x = Some (phys, fl)"
  shows "\<exists>s2. map_bootstrap p (D * 4096) (VirtAddr (of_nat x)) phys fl s1 = (Inr (), s2) \<and>
    pages_mapped F D tbl E plan s (insert x A) s2"
proof -
  let ?v = "VirtAddr (of_nat x)"
  let ?e = "packed_entry (frame_index (frame_floor phys)) (flag_bits fl)"
  obtain t1 where t1: "building F D t1 (plan_entries plan A E) s1" "missing t1 \<le> low_free s1"
    "dom t1 = dom tbl \<union> (\<lambda>x. x div 4194304) ` (A \<inter> dom plan)" "keeps F s s1"
    using m by (auto simp: pages_mapped_def)
  let ?k = "missing (t1(x div 4194304 \<mapsto> 0))"
  have pd: "pd_index ?v = x div 4194304" using page_slot(2) [OF x(1,2)] .
  have "pd_index ?v < 1023" using pd x(3) by auto
  moreover have "pd_index ?v \<notin> dom t1 \<Longrightarrow> ?k < low_free s1" "pd_index ?v \<in> dom t1 \<Longrightarrow> ?k \<le> low_free s1"
    using missing_insert [OF x(3), of "t1(x div 4194304 \<mapsto> 0)" t1] t1(2) pd by auto
  ultimately obtain t2 s2 where s2: "map_bootstrap p (D * 4096) ?v phys fl s1 = (Inr (), s2)"
    "building F D t2 ((plan_entries plan A E)(x := ?e)) s2"
    "dom t2 = insert (x div 4194304) (dom t1)" "?k \<le> low_free s2" "keeps F s1 s2"
    using map_bootstrap_spec [OF t1(1), of ?v ?k p phys fl, unfolded page_slot(1) [OF x(1,2)] ]
    unfolding pd by blast
  have "missing t2 = ?k" using s2(3) by (simp add: missing_def)
  then have "pages_mapped F D tbl E plan s (insert x A) s2"
    unfolding pages_mapped_def plan_entries_insert [of plan x phys fl, OF q]
    using s2 t1(3) q keeps_trans [OF t1(4) s2(5)] by (intro exI [of _ t2]) auto
  then show ?thesis using s2(1) by blast
qed

lemma map_pages_spec:
  assumes b: "building F D tbl E s" "missing tbl \<le> low_free s"
    and xs: "\<And>x. x \<in> set xs \<Longrightarrow> x < 2 ^ 32 \<and> 4096 dvd x \<and> x div 4194304 \<in> {0, 768}"
    and body: "\<And>x. x \<in> set xs \<Longrightarrow> body x = (case plan x of None \<Rightarrow> ret ()
      | Some (phys, fl) \<Rightarrow> map_bootstrap p (D * 4096) (VirtAddr (of_nat x)) phys fl)"
  shows "\<exists>s'. for_each body xs s = (Inr (), s') \<and> pages_mapped F D tbl E plan s (set xs) s'"
proof (rule for_each_invariant [where I = "\<lambda>pre. pages_mapped F D tbl E plan s (set pre)"])
  show "pages_mapped F D tbl E plan s (set []) s"
    using b keeps_refl by (auto simp: pages_mapped_def plan_entries_empty)
next
  fix pre x post s1
  assume eq: "xs = pre @ x # post" and m: "pages_mapped F D tbl E plan s (set pre) s1"
  have x: "x \<in> set xs" "x < 2 ^ 32" "4096 dvd x" "x div 4194304 \<in> {0, 768}" using eq xs [of x] by auto
  show "\<exists>s'. body x s1 = (Inr (), s') \<and> pages_mapped F D tbl E plan s (set (pre @ [x])) s'"
  proof (cases "plan x")
    case None
    then have "insert x (set pre) \<inter> dom plan = set pre \<inter> dom plan" by auto
    then have "pages_mapped F D tbl E plan s (set (pre @ [x])) s1"
      using m None by (simp add: pages_mapped_def plan_entries_skip)
    then show ?thesis using None by (simp add: body [OF x(1)])
  next
    case (Some q)
    then show ?thesis
      using pages_mapped_step [OF m x(2-4), of "fst q" "snd q" p] by (simp add: body [OF x(1)] split_beta)
  qed
qed

end
