(* ===== verification/Frame_Properties.thy ===== *)
theory Frame_Properties
  imports Frame_Proofs
begin

text \<open>
  Initialisation of the frame allocator from the memory map, and the properties of the allocator:
  range marking, first-fit allocation, release with double-free detection, the allocate/free round
  trip, ownership over arbitrary sequences of operations, and the exact set of free frames after
  \<open>init\<close>.
\<close>

section \<open>Initialisation\<close>

definition frame_bytes :: "nat \<Rightarrow> nat set" where
  "frame_bytes f = {f * 4096..<f * 4096 + 4096}"

definition region_bytes :: "memory_region \<Rightarrow> nat set" where
  "region_bytes r = {unat (region_base r)..<unat (region_base r) + unat (region_length r)}"

text \<open>Frames that lie wholly inside an available region.\<close>

definition usable_frames :: "memory_region \<Rightarrow> nat set" where
  "usable_frames r = (if region_is_available r then {f. f < FRAME_COUNT \<and> frame_bytes f \<subseteq> region_bytes r} else {})"

text \<open>The region ends below the 4 GiB boundary, or lies wholly above it.\<close>

definition region_below_limit :: "memory_region \<Rightarrow> bool" where
  "region_below_limit r \<longleftrightarrow>
     unat (region_base r) + unat (region_length r) < 2 ^ 32 \<or> 2 ^ 32 \<le> unat (region_base r)"

lemma frame_bytes_subset_iff: "frame_bytes f \<subseteq> {a..<b} \<longleftrightarrow> a \<le> f * 4096 \<and> f * 4096 + 4096 \<le> b"
proof
  assume "frame_bytes f \<subseteq> {a..<b}"
  moreover have "f * 4096 \<in> frame_bytes f" "f * 4096 + 4095 \<in> frame_bytes f"
    by (auto simp: frame_bytes_def)
  ultimately have "f * 4096 \<in> {a..<b}" "f * 4096 + 4095 \<in> {a..<b}" by blast+
  then show "a \<le> f * 4096 \<and> f * 4096 + 4096 \<le> b" by auto
qed (auto simp: frame_bytes_def)

lemma whole_frames_range:
  "f \<in> {div_ceil b 4096..<e div 4096} \<longleftrightarrow> b \<le> f * 4096 \<and> f * 4096 + 4096 \<le> e"
proof -
  have "f < e div 4096 \<longleftrightarrow> (f + 1) * 4096 \<le> e"
    by (simp only: less_eq_div_iff_mult_less_eq [symmetric]) auto
  then show ?thesis by (auto simp: div_ceil_le_iff)
qed

lemma mark_free_spec:
  assumes "wf_bitmap fb" "frame_index start + len \<le> FRAME_COUNT"
  obtains fb' where "mark_free p start len fb = (Inr (), fb')" "wf_bitmap fb'"
    "search_hint fb' = min (search_hint fb) (frame_index start div 32)"
    "free_frames fb' = free_frames fb \<union> {frame_index start..<frame_index start + len}"
proof -
  obtain fb1 where fb1: "set_free p start len fb = (Inr (), fb1)" "wf_bitmap fb1"
    "search_hint fb1 = search_hint fb"
    "free_frames fb1 = free_frames fb \<union> {frame_index start..<frame_index start + len}"
    using set_free_spec [OF assms] .
  have "mark_free p start len fb =
      (Inr (), fb1\<lparr>search_hint := min (search_hint fb) (frame_index start div 32)\<rparr>)"
    by (simp add: mark_free_def sbind_def fb1(1,3))
  then show thesis
    by (rule that) (use fb1 in \<open>auto simp: wf_bitmap_def\<close>)
qed

lemma usable_frames_none:
  assumes "\<not> (region_is_available r \<and> unat (region_base r) < 2 ^ 32 \<and> unat (region_length r) \<noteq> 0)"
  shows "usable_frames r = {}" "init_region p r fb = (Inr (), fb)"
proof -
  show "usable_frames r = {}"
  proof (cases "region_is_available r")
    case True
    with assms have "2 ^ 32 \<le> unat (region_base r) \<or> unat (region_length r) = 0" by auto
    then show ?thesis
      by (auto simp: usable_frames_def region_bytes_def frame_bytes_subset_iff FRAME_COUNT_eq)
  qed (simp add: usable_frames_def)
  have "\<not> region_is_available r \<or> unat (addressable_bytes r) = 0"
    using assms by (auto simp: unat_addressable_bytes)
  then show "init_region p r fb = (Inr (), fb)" by (auto simp: init_region_def)
qed

text \<open>The frames \<open>init\<close> computes for a region below the limit are the usable ones.\<close>

lemma usable_frames_range:
  assumes "region_is_available r" "unat (region_base r) + unat (region_length r) < 2 ^ 32"
  shows "usable_frames r =
    {div_ceil (unat (region_base r)) 4096..<(unat (region_base r) + unat (region_length r)) div 4096}"
proof (rule set_eqI)
  fix f
  have "f * 4096 + 4096 \<le> unat (region_base r) + unat (region_length r) \<Longrightarrow> f < FRAME_COUNT"
    using assms(2) by (simp add: FRAME_COUNT_eq)
  then show "f \<in> usable_frames r \<longleftrightarrow>
      f \<in> {div_ceil (unat (region_base r)) 4096..<(unat (region_base r) + unat (region_length r)) div 4096}"
    unfolding whole_frames_range using assms(1)
    by (auto simp: usable_frames_def region_bytes_def frame_bytes_subset_iff)
qed

lemma init_region_spec:
  assumes "wf_bitmap fb" "search_hint fb = 0" "region_is_available r \<longrightarrow> region_below_limit r"
  shows "\<exists>fb'. init_region p r fb = (Inr (), fb') \<and> wf_bitmap fb' \<and> search_hint fb' = 0 \<and>
    free_frames fb' = free_frames fb \<union> usable_frames r"
proof (cases "region_is_available r \<and> unat (region_base r) < 2 ^ 32 \<and> unat (region_length r) \<noteq> 0")
  case False
  then show ?thesis using usable_frames_none assms by simp
next
  case True
  let ?b = "unat (region_base r)" and ?l = "unat (region_length r)"
  let ?start = "div_ceil ?b 4096" and ?stop = "(?b + ?l) div 4096"
  have lim: "?b + ?l < 2 ^ 32" using True assms(3) by (auto simp: region_below_limit_def)
  have bytes: "unat (addressable_bytes r) = ?l" using True lim by (simp add: unat_addressable_bytes)
  have usable: "usable_frames r = {?start..<?stop}" using usable_frames_range True lim by blast
  have init: "init_region p r fb =
      (case non_zero (?stop - ?start) of Some len \<Rightarrow> mark_free p (FrameNumber ?start) len | None \<Rightarrow> ret ()) fb"
    using True lim bytes
    by (simp add: init_region_def Let_def usize_add_ok FRAME_SIZE_def usize_saturating_sub_def)
  show ?thesis
  proof (cases "?stop \<le> ?start")
    case True
    then have "init_region p r fb = (Inr (), fb)" unfolding init by (simp add: non_zero_def)
    then show ?thesis using assms usable True by simp
  next
    case False
    have "?stop \<le> FRAME_COUNT"
      using lim by (simp add: FRAME_COUNT_eq div_le_mono [of _ "1048576 * 4096" 4096, simplified])
    with False have "frame_index (FrameNumber ?start) + (?stop - ?start) \<le> FRAME_COUNT" by simp
    from mark_free_spec [OF assms(1) this, of p] obtain fb' where
      "mark_free p (FrameNumber ?start) (?stop - ?start) fb = (Inr (), fb')" "wf_bitmap fb'"
      "search_hint fb' = 0" "free_frames fb' = free_frames fb \<union> {?start..<?start + (?stop - ?start)}"
      using assms(2) by auto
    then show ?thesis unfolding init usable using False by (simp add: non_zero_def)
  qed
qed

text \<open>Frames that share a byte with \<open>[a, b)\<close>.\<close>

definition touched_frames :: "nat \<Rightarrow> nat \<Rightarrow> nat set" where
  "touched_frames a b = {f. frame_bytes f \<inter> {a..<b} \<noteq> {}}"

lemma touched_frames_eq:
  assumes "a < b"
  shows "touched_frames a b = {a div 4096..<div_ceil b 4096}"
proof (rule set_eqI)
  fix f
  have "f < div_ceil b 4096 \<longleftrightarrow> f * 4096 < b"
    using div_ceil_le_iff [of 4096 b f] by (simp add: not_le [symmetric])
  moreover have "a div 4096 \<le> f \<longleftrightarrow> a < f * 4096 + 4096"
    using div_less_iff_less_mult [of 4096 a "f + 1"] by (simp add: less_Suc_eq_le add.commute)
  moreover have "frame_bytes f \<inter> {a..<b} \<noteq> {} \<longleftrightarrow> f * 4096 < b \<and> a < f * 4096 + 4096"
  proof
    assume "f * 4096 < b \<and> a < f * 4096 + 4096"
    then have "max a (f * 4096) \<in> frame_bytes f \<inter> {a..<b}"
      using assms by (auto simp: frame_bytes_def)
    then show "frame_bytes f \<inter> {a..<b} \<noteq> {}" by blast
  qed (auto simp: frame_bytes_def)
  ultimately show "f \<in> touched_frames a b \<longleftrightarrow> f \<in> {a div 4096..<div_ceil b 4096}"
    by (auto simp: touched_frames_def)
qed

lemma reserve_bytes_spec:
  assumes "wf_bitmap fb" "0 < len" "addr + len < 2 ^ 32"
  obtains fb' where "reserve_bytes p addr len fb = (Inr (), fb')" "wf_bitmap fb'"
    "search_hint fb' = search_hint fb" "free_frames fb' = free_frames fb - touched_frames addr (addr + len)"
proof -
  let ?s = "addr div 4096" and ?e = "div_ceil (addr + len) 4096"
  have s: "frame_index (frame_floor (PhysAddr (of_nat addr))) = ?s"
    and e: "frame_index (frame_ceil (PhysAddr (of_nat (addr + len)))) = ?e"
    using assms(3) by (simp_all only: frame_floor_index frame_ceil_index phys_addr.sel) (simp_all add: unat_of_nat_u32 del: of_nat_add)
  have "?e \<le> FRAME_COUNT" using assms(3) by (simp add: div_ceil_le_iff FRAME_COUNT_eq)
  moreover have se: "?s \<le> ?e"
    using touched_frames_eq [of addr "addr + len"] assms(2)
      div_le_mono [of addr "addr + len" 4096] by (simp add: div_ceil_def)
  ultimately have "frame_index (frame_floor (PhysAddr (of_nat addr))) + (?e - ?s) \<le> FRAME_COUNT"
    using s by simp
  from set_occupied_spec [OF assms(1) this, of p] obtain fb' where fb':
    "set_occupied p (frame_floor (PhysAddr (of_nat addr))) (?e - ?s) fb = (Inr (), fb')" "wf_bitmap fb'"
    "search_hint fb' = search_hint fb" "free_frames fb' = free_frames fb - {?s..<?s + (?e - ?s)}"
    unfolding s .
  have "reserve_bytes p addr len fb = (Inr (), fb')"
    using assms(3) fb'(1) s e se
    by (simp add: reserve_bytes_def Let_def usize_add_ok usize_sub_ok del: of_nat_add frame_floor_index frame_ceil_index)
  then show thesis
    by (rule that) (use fb' assms(2) se in \<open>auto simp: touched_frames_eq\<close>)
qed

lemma init_reserve_spec:
  assumes "wf_bitmap fb" "layout_ok L"
  obtains fb' where "init_reserve p L fb = (Inr (), fb')" "wf_bitmap fb'" "search_hint fb' = search_hint fb"
    "free_frames fb' = free_frames fb - {0} - touched_frames (kernel_phys_start L) (kernel_phys_end L)"
proof -
  have k: "0 < kernel_phys_end L - kernel_phys_start L"
    "kernel_phys_start L + (kernel_phys_end L - kernel_phys_start L) < 2 ^ 32"
    "kernel_phys_start L \<le> kernel_phys_end L"
    using assms(2) by (auto simp: layout_ok_def KERNEL_VIRTUAL_BASE_def)
  obtain fb1 where fb1: "reserve_bytes p 0 4096 fb = (Inr (), fb1)" "wf_bitmap fb1"
    "search_hint fb1 = search_hint fb" "free_frames fb1 = free_frames fb - touched_frames 0 4096"
    using reserve_bytes_spec [OF assms(1), of 4096 0 p] by auto
  obtain fb2 where fb2:
    "reserve_bytes p (kernel_phys_start L) (kernel_phys_end L - kernel_phys_start L) fb1 = (Inr (), fb2)"
    "wf_bitmap fb2" "search_hint fb2 = search_hint fb1"
    "free_frames fb2 = free_frames fb1 - touched_frames (kernel_phys_start L) (kernel_phys_end L)"
    using reserve_bytes_spec [OF fb1(2) k(1,2), of p] k(3) by auto
  have "touched_frames 0 4096 = {0}"
    by (simp add: touched_frames_eq div_ceil_def atLeast0_lessThan_Suc)
  moreover have "init_reserve p L fb = (Inr (), fb2)"
    using k(3) by (simp add: init_reserve_def Let_def FRAME_SIZE_def sbind_def fb1(1) fb2(1) layout_addr_defs usize_sub_ok)
  ultimately show thesis
    using fb1 fb2 by (intro that [of fb2]) auto
qed

lemma init_regions_spec:
  assumes "wf_bitmap fb" "search_hint fb = 0"
    and "\<forall>r \<in> set rs. region_is_available r \<longrightarrow> region_below_limit r"
  shows "\<exists>fb'. for_each (init_region p) rs fb = (Inr (), fb') \<and> wf_bitmap fb' \<and> search_hint fb' = 0 \<and>
    free_frames fb' = free_frames fb \<union> (\<Union>r \<in> set rs. usable_frames r)"
proof -
  have "\<exists>fb'. for_each (init_region p) rs fb = (Inr (), fb') \<and> (wf_bitmap fb' \<and> search_hint fb' = 0 \<and>
      free_frames fb' = free_frames fb \<union> (\<Union>r \<in> set rs. usable_frames r))"
  proof (rule for_each_invariant [where I = "\<lambda>pre fb'. wf_bitmap fb' \<and> search_hint fb' = 0 \<and>
        free_frames fb' = free_frames fb \<union> (\<Union>r \<in> set pre. usable_frames r)"])
    fix pre r post s
    assume "rs = pre @ r # post" and I: "wf_bitmap s \<and> search_hint s = 0 \<and>
        free_frames s = free_frames fb \<union> (\<Union>r \<in> set pre. usable_frames r)"
    then have "region_is_available r \<longrightarrow> region_below_limit r" using assms(3) by simp
    with I init_region_spec [of s r p] show "\<exists>s'. init_region p r s = (Inr (), s') \<and>
        wf_bitmap s' \<and> search_hint s' = 0 \<and>
        free_frames s' = free_frames fb \<union> (\<Union>r \<in> set (pre @ [r]). usable_frames r)"
      by auto
  qed (use assms in simp)
  then show ?thesis by simp
qed

lemma wf_frame_bitmap_new [simp]: "wf_bitmap frame_bitmap_new"
  by (simp add: wf_bitmap_def frame_bitmap_new_def)

lemma search_hint_new [simp]: "search_hint frame_bitmap_new = 0"
  by (simp add: frame_bitmap_new_def)

lemma free_frames_new [simp]: "free_frames frame_bitmap_new = {}"
  by (auto simp: free_frames_def frame_free_def frame_bitmap_new_def word_index_less_iff [symmetric])

text \<open>The free frames \<open>init\<close> leaves for given regions.\<close>

definition boot_frames :: "layout \<Rightarrow> memory_region list \<Rightarrow> nat set" where
  "boot_frames L rs = (\<Union>r \<in> set rs. usable_frames r) - {0}
     - touched_frames (kernel_phys_start L) (kernel_phys_end L)"

lemma frame_init_spec:
  assumes "\<forall>ep \<in> set eps. entry_ok ep" "length (encode_map eps @ tail) < 2 ^ 32" "length tail < 24"
    and "\<forall>r \<in> set (map entry_region eps). region_is_available r \<longrightarrow> region_below_limit r"
    and "layout_ok L"
  obtains fb' where
    "frame_init p L \<lparr>mm_buf = encode_map eps @ tail, mm_offset = 0\<rparr> frame_bitmap_new = Some (Inr (), fb')"
    "wf_bitmap fb'" "search_hint fb' = 0" "free_frames fb' = boot_frames L (map entry_region eps)"
proof -
  have walk: "for_regions p (init_region p) \<lparr>mm_buf = encode_map eps @ tail, mm_offset = 0\<rparr> frame_bitmap_new
      = Some (for_each (init_region p) (map entry_region eps) frame_bitmap_new)"
    using for_regions_encoded_from [of eps "[]" tail] assms by simp
  obtain fb1 where fb1: "for_each (init_region p) (map entry_region eps) frame_bitmap_new = (Inr (), fb1)"
    "wf_bitmap fb1" "search_hint fb1 = 0" "free_frames fb1 = (\<Union>r \<in> set (map entry_region eps). usable_frames r)"
    using init_regions_spec [of frame_bitmap_new "map entry_region eps" p] assms(4)
    by auto
  obtain fb2 where fb2: "init_reserve p L fb1 = (Inr (), fb2)" "wf_bitmap fb2" "search_hint fb2 = 0"
    "free_frames fb2 = boot_frames L (map entry_region eps)"
    using init_reserve_spec [OF fb1(2) assms(5), of p] fb1(3,4) unfolding boot_frames_def by metis
  show thesis
    using fb2 by (intro that [of fb2]) (simp_all add: frame_init_def walk fb1(1))
qed

text \<open>A small state for examples: frames 4 to 11 are free.\<close>

definition sample_bitmap :: frame_bitmap where
  "sample_bitmap = \<lparr>bitmap = (replicate WORD_COUNT 0)[0 := 0xFF0], search_hint = 0\<rparr>"

lemma wf_sample: "wf_bitmap sample_bitmap"
  by (simp add: wf_bitmap_def sample_bitmap_def)

lemma sample_run: "run_at sample_bitmap 4 3"
proof -
  have "frame_free sample_bitmap 4" "frame_free sample_bitmap 5" "frame_free sample_bitmap 6"
    by (simp_all add: sample_bitmap_def frame_free_def FRAME_COUNT_eq WORD_COUNT_eq)
  moreover have "4 \<le> f \<and> f < 4 + 3 \<longleftrightarrow> f = 4 \<or> f = 5 \<or> f = 6" for f :: nat by auto
  ultimately show ?thesis by (auto simp: run_at_def)
qed

lemma sample_allocate: "\<exists>run fb'. allocate p 3 sample_bitmap = (Inr (Some run), fb')"
  using frames.alloc_some [OF wf_sample, of 3 4 p] sample_run by (auto simp: run_at_iff_subset)

section \<open>The shape of the state\<close>

text \<open>Writing words changes neither the number of words nor the hint.\<close>

abbreviation shape :: "frame_bitmap \<Rightarrow> nat \<times> nat" where
  "shape fb \<equiv> (length (bitmap fb), search_hint fb)"

lemma write_words_shape:
  "shape (snd (sbind (lift items) (for_each (\<lambda>(i, m). update_word (g m) i)) fb)) = shape fb"
proof -
  have "shape (snd (update_word h i fb)) = shape fb" for h i fb
    unfolding update_word_def by (rule sbind_keeps) simp_all
  then show ?thesis by (intro sbind_keeps [where v = shape] for_each_keeps [where v = shape]) (auto split: prod.splits)
qed

lemma set_shape:
  "shape (snd (set_free p start len fb)) = shape fb" "shape (snd (set_occupied p start len fb)) = shape fb"
  unfolding set_free_def set_occupied_def by (rule write_words_shape)+

lemma set_wf:
  "wf_bitmap fb \<Longrightarrow> wf_bitmap (snd (set_free p start len fb))"
  "wf_bitmap fb \<Longrightarrow> wf_bitmap (snd (set_occupied p start len fb))"
  using set_shape [of p start len fb] by (simp_all add: wf_bitmap_def)

lemma wf_bitmap_hint: "wf_bitmap fb \<Longrightarrow> wf_bitmap (fb\<lparr>search_hint := min (search_hint fb) h\<rparr>)"
  by (auto simp: wf_bitmap_def min_def)

lemmas wf_sbind = sbind_invariant [where I = wf_bitmap]

lemma mark_free_wf: "wf_bitmap fb \<Longrightarrow> wf_bitmap (snd (mark_free p start len fb))"
  unfolding mark_free_def by (rule wf_sbind) (simp_all only: set_wf wf_bitmap_hint st_simps snd_conv)

lemma reserve_bytes_wf: "wf_bitmap fb \<Longrightarrow> wf_bitmap (snd (reserve_bytes p addr n fb))"
  unfolding reserve_bytes_def Let_def
  by (rule wf_sbind, simp only: st_simps snd_conv, rule wf_sbind)
    (simp_all only: set_wf st_simps snd_conv)

lemma free_wf: "wf_bitmap fb \<Longrightarrow> wf_bitmap (snd (free p run fb))"
  unfolding free_def Let_def
proof (rule wf_sbind)
  fix dup fb assume "wf_bitmap fb"
  then have "wf_bitmap (snd (sbind (set_free p start len) (\<lambda>_. update (\<lambda>fb. fb\<lparr>search_hint := min (search_hint fb) h\<rparr>)) fb))"
    for start len h
    by (intro wf_sbind) (simp_all only: set_wf wf_bitmap_hint st_simps snd_conv)
  with \<open>wf_bitmap fb\<close> show "wf_bitmap (snd ((if dup then throw Double_Free else
        sbind (set_free p (FrameNumber (frame_index (run_start run))) (run_len run)) (\<lambda>_.
        update (\<lambda>fb. fb\<lparr>search_hint := min (search_hint fb) (frame_index (run_start run) div WORD_BITS)\<rparr>))) fb))"
    by (cases dup) simp_all
qed simp

lemma allocate_wf:
  assumes "wf_bitmap fb" "0 < count"
  shows "wf_bitmap (snd (allocate p count fb))"
  using assms by (cases rule: allocate_cases [where p = p]) (simp_all add: assms)

lemma init_region_wf:
  assumes "wf_bitmap fb"
  shows "wf_bitmap (snd (init_region p r fb))"
proof -
  have "wf_bitmap (snd (sbind (lift x) (\<lambda>top. case f top of Some len \<Rightarrow> mark_free p start len | None \<Rightarrow> ret ()) fb))"
    for x start and f :: "nat \<Rightarrow> nat option"
    using assms by (intro wf_sbind) (simp_all add: mark_free_wf split: option.split)
  with assms show ?thesis unfolding init_region_def Let_def by simp
qed

lemma init_reserve_wf: "wf_bitmap fb \<Longrightarrow> wf_bitmap (snd (init_reserve p L fb))"
  unfolding init_reserve_def Let_def
  by (rule wf_sbind, erule reserve_bytes_wf, rule wf_sbind) (simp_all add: reserve_bytes_wf)

lemma frame_init_wf:
  assumes "wf_bitmap fb" "frame_init p L mm fb = Some (r, fb')"
  shows "wf_bitmap fb'"
proof -
  obtain r1 fb1 where fb1: "for_regions p (init_region p) mm fb = Some (r1, fb1)"
    and fb': "(r, fb') = (case r1 of Inl e \<Rightarrow> (Inl e, fb1) | Inr _ \<Rightarrow> init_reserve p L fb1)"
    using assms(2) by (auto simp: frame_init_def)
  have "wf_bitmap fb1"
    using for_regions_invariant [OF fb1, of wf_bitmap] assms(1) init_region_wf by blast
  then show ?thesis
    using fb' init_reserve_wf [of fb1 p L] by (auto split: sum.splits dest: arg_cong [of _ _ snd])
qed

section \<open>Properties\<close>

text \<open>
  C27: publishing a range of frames.  \<open>mark_free\<close> over a range inside the bitmap never panics, adds
  exactly the range to the free frames and moves the hint down to it; a non-empty range that
  reaches past the last frame panics on the bitmap index.
\<close>

theorem mark_free_correct:
  assumes "wf_bitmap fb" "0 < len"
  shows "if frame_index start + len \<le> FRAME_COUNT
    then \<exists>fb'. mark_free p start len fb = (Inr (), fb') \<and> wf_bitmap fb' \<and>
      free_frames fb' = free_frames fb \<union> {frame_index start..<frame_index start + len} \<and>
      search_hint fb' = min (search_hint fb) (frame_index start div 32)
    else \<exists>i fb'. mark_free p start len fb = (Inl (Index_Out_Of_Bounds i WORD_COUNT), fb')"
proof (cases "frame_index start + len \<le> FRAME_COUNT")
  case True
  then show ?thesis using mark_free_spec [OF assms(1) True, of p] by (simp only: if_True) metis
next
  case False
  then have "FRAME_COUNT < frame_index start + len" by simp
  from set_free_panic [OF assms(1) this assms(2), of p] False show ?thesis
    by (auto simp: mark_free_def sbind_def)
qed

theorem mark_free_correct_witness:
  "\<exists>fb'. mark_free Debug (FrameNumber 5) 40 frame_bitmap_new = (Inr (), fb') \<and>
     free_frames fb' = {5..<45}"
  using mark_free_correct [of frame_bitmap_new 40 "FrameNumber 5" Debug]
  by (auto simp: FRAME_COUNT_eq)

text \<open>
  C2: \<open>allocate\<close> is a complete first-fit search.  On a well-formed bitmap it never panics.  It
  returns nothing, and changes nothing, exactly when no \<open>count\<close> contiguous free frames exist
  anywhere.  Otherwise it returns a run of \<open>count\<close> frames that were all free, takes exactly those
  out of the free set, and the run is the first one at or above the hint, or the first of all where
  there is none above the hint.
\<close>

theorem allocate_correct:
  assumes "wf_bitmap fb" "0 < count"
  shows "(\<forall>s. \<not> run_at fb s count) \<and> allocate p count fb = (Inr None, fb) \<or>
    (\<exists>s fb'. allocate p count fb = (Inr (Some \<lparr>run_start = FrameNumber s, run_len = count\<rparr>), fb') \<and>
       wf_bitmap fb' \<and> run_at fb s count \<and> s + count \<le> FRAME_COUNT \<and>
       free_frames fb' = free_frames fb - {s..<s + count} \<and>
       (first_run fb (search_hint fb * 32) count (Some s) \<or>
        (\<forall>t \<ge> search_hint fb * 32. \<not> run_at fb t count) \<and> first_run fb 0 count (Some s)))"
  using assms
proof (cases rule: allocate_cases [where p = p])
  case none
  then show ?thesis by blast
next
  case (some s fb')
  then have "s + count \<le> FRAME_COUNT" using assms(2) by (intro run_at_bound)
  moreover have "first_run fb (search_hint fb * 32) count None \<longleftrightarrow>
      (\<forall>t \<ge> search_hint fb * 32. \<not> run_at fb t count)"
    by (simp add: first_run_def)
  ultimately show ?thesis using some by blast
qed

theorem allocate_correct_witness:
  "wf_bitmap sample_bitmap \<and> run_at sample_bitmap 4 3 \<and>
   (\<exists>s fb'. allocate Debug 3 sample_bitmap =
      (Inr (Some \<lparr>run_start = FrameNumber s, run_len = 3\<rparr>), fb'))"
  using wf_sample sample_run allocate_correct [OF wf_sample, of 3 Debug] by auto

text \<open>
  C10: \<open>free\<close> detects a double free before it touches the bitmap: if any frame of the run is free it
  panics and leaves the allocator as it was.  Otherwise it returns exactly the frames of the run to
  the free set, and never raises the hint.
\<close>

theorem free_correct:
  assumes "wf_bitmap fb" "frame_index (run_start r) + run_len r \<le> FRAME_COUNT"
  shows "if run_frames r \<inter> free_frames fb \<noteq> {} then free p r fb = (Inl Double_Free, fb)
    else \<exists>fb'. free p r fb = (Inr (), fb') \<and> wf_bitmap fb' \<and>
      free_frames fb' = free_frames fb \<union> run_frames r \<and> search_hint fb' \<le> search_hint fb"
proof (cases "run_frames r \<inter> free_frames fb = {}")
  case True
  from free_owned [OF assms True, of p] True show ?thesis by (metis min.cobounded1)
next
  case False
  then show ?thesis using free_double [OF assms] by simp
qed

theorem free_correct_witness:
  "\<exists>fb'. free Debug \<lparr>run_start = FrameNumber 7, run_len = 2\<rparr> frame_bitmap_new = (Inr (), fb') \<and>
     free_frames fb' = {7..<9}"
  using free_correct [of frame_bitmap_new "\<lparr>run_start = FrameNumber 7, run_len = 2\<rparr>" Debug]
  by (auto simp: FRAME_COUNT_eq run_frames_def)

text \<open>
  C26: allocating a run and freeing it again restores the bitmap word for word, in every
  well-formed state, and leaves the hint at the word the run starts in.
\<close>

theorem allocate_free_roundtrip:
  assumes "wf_bitmap fb" "0 < count" "allocate p count fb = (Inr (Some run), fb')"
  shows "\<exists>fb''. free p run fb' = (Inr (), fb'') \<and> bitmap fb'' = bitmap fb \<and>
    search_hint fb'' = frame_index (run_start run) div 32"
  using assms(1,2)
proof (cases rule: allocate_cases [where p = p])
  case none
  then show ?thesis using assms(3) by simp
next
  case (some s fb1)
  then have run: "run = \<lparr>run_start = FrameNumber s, run_len = count\<rparr>" and fb1: "fb1 = fb'"
    using assms(3) by simp_all
  have bound: "frame_index (run_start run) + run_len run \<le> FRAME_COUNT"
    using run_at_bound [OF some(2) assms(2)] run by simp
  have frames: "run_frames run = {s..<s + count}" by (simp add: run run_frames_def)
  then have "run_frames run \<inter> free_frames fb' = {}" using some(4) fb1 by auto
  from free_owned [OF some(3) [unfolded fb1] bound this, of p] obtain fb'' where
    f: "free p run fb' = (Inr (), fb'')" "wf_bitmap fb''" "free_frames fb'' = free_frames fb' \<union> run_frames run"
    "search_hint fb'' = min (search_hint fb') (frame_index (run_start run) div 32)" .
  have "free_frames fb'' = free_frames fb"
    using f(3) some(2,4) fb1 frames by (auto simp: run_at_iff_subset)
  then have "bitmap fb'' = bitmap fb"
    using f(2) assms(1) by (intro bitmap_eqI) (auto simp: wf_bitmap_def)
  moreover have "s div 32 \<le> (s + count) div 32" by (simp add: div_le_mono)
  ultimately show ?thesis
    using f some(5) fb1 run by simp
qed

theorem allocate_free_roundtrip_witness:
  "\<exists>run fb' fb''. allocate Debug 3 sample_bitmap = (Inr (Some run), fb') \<and>
     free Debug run fb' = (Inr (), fb'') \<and> bitmap fb'' = bitmap sample_bitmap"
proof -
  obtain run fb' where a: "allocate Debug 3 sample_bitmap = (Inr (Some run), fb')"
    using sample_allocate by blast
  show ?thesis using a allocate_free_roundtrip [OF wf_sample _ a] by auto
qed

text \<open>
  C3: ownership over any history.  Start with no run owned and perform any sequence of allocations
  of any sizes and releases of owned runs.  Then the owned runs never overlap each other or a free
  frame, free and owned frames together are exactly the frames that were free at the start, no
  further allocation panics, and no release of an owned run panics.
\<close>

theorem owners_never_overlap:
  assumes "wf_bitmap fb0" "owner_steps (allocate p) (free p) (fb0, []) (fb, rs)"
  shows "wf_bitmap fb \<and> disjoint_runs rs \<and> free_frames fb \<inter> owned_frames rs = {} \<and>
    free_frames fb \<union> owned_frames rs = free_frames fb0 \<and>
    (\<forall>n > 0. \<exists>x fb'. allocate p n fb = (Inr x, fb')) \<and>
    (\<forall>r \<in> set rs. \<exists>fb'. free p r fb = (Inr (), fb'))"
proof -
  have inv: "frames.owner_inv (free_frames fb0) (fb, rs)"
    using frames.owner_steps_inv [OF assms(2,1)] .
  then have wf: "wf_bitmap fb" by (simp add: frames.owner_inv_def)
  have "\<exists>x fb'. allocate p n fb = (Inr x, fb')" if "0 < n" for n
    using frames.alloc_cases [OF wf that, of p] by blast
  moreover have "\<exists>fb'. free p r fb = (Inr (), fb')" if "r \<in> set rs" for r
    using frames.owned_release [OF inv free_frames_less that] by blast
  ultimately show ?thesis using inv by (auto simp: frames.owner_inv_def)
qed

theorem owners_never_overlap_witness:
  "\<exists>run fb. owner_steps (allocate Debug) (free Debug) (sample_bitmap, []) (fb, [run]) \<and>
     free_frames fb \<union> run_frames run = free_frames sample_bitmap \<and>
     (\<exists>fb'. free Debug run fb = (Inr (), fb'))"
proof -
  obtain run fb where a: "allocate Debug 3 sample_bitmap = (Inr (Some run), fb)"
    using sample_allocate by blast
  have s: "owner_steps (allocate Debug) (free Debug) (sample_bitmap, []) (fb, [run])"
    using owner_step.take [of 3 "allocate Debug" sample_bitmap run fb "free Debug" "[]"] a by auto
  show ?thesis using s owners_never_overlap [OF wf_sample s] by auto
qed

text \<open>
  C5: what \<open>init\<close> publishes.  Given a well-formed memory map whose available regions end below the
  4 GiB boundary (or start above it), and a linked kernel image, initialising the all-occupied
  allocator returns without panic.  A frame is free afterwards exactly if it lies wholly inside an
  available region, is not frame 0, and shares no byte with the kernel image.
\<close>

theorem frame_init_correct:
  assumes "\<forall>ep \<in> set eps. entry_ok ep" "length (encode_map eps @ tail) < 2 ^ 32" "length tail < 24"
    and "\<forall>ep \<in> set eps. region_is_available (entry_region ep) \<longrightarrow> region_below_limit (entry_region ep)"
    and "layout_ok L"
  shows "\<exists>fb. frame_init p L \<lparr>mm_buf = encode_map eps @ tail, mm_offset = 0\<rparr> frame_bitmap_new
      = Some (Inr (), fb) \<and> wf_bitmap fb \<and>
    (\<forall>f. f \<in> free_frames fb \<longleftrightarrow> f < FRAME_COUNT \<and> f \<noteq> 0 \<and>
       frame_bytes f \<inter> {kernel_phys_start L..<kernel_phys_end L} = {} \<and>
       (\<exists>ep \<in> set eps. region_is_available (entry_region ep) \<and>
          frame_bytes f \<subseteq> region_bytes (entry_region ep)))"
proof -
  have r: "\<forall>r \<in> set (map entry_region eps). region_is_available r \<longrightarrow> region_below_limit r"
    using assms(4) by auto
  from frame_init_spec [OF assms(1-3) r assms(5), of p] obtain fb where
    "frame_init p L \<lparr>mm_buf = encode_map eps @ tail, mm_offset = 0\<rparr> frame_bitmap_new = Some (Inr (), fb)"
    "wf_bitmap fb" and free: "free_frames fb = boot_frames L (map entry_region eps)" .
  moreover have "f \<in> boot_frames L (map entry_region eps) \<longleftrightarrow> f < FRAME_COUNT \<and> f \<noteq> 0 \<and>
       frame_bytes f \<inter> {kernel_phys_start L..<kernel_phys_end L} = {} \<and>
       (\<exists>ep \<in> set eps. region_is_available (entry_region ep) \<and>
          frame_bytes f \<subseteq> region_bytes (entry_region ep))" for f
    by (auto simp: boot_frames_def usable_frames_def touched_frames_def split: if_splits)
  ultimately show ?thesis by (metis (no_types, lifting))
qed

definition sample_map :: "padded_entry list" where
  "sample_map =
     [(\<lparr>entry_size = 20, entry_base_addr = 0, entry_length = 0x9FC00, entry_kind = 1\<rparr>, []),
      (\<lparr>entry_size = 20, entry_base_addr = 0xF0000, entry_length = 0x10000, entry_kind = 2\<rparr>, []),
      (\<lparr>entry_size = 20, entry_base_addr = 0x100000, entry_length = 0x7EE0000, entry_kind = 1\<rparr>, [])]"

lemma sample_map_ok:
  "\<forall>ep \<in> set sample_map. entry_ok ep"
  "length (encode_map sample_map) = 72"
  "\<forall>ep \<in> set sample_map. region_is_available (entry_region ep) \<longrightarrow> region_below_limit (entry_region ep)"
  by (simp_all add: sample_map_def entry_ok_def length_encode_entry region_below_limit_def entry_region_def)

theorem frame_init_correct_witness:
  "\<exists>fb. frame_init Debug sample_layout \<lparr>mm_buf = encode_map sample_map @ [], mm_offset = 0\<rparr>
      frame_bitmap_new = Some (Inr (), fb) \<and> wf_bitmap fb \<and> 0 \<notin> free_frames fb"
  using frame_init_correct [OF sample_map_ok(1) _ _ sample_map_ok(3) sample_layout_ok, of "[]" Debug]
  by (auto simp: sample_map_ok(2))

text \<open>
  C33: an available region that starts below 4 GiB and reaches the 4 GiB boundary is not published,
  although \<open>addressable_bytes\<close> clamps it to the addressable part: \<open>base + bytes\<close> is \<open>2 ^ 32\<close> and
  overflows \<open>usize\<close>.  With overflow checks \<open>init\<close> panics on it; without them, or when the region
  starts at address 0 (where the byte count itself is truncated to 0), the region is skipped.
\<close>

theorem init_region_at_limit:
  assumes "region_is_available r" "unat (region_base r) < 2 ^ 32"
    and "2 ^ 32 \<le> unat (region_base r) + unat (region_length r)"
  shows "init_region p r fb =
    (if p = Debug \<and> region_base r \<noteq> 0 then (Inl Arith_Overflow, fb) else (Inr (), fb))"
proof -
  have bytes: "unat (addressable_bytes r) = 2 ^ 32 - unat (region_base r)"
    using assms(2,3) by (simp add: unat_addressable_bytes)
  show ?thesis
  proof (cases "region_base r = 0")
    case True
    then show ?thesis using bytes by (simp add: init_region_def)
  next
    case False
    then have "0 < unat (region_base r)" by (simp add: unat_gt_0)
    then have m: "unat (addressable_bytes r) mod 2 ^ 32 = 2 ^ 32 - unat (region_base r)"
      using assms(2) by (simp add: bytes)
    then have "usize_add p (unat (region_base r)) (2 ^ 32 - unat (region_base r)) = overflow p 0"
      using assms(2) by (simp add: usize_add_def)
    then show ?thesis
      using assms False m
      by (cases p) (simp_all add: init_region_def Let_def overflow_def non_zero_def usize_saturating_sub_def)
  qed
qed

theorem init_region_at_limit_witness:
  "init_region Debug \<lparr>region_base = 0xC0000000, region_length = 0x40000000, region_kind = Available\<rparr>
     frame_bitmap_new = (Inl Arith_Overflow, frame_bitmap_new)"
  by (subst init_region_at_limit) (simp_all add: region_is_available_def)

text \<open>
  C17: the allocator's state stays well formed whatever happens.  Every operation, with any arguments
  and in both profiles, leaves a bitmap of \<open>WORD_COUNT\<close> words and a search hint inside it, also where
  it panics half way; so does initialisation from any memory map, however corrupt, if it returns.
\<close>

theorem frame_operations_typed:
  assumes "wf_bitmap fb"
  shows "wf_bitmap (snd (mark_free p start len fb)) \<and> wf_bitmap (snd (reserve_bytes p addr n fb)) \<and>
    (0 < count \<longrightarrow> wf_bitmap (snd (allocate p count fb))) \<and> wf_bitmap (snd (free p run fb)) \<and>
    (frame_init p L mm fb = Some (r, fb') \<longrightarrow> wf_bitmap fb')"
  using mark_free_wf [OF assms] reserve_bytes_wf [OF assms] allocate_wf [OF assms] free_wf [OF assms]
    frame_init_wf [OF assms] by blast

theorem frame_operations_typed_witness:
  "wf_bitmap (snd (free Debug \<lparr>run_start = FrameNumber 0xFFFFF, run_len = 64\<rparr> frame_bitmap_new))"
  using frame_operations_typed [of frame_bitmap_new] by simp

end
