(* ===== verification/Paging_Properties.thy ===== *)
theory Paging_Properties
  imports Paging_Proofs Frame_Properties
begin

text \<open>
  What the directory that \<open>paging_init\<close> builds means to the processor, and how the construction
  fails when no usable frame is left.
\<close>

section \<open>Walking a directory under construction\<close>

text \<open>What a table entry says about its page, reached through a writable supervisor table.\<close>

definition entry_translation :: "u32 \<Rightarrow> nat \<Rightarrow> translation option" where
  "entry_translation e off =
     (if bit e 0 then Some \<lparr>target = unat (e AND ADDRESS_MASK) + off, can_write = bit e 1, user_mode = False\<rparr>
      else None)"

lemma packed_3_bits: "bit (packed_entry f 3) 0" "bit (packed_entry f 3) 1" "bit (packed_entry f 3) (Suc 0)" "\<not> bit (packed_entry f 3) 2"
  "\<not> bit (packed_entry f 3) 7"
  by (simp_all add: bit_packed_entry)

lemma packed_entry_base: "f < 2 ^ 20 \<Longrightarrow> unat b < 4096 \<Longrightarrow> unat (packed_entry f b AND ADDRESS_MASK) = f * 4096"
  by (simp only: packed_entry_address unat_frame_base)

lemma table_walk:
  assumes "load32 m (D * 4096 + 4 * pd_index v) = packed_entry t 3" "D < 1024" "t < 1024"
  shows "mmu_walk m (of_nat (D * 4096)) v = entry_translation (load32 m (t * 4096 + 4 * pt_index v)) (offset v)"
proof -
  have "(of_nat (D * 4096) :: u32) AND ADDRESS_MASK = of_nat (D * 4096)"
    using packed_entry_address [of 0 D] by (simp add: packed_entry_def)
  then have "unat ((of_nat (D * 4096) :: u32) AND ADDRESS_MASK) = D * 4096"
    using assms(2) unat_frame_base [of D] by (simp only:) simp
  then show ?thesis
    using assms packed_entry_base [of t 3]
    unfolding mmu_walk_def ADDRESS_MASK_numeral
    by (simp only: Let_def packed_3_bits) (simp add: entry_translation_def packed_3_bits)
qed

lemma absent_walk:
  assumes "load32 m (D * 4096 + 4 * pd_index v) = 0" "D < 1024"
  shows "mmu_walk m (of_nat (D * 4096)) v = None"
proof -
  have "(of_nat (D * 4096) :: u32) AND ADDRESS_MASK = of_nat (D * 4096)"
    using packed_entry_address [of 0 D] by (simp add: packed_entry_def)
  then have "unat ((of_nat (D * 4096) :: u32) AND ADDRESS_MASK) = D * 4096"
    using assms(2) unat_frame_base [of D] by (simp only:) simp
  then show ?thesis
    using assms(1) unfolding mmu_walk_def ADDRESS_MASK_numeral by (simp only: Let_def) simp
qed

lemma entry_translation_packed:
  "f < 1024 \<Longrightarrow> entry_translation (packed_entry f 3) off =
     Some \<lparr>target = f * 4096 + off, can_write = True, user_mode = False\<rparr>"
  using packed_entry_base [of f 3] by (simp add: entry_translation_def packed_3_bits)

lemma walk_page:
  assumes t: "tables m D tbl E" and i: "pd_index v < 1023"
  shows "mmu_walk m (of_nat (D * 4096)) v = entry_translation (E (unat (virt_raw v) div 4096 * 4096)) (offset v)"
proof -
  have slot: "unat (virt_raw v) div 4096 * 4096 = pd_index v * 4194304 + pt_index v * 4096"
    using div_mult_mod_eq [of "unat (virt_raw v) div 4096" 1024]
    unfolding pd_index_eq pt_index_eq div_mult2_eq [of _ 4096 1024, simplified] by linarith
  show ?thesis
  proof (cases "tbl (pd_index v)")
    case None
    then have "load32 m (D * 4096 + 4 * pd_index v) = 0" "E (unat (virt_raw v) div 4096 * 4096) = 0"
      using tablesD(5,8) [OF t i] pt_index_less [of v] by (simp_all add: slot)
    then show ?thesis using absent_walk tablesD(1) [OF t] by (simp add: entry_translation_def)
  next
    case (Some f)
    then have "load32 m (D * 4096 + 4 * pd_index v) = packed_entry f 3" "f < 1024"
      using tablesD(5) [OF t i] tablesD(4) [OF t] by (auto simp: ran_def)
    then show ?thesis
      using table_walk tablesD(1) [OF t] tablesD(7) [OF t Some pt_index_less [of v]] by (simp add: slot)
  qed
qed

text \<open>The recursive slot: the tables themselves, and the directory, as pages.\<close>

lemma walk_recursive:
  assumes t: "tables m D tbl E" and i: "pd_index v = 1023"
  shows "mmu_walk m (of_nat (D * 4096)) v =
    (case (tbl(1023 \<mapsto> D)) (pt_index v) of None \<Rightarrow> None
     | Some f \<Rightarrow> Some \<lparr>target = f * 4096 + offset v, can_write = True, user_mode = False\<rparr>)"
proof -
  have D: "D < 1024" using tablesD(1) [OF t] .
  have "mmu_walk m (of_nat (D * 4096)) v = entry_translation (load32 m (D * 4096 + 4 * pt_index v)) (offset v)"
    using table_walk [of m D v D] tablesD(6) [OF t] i D by simp
  moreover have "load32 m (D * 4096 + 4 * pt_index v) =
      (case (tbl(1023 \<mapsto> D)) (pt_index v) of None \<Rightarrow> 0 | Some f \<Rightarrow> packed_entry f 3)"
  proof (cases "pt_index v = 1023")
    case True
    then show ?thesis using tablesD(6) [OF t] by simp
  next
    case False
    then have "pt_index v < 1023" using pt_index_less [of v] by simp
    then show ?thesis using tablesD(5) [OF t, of "pt_index v"] False by simp
  qed
  moreover have "f < 1024" if "(tbl(1023 \<mapsto> D)) j = Some f" for j f
    using that tablesD(4) [OF t] D by (auto simp: ran_def split: if_splits)
  ultimately show ?thesis
    by (cases "(tbl(1023 \<mapsto> D)) (pt_index v)")
      (simp_all only: option.case entry_translation_packed, simp add: entry_translation_def)
qed

section \<open>The whole construction\<close>

definition kernel_plan :: "layout \<Rightarrow> nat \<Rightarrow> (phys_addr \<times> page_flags) option" where
  "kernel_plan L x =
     (if x = stack_guard L then None
      else Some (PhysAddr (of_nat (x - KERNEL_VIRTUAL_BASE)),
                 if x < kernel_data_start L then KERNEL_RO else KERNEL_RW))"

definition low_plan :: "nat \<Rightarrow> (phys_addr \<times> page_flags) option" where
  "low_plan x = Some (PhysAddr (of_nat x), KERNEL_RW)"

lemma set_page_steps:
  assumes "4096 dvd a" "4096 dvd b"
  shows "set (page_steps a b) = {x. 4096 dvd x \<and> a \<le> x \<and> x < b}"
proof -
  obtain n m where nm: "a = 4096 * n" "b = 4096 * m" using assms by blast
  have "b - a = 4096 * (m - n)" by (simp add: nm diff_mult_distrib2)
  then have "set (page_steps a b) = {4096 * n + i * 4096 | i. i < m - n}"
    by (auto simp: page_steps_def PAGE_SIZE_def div_ceil_def nm(1))
  also have "\<dots> = {x. 4096 dvd x \<and> a \<le> x \<and> x < b}"
  proof (intro equalityI subsetI)
    fix x assume "x \<in> {x. 4096 dvd x \<and> a \<le> x \<and> x < b}"
    then obtain k where "x = 4096 * k" "n \<le> k" "k < m" using nm by auto
    then show "x \<in> {4096 * n + i * 4096 | i. i < m - n}"
      by (auto intro!: exI [of _ "k - n"] simp: diff_mult_distrib2)
  qed (use nm in auto)
  finally show ?thesis .
qed

definition kernel_pages :: "layout \<Rightarrow> nat set" where
  "kernel_pages L = {x. 4096 dvd x \<and> kernel_virt_start L \<le> x \<and> x < kernel_virt_end L}"

definition low_pages :: "layout \<Rightarrow> nat set" where
  "low_pages L = {x. 4096 dvd x \<and> x < kernel_phys_start L}"

lemma loop_pages:
  assumes "layout_ok L"
  shows "set (page_steps (kernel_virt_start_addr L) (kernel_virt_end_addr L)) = kernel_pages L"
    and "set (page_steps 0 (kernel_phys_start_addr L)) = low_pages L"
    and "x \<in> kernel_pages L \<Longrightarrow> x < 2 ^ 32 \<and> 4096 dvd x \<and> x div 4194304 = 768 \<and> KERNEL_VIRTUAL_BASE \<le> x"
    and "x \<in> low_pages L \<Longrightarrow> x < 2 ^ 32 \<and> 4096 dvd x \<and> x div 4194304 = 0"
proof -
  note L = assms [unfolded layout_ok_def KERNEL_VIRTUAL_BASE_def]
  have dvd: "4096 dvd kernel_virt_start L" "4096 dvd kernel_virt_end L" "4096 dvd kernel_phys_start L"
    using L by auto
  show "set (page_steps (kernel_virt_start_addr L) (kernel_virt_end_addr L)) = kernel_pages L"
    unfolding kernel_pages_def layout_addr_defs by (rule set_page_steps [OF dvd(1,2)])
  show "set (page_steps 0 (kernel_phys_start_addr L)) = low_pages L"
    using set_page_steps [OF dvd_0_right dvd(3)] by (simp add: low_pages_def layout_addr_defs)
  show "x < 2 ^ 32 \<and> 4096 dvd x \<and> x div 4194304 = 768 \<and> KERNEL_VIRTUAL_BASE \<le> x" if "x \<in> kernel_pages L"
  proof -
    have "4096 dvd x" "0xC0200000 \<le> x" "x < 0xC0400000"
      using that L unfolding kernel_pages_def mem_Collect_eq by linarith+
    then show ?thesis
      by (simp add: div_eq_iff_range KERNEL_VIRTUAL_BASE_def)
  qed
  show "x < 2 ^ 32 \<and> 4096 dvd x \<and> x div 4194304 = 0" if "x \<in> low_pages L"
    using that L unfolding low_pages_def by simp
qed

lemma kernel_loop_body:
  assumes "KERNEL_VIRTUAL_BASE \<le> x"
  shows "map_kernel_page p L pd x = (case kernel_plan L x of None \<Rightarrow> ret ()
    | Some (phys, fl) \<Rightarrow> map_bootstrap p pd (VirtAddr (of_nat x)) phys fl)"
  using assms
  by (simp add: map_kernel_page_def kernel_plan_def layout_addr_defs usize_sub_ok Let_def
      fun_eq_iff)

lemma low_loop_body:
  "map_low_page p pd x = (case low_plan x of None \<Rightarrow> ret ()
    | Some (phys, fl) \<Rightarrow> map_bootstrap p pd (VirtAddr (of_nat x)) phys fl)"
  by (simp add: map_low_page_def low_plan_def)

text \<open>The entry of every page once both loops have run.\<close>

definition final_entries :: "layout \<Rightarrow> nat \<Rightarrow> u32" where
  "final_entries L =
     plan_entries low_plan (low_pages L) (plan_entries (kernel_plan L) (kernel_pages L) (\<lambda>_. 0))"

lemma paging_loops:
  assumes L: "layout_ok L" and b: "building F D Map.empty (\<lambda>_. 0) s" "2 \<le> low_free s"
  shows "\<exists>s1 s2 tbl.
    for_each (map_kernel_page p L (D * 4096))
      (page_steps (kernel_virt_start_addr L) (kernel_virt_end_addr L)) s = (Inr (), s1) \<and>
    for_each (map_low_page p (D * 4096)) (page_steps 0 (kernel_phys_start_addr L)) s1 = (Inr (), s2) \<and>
    building F D tbl (final_entries L) s2 \<and> dom tbl = {0, 768} \<and> keeps F s s2"
proof -
  note pages = loop_pages [OF L]
  have "missing Map.empty \<le> low_free s" using b(2) by (simp add: missing_def)
  then obtain s1 where s1: "for_each (map_kernel_page p L (D * 4096))
      (page_steps (kernel_virt_start_addr L) (kernel_virt_end_addr L)) s = (Inr (), s1)"
    "pages_mapped F D Map.empty (\<lambda>_. 0) (kernel_plan L) s (kernel_pages L) s1"
    using map_pages_spec [OF b(1), where p = p and plan = "kernel_plan L"
        and xs = "page_steps (kernel_virt_start_addr L) (kernel_virt_end_addr L)"
        and body = "map_kernel_page p L (D * 4096)"] pages(3) kernel_loop_body
    unfolding pages(1) by (metis insertCI)
  have "stack_bottom L \<in> kernel_pages L \<inter> dom (kernel_plan L)"
    using L by (auto simp: layout_ok_def kernel_pages_def kernel_plan_def)
  then have "(\<lambda>x. x div 4194304) ` (kernel_pages L \<inter> dom (kernel_plan L)) = {768}"
    using pages(3) by (auto simp: image_iff)
  then obtain t1 where t1: "building F D t1 (plan_entries (kernel_plan L) (kernel_pages L) (\<lambda>_. 0)) s1"
    "missing t1 \<le> low_free s1" "dom t1 = {768}" "keeps F s s1"
    using s1(2) by (auto simp: pages_mapped_def)
  then obtain s2 where s2: "for_each (map_low_page p (D * 4096)) (page_steps 0 (kernel_phys_start_addr L)) s1
      = (Inr (), s2)"
    "pages_mapped F D t1 (plan_entries (kernel_plan L) (kernel_pages L) (\<lambda>_. 0)) low_plan s1 (low_pages L) s2"
    using map_pages_spec [OF t1(1,2), where p = p and plan = low_plan
        and xs = "page_steps 0 (kernel_phys_start_addr L)"
        and body = "map_low_page p (D * 4096)"] pages(4) low_loop_body
    unfolding pages(2) by (metis insertCI)
  have "0 \<in> low_pages L \<inter> dom low_plan"
    using L by (auto simp: layout_ok_def low_pages_def low_plan_def)
  then have "(\<lambda>x. x div 4194304) ` (low_pages L \<inter> dom low_plan) = {0}"
    using pages(4) by (auto simp: image_iff)
  then obtain t2 where "building F D t2 (final_entries L) s2" "dom t2 = {0, 768}" "keeps F s1 s2"
    using s2(2) t1(3) by (auto simp: pages_mapped_def final_entries_def)
  then show ?thesis
    using s1(1) s2(1) keeps_trans [OF t1(4)] by blast
qed

lemma paging_init_run:
  assumes L: "layout_ok L" and a: "alloc_ok s" "3 \<le> low_free s"
  obtains D tbl s' where
    "paging_init p L s = (Inr (), s'\<lparr>cr3 := of_nat (D * 4096), cr0 := cr0 s OR CR0_WP\<rparr>)"
    "building (free_frames (frame_alloc s)) D tbl (final_entries L) s'" "dom tbl = {0, 768}"
    "keeps (free_frames (frame_alloc s)) s s'"
proof -
  let ?F = "free_frames (frame_alloc s)"
  have "2 < low_free s" using a(2) by simp
  from a(1) this obtain D fb where D: "alloc_frame p s = (Inr (FrameNumber D), s\<lparr>frame_alloc := fb\<rparr>)"
    "alloc_ok (s\<lparr>frame_alloc := fb\<rparr>)" "D \<in> ?F" "D < 1024" "free_frames fb = ?F - {D}"
    "2 \<le> low_free (s\<lparr>frame_alloc := fb\<rparr>)"
    by (rule alloc_frame_below)
  let ?s = "s\<lparr>frame_alloc := fb, mem := store32 (D * 4096 + 4 * 1023) (packed_entry D 3) (zeroed D (mem s))\<rparr>"
  have "tables (mem ?s) D Map.empty (\<lambda>_. 0)" using tables_start [OF D(4), of "mem s"] by simp
  moreover have "alloc_ok ?s" "2 \<le> low_free ?s" using D(2,6) by (simp_all add: alloc_ok_def low_free_def)
  moreover have "free_frames (frame_alloc ?s) = ?F - {D}" using D(5) by simp
  moreover have "insert D ?F = ?F" using D(3) by (rule insert_absorb)
  ultimately have b: "building ?F D Map.empty (\<lambda>_. 0) ?s" "2 \<le> low_free ?s"
    unfolding building_def by (simp_all only: ran_empty insert_Diff_single) simp
  obtain s1 s2 tbl where s2: "for_each (map_kernel_page p L (D * 4096))
      (page_steps (kernel_virt_start_addr L) (kernel_virt_end_addr L)) ?s = (Inr (), s1)"
    "for_each (map_low_page p (D * 4096)) (page_steps 0 (kernel_phys_start_addr L)) s1 = (Inr (), s2)"
    "building ?F D tbl (final_entries L) s2" "dom tbl = {0, 768}" "keeps ?F ?s s2"
    using paging_loops [OF L b, of p] by blast
  have "mem ?s x = mem s x" if "x div 4096 \<notin> ?F" for x
  proof -
    have "x div 4096 \<noteq> D" using that D(3) by blast
    then show ?thesis using store_word_outside [of x D 1023] zeroed_outside [of x D] by simp
  qed
  then have keep: "keeps ?F s s2"
    by (intro keeps_trans [OF _ s2(5)]) (simp add: keeps_def)
  have "paging_init p L s = (Inr (), s2\<lparr>cr3 := of_nat (D * 4096), cr0 := cr0 s2 OR CR0_WP\<rparr>)"
    using D(1,4) s2(1,2)
    by (simp add: paging_init_def sbind_def zero_frame_ok bootstrap_frame_ptr_ok for_table_ok
        entry_write_ok KERNEL_RW_bits RECURSIVE_INDEX_def ENTRY_COUNT_def frame_base_addr_ok)
  then show thesis
    using s2(3,4) keep by (intro that) (simp_all add: keeps_def)
qed

section \<open>Properties\<close>

text \<open>
  The address space the kernel is meant to run in, below the recursive slot: the memory under the
  kernel as it is, the kernel image in the high half without the stack guard page, read-only up to
  the data section, nothing for user mode.
\<close>

definition kernel_map :: "layout \<Rightarrow> nat \<Rightarrow> translation option" where
  "kernel_map L a =
     (if a < kernel_phys_start L then Some \<lparr>target = a, can_write = True, user_mode = False\<rparr>
      else if kernel_virt_start L \<le> a \<and> a < kernel_virt_end L \<and>
        \<not> (stack_guard L \<le> a \<and> a < stack_bottom L)
      then Some \<lparr>target = a - KERNEL_VIRTUAL_BASE, can_write = (kernel_data_start L \<le> a), user_mode = False\<rparr>
      else None)"

lemma page_of_bounds:
  assumes "4096 dvd (b :: nat)"
  shows "a div 4096 * 4096 < b \<longleftrightarrow> a < b" "b \<le> a div 4096 * 4096 \<longleftrightarrow> b \<le> a"
    "a div 4096 * 4096 = b \<longleftrightarrow> b \<le> a \<and> a < b + 4096"
proof -
  obtain n where b: "b = 4096 * n" using assms by blast
  show lt: "a div 4096 * 4096 < b \<longleftrightarrow> a < b" by (simp add: b div_less_iff_less_mult mult.commute)
  then show "b \<le> a div 4096 * 4096 \<longleftrightarrow> b \<le> a" by linarith
  show "a div 4096 * 4096 = b \<longleftrightarrow> b \<le> a \<and> a < b + 4096"
    using div_eq_iff_range [of 4096 a n] by (auto simp: b mult.commute)
qed

lemma entry_translation_plan:
  assumes "x < 2 ^ 32" "4096 dvd x" "fl = KERNEL_RO \<or> fl = KERNEL_RW"
  shows "entry_translation (packed_entry (frame_index (frame_floor (PhysAddr (of_nat x)))) (flag_bits fl)) off =
    Some \<lparr>target = x + off, can_write = (fl = KERNEL_RW), user_mode = False\<rparr>"
proof -
  have u: "unat (of_nat x :: u32) = x" using assms(1) by (intro unat_of_nat_u32) simp
  have fi: "frame_index (frame_floor (PhysAddr (of_nat x))) = x div 4096"
    by (simp only: frame_floor_def frame_number.sel phys_addr.sel unat_div u) simp
  have small: "unat (flag_bits fl) < 4096" using assms(3) by (auto simp: KERNEL_RO_bits KERNEL_RW_bits)
  have "x div 4096 < 2 ^ 20" using assms(1) by simp
  then have base: "unat (packed_entry (x div 4096) (flag_bits fl) AND ADDRESS_MASK) = x"
    using packed_entry_base [OF _ small, of "x div 4096"] assms(2) by simp
  have "KERNEL_RO \<noteq> KERNEL_RW" using KERNEL_RO_bits KERNEL_RW_bits by auto
  then show ?thesis
    using assms(3) small base unfolding fi
    by (auto simp: entry_translation_def bit_packed_entry KERNEL_RO_bits KERNEL_RW_bits)
qed

lemma final_entries_translation:
  assumes L: "layout_ok L" and a: "a < 2 ^ 32"
  shows "entry_translation (final_entries L (a div 4096 * 4096)) (a mod 4096) = kernel_map L a"
proof -
  define x where "x = a div 4096 * 4096"
  have ax: "a = x + a mod 4096" "4096 dvd x" "x < 2 ^ 32" using a by (simp_all add: x_def)
  have dvd: "4096 dvd kernel_phys_start L" "4096 dvd kernel_virt_start L" "4096 dvd kernel_virt_end L"
    "4096 dvd stack_guard L" "4096 dvd kernel_data_start L" "stack_bottom L = stack_guard L + 4096"
    using L by (auto simp: layout_ok_def)
  note cmp = dvd(1-5) [THEN page_of_bounds(1), of a, folded x_def]
    dvd(1-5) [THEN page_of_bounds(2), of a, folded x_def]
    dvd(1-5) [THEN page_of_bounds(3), of a, folded x_def]
  have "x \<in> low_pages L \<longleftrightarrow> a < kernel_phys_start L"
    "x \<in> kernel_pages L \<longleftrightarrow> kernel_virt_start L \<le> a \<and> a < kernel_virt_end L"
    using cmp ax(2) by (simp_all add: low_pages_def kernel_pages_def)
  then have map: "kernel_map L a =
      (if x \<in> low_pages L then Some \<lparr>target = a, can_write = True, user_mode = False\<rparr>
       else if x \<in> kernel_pages L \<and> x \<noteq> stack_guard L
       then Some \<lparr>target = a - KERNEL_VIRTUAL_BASE, can_write = (kernel_data_start L \<le> x), user_mode = False\<rparr>
       else None)"
    using cmp(9,10,14) by (simp only: kernel_map_def dvd(6)) auto
  have entry: "final_entries L x = (if x \<in> low_pages L
      then packed_entry (frame_index (frame_floor (PhysAddr (of_nat x)))) (flag_bits KERNEL_RW)
      else if x \<in> kernel_pages L \<and> x \<noteq> stack_guard L
      then packed_entry (frame_index (frame_floor (PhysAddr (of_nat (x - KERNEL_VIRTUAL_BASE)))))
        (flag_bits (if x < kernel_data_start L then KERNEL_RO else KERNEL_RW)) else 0)"
    by (simp add: final_entries_def plan_entries_def low_plan_def kernel_plan_def)
  have ne: "KERNEL_RO \<noteq> KERNEL_RW" using KERNEL_RO_bits KERNEL_RW_bits by auto
  consider "x \<in> low_pages L" | "x \<notin> low_pages L" "x \<in> kernel_pages L \<and> x \<noteq> stack_guard L"
    | "x \<notin> low_pages L" "\<not> (x \<in> kernel_pages L \<and> x \<noteq> stack_guard L)" by blast
  then show ?thesis
  proof cases
    case 1
    then show ?thesis
      using entry_translation_plan [OF ax(3,2), of KERNEL_RW "a mod 4096"] ax(1)
      unfolding x_def [symmetric] entry map by (simp only: if_True simp_thms)
  next
    case 2
    then have k: "KERNEL_VIRTUAL_BASE \<le> x" "4096 dvd x - KERNEL_VIRTUAL_BASE"
      "x - KERNEL_VIRTUAL_BASE < 2 ^ 32"
      using loop_pages(3) [OF L, of x] by (auto simp: KERNEL_VIRTUAL_BASE_def intro: dvd_diff_nat)
    then have "x - KERNEL_VIRTUAL_BASE + a mod 4096 = a - KERNEL_VIRTUAL_BASE" using ax(1) by linarith
    then show ?thesis
      using 2 ne entry_translation_plan [OF k(3,2), of _ "a mod 4096"]
      unfolding x_def [symmetric] entry map by (cases "x < kernel_data_start L") (simp_all only: if_True if_False simp_thms not_le [symmetric])
  next
    case 3
    then show ?thesis
      unfolding x_def [symmetric] entry map by (simp only: if_False) (simp add: entry_translation_def)
  qed
qed

text \<open>
  The translation of a finished kernel directory: \<open>kernel_map\<close> below the recursive slot, and the
  directory and its two tables through it.
\<close>

definition kernel_walk :: "layout \<Rightarrow> nat \<Rightarrow> nat \<Rightarrow> nat \<Rightarrow> virt_addr \<Rightarrow> translation option" where
  "kernel_walk L dir low high v =
     (if pd_index v \<noteq> RECURSIVE_INDEX then kernel_map L (unat (virt_raw v))
      else map_option (\<lambda>f. \<lparr>target = f * 4096 + offset v, can_write = True, user_mode = False\<rparr>)
        ([0 \<mapsto> low, 768 \<mapsto> high, 1023 \<mapsto> dir] (pt_index v)))"

definition installed :: "layout \<Rightarrow> memory \<Rightarrow> nat \<Rightarrow> nat \<Rightarrow> nat \<Rightarrow> bool" where
  "installed L m dir low high \<longleftrightarrow> tables m dir [0 \<mapsto> low, 768 \<mapsto> high] (final_entries L)"

lemma installed_walk:
  assumes L: "layout_ok L" and i: "installed L m dir low high"
  shows "mmu_walk m (of_nat (dir * 4096)) v = kernel_walk L dir low high v"
proof (cases "pd_index v = 1023")
  case True
  then show ?thesis
    using walk_recursive [OF i [unfolded installed_def] True]
    by (simp add: kernel_walk_def RECURSIVE_INDEX_def ENTRY_COUNT_def)
next
  case False
  then have "pd_index v < 1023" using pd_index_less [of v] by simp
  then show ?thesis
    using walk_page [OF i [unfolded installed_def], of v] False unat_less_2p32 [of "virt_raw v"]
      final_entries_translation [OF L, of "unat (virt_raw v)"]
    by (simp add: kernel_walk_def RECURSIVE_INDEX_def ENTRY_COUNT_def offset_eq)
qed

text \<open>The directory stays what it is while its three frames do.\<close>

lemma tables_cong:
  assumes t: "tables m D tbl E" and same: "\<And>x. x div 4096 \<in> insert D (ran tbl) \<Longrightarrow> m' x = m x"
  shows "tables m' D tbl E"
proof -
  have ld: "load32 m' (f * 4096 + 4 * i) = load32 m (f * 4096 + 4 * i)"
    if "f \<in> insert D (ran tbl)" "i < 1024" for f i
  proof (rule load32_cong)
    fix x assume "f * 4096 + 4 * i \<le> x" "x < f * 4096 + 4 * i + 4"
    then have "x div 4096 = f" using that(2) div_eq_iff_range [of 4096 x f] by simp
    then show "m' x = m x" using same that(1) by simp
  qed
  note dir = ld [of D, OF insertI1]
  show ?thesis
  proof (rule tablesI [OF tablesD(1-4) [OF t]])
    show "load32 m' (D * 4096 + 4 * i) = (case tbl i of None \<Rightarrow> 0 | Some t \<Rightarrow> packed_entry t 3)"
      if "i < 1023" for i
      using dir [of i] that tablesD(5) [OF t that] by simp
    show "load32 m' (D * 4096 + 4 * 1023) = packed_entry D 3"
      using dir [of 1023] tablesD(6) [OF t] by simp
    show "load32 m' (f * 4096 + 4 * j) = E (i * 4194304 + j * 4096)" if "tbl i = Some f" "j < 1024" for i f j
      using ld [of f j] that tablesD(7) [OF t that] by (auto simp: ran_def)
    show "E (i * 4194304 + j * 4096) = 0" if "i < 1023" "tbl i = None" "j < 1024" for i j
      using tablesD(8) [OF t that] .
  qed
qed

lemma installed_cong:
  assumes "installed L m dir low high" "\<And>x. x div 4096 \<in> {dir, low, high} \<Longrightarrow> m' x = m x"
  shows "installed L m' dir low high"
proof -
  have "ran [0 \<mapsto> low, 768 \<mapsto> high] \<subseteq> {low, high}" by (auto simp: ran_def split: if_splits)
  then have "x div 4096 \<in> insert dir (ran [0 \<mapsto> low, 768 \<mapsto> high]) \<Longrightarrow> m' x = m x" for x
    using assms(2) by blast
  then show ?thesis using assms(1) unfolding installed_def by (rule tables_cong [rotated])
qed

lemma paging_init_spec:
  assumes "layout_ok L" "alloc_ok s" "3 \<le> low_free s"
  obtains s' dir low high where "paging_init p L s = (Inr (), s')"
    "distinct [dir, low, high]" "{dir, low, high} \<subseteq> free_frames (frame_alloc s) \<inter> {..<1024}"
    "alloc_ok s'" "free_frames (frame_alloc s') = free_frames (frame_alloc s) - {dir, low, high}"
    "\<And>x. x div 4096 \<notin> free_frames (frame_alloc s) \<Longrightarrow> mem s' x = mem s x"
    "cr3 s' = of_nat (dir * 4096)" "cr0 s' = cr0 s OR CR0_WP" "machine.more s' = machine.more s"
    "installed L (mem s') dir low high"
proof -
  from assms obtain D tbl s1 where
    run: "paging_init p L s = (Inr (), s1\<lparr>cr3 := of_nat (D * 4096), cr0 := cr0 s OR CR0_WP\<rparr>)"
    and b: "building (free_frames (frame_alloc s)) D tbl (final_entries L) s1" and dom: "dom tbl = {0, 768}"
    and k: "keeps (free_frames (frame_alloc s)) s s1"
    by (rule paging_init_run)
  obtain low high where lh: "tbl 0 = Some low" "tbl 768 = Some high" using dom by blast
  have t: "tables (mem s1) D tbl (final_entries L)" using b by (simp add: building_def)
  have "i \<notin> dom tbl" if "i \<noteq> 0" "i \<noteq> 768" for i using dom that by simp
  then have tbl: "tbl = [0 \<mapsto> low, 768 \<mapsto> high]"
    using lh by (intro ext) (simp add: domIff)
  have ran: "ran tbl = {low, high}" unfolding tbl by (subst ran_map_upd) auto
  let ?s = "s1\<lparr>cr3 := of_nat (D * 4096), cr0 := cr0 s OR CR0_WP\<rparr>"
  have "low \<noteq> high" using inj_onD [OF tablesD(3) [OF t], of 0 768] lh dom by auto
  then have d: "distinct [D, low, high]" "{D, low, high} \<subseteq> {..<1024}"
    using tablesD(1,4) [OF t] unfolding ran by auto
  have f: "free_frames (frame_alloc ?s) = free_frames (frame_alloc s) - {D, low, high}"
    "{D, low, high} \<subseteq> free_frames (frame_alloc s)"
    using b [unfolded building_def ran] by auto
  show thesis
    using d f b k t unfolding tbl
    by (intro that [of ?s D low high] run)
      (simp_all add: building_def alloc_ok_def keeps_def installed_def)
qed

text \<open>
  C4: the page directory \<open>paging_init\<close> installs.  From an image the linker accepts and an
  allocator as boot leaves it, with at least three free frames in the low 4 MiB, the construction
  returns without a panic.  It takes exactly three of those frames, writes only to memory that was
  free, loads the directory into \<open>CR3\<close> and sets \<open>CR0.WP\<close>.  The processor then translates every
  address below the recursive slot as \<open>kernel_map\<close> says, and the recursive slot shows the two page
  tables and the directory and nothing else.
\<close>

theorem paging_init_correct:
  assumes "layout_ok L" "wf_bitmap (frame_alloc s)" "packed (frame_alloc s)"
    and "3 \<le> card (free_frames (frame_alloc s) \<inter> {..<1024})"
  shows "\<exists>s' dir low high. paging_init p L s = (Inr (), s') \<and>
    distinct [dir, low, high] \<and> {dir, low, high} \<subseteq> free_frames (frame_alloc s) \<inter> {..<1024} \<and>
    wf_bitmap (frame_alloc s') \<and>
    free_frames (frame_alloc s') = free_frames (frame_alloc s) - {dir, low, high} \<and>
    (\<forall>x. x div 4096 \<notin> free_frames (frame_alloc s) \<longrightarrow> mem s' x = mem s x) \<and>
    cr3 s' = of_nat (dir * 4096) \<and> cr0 s' = cr0 s OR CR0_WP \<and> machine.more s' = machine.more s \<and>
    (\<forall>v. mmu_walk (mem s') (cr3 s') v =
      (if pd_index v \<noteq> RECURSIVE_INDEX then kernel_map L (unat (virt_raw v))
       else map_option (\<lambda>f. \<lparr>target = f * 4096 + offset v, can_write = True, user_mode = False\<rparr>)
         ([0 \<mapsto> low, 768 \<mapsto> high, 1023 \<mapsto> dir] (pt_index v))))"
proof -
  have "alloc_ok s" "3 \<le> low_free s" using assms by (simp_all add: alloc_ok_def low_free_def)
  from paging_init_spec [OF assms(1) this, of p] obtain s' dir low high where
    s': "paging_init p L s = (Inr (), s')"
    "distinct [dir, low, high]" "{dir, low, high} \<subseteq> free_frames (frame_alloc s) \<inter> {..<1024}"
    "alloc_ok s'" "free_frames (frame_alloc s') = free_frames (frame_alloc s) - {dir, low, high}"
    "\<And>x. x div 4096 \<notin> free_frames (frame_alloc s) \<Longrightarrow> mem s' x = mem s x"
    "cr3 s' = of_nat (dir * 4096)" "cr0 s' = cr0 s OR CR0_WP" "machine.more s' = machine.more s"
    "installed L (mem s') dir low high" by metis
  then show ?thesis
    using installed_walk [OF assms(1) s'(10)] unfolding kernel_walk_def alloc_ok_def
    by (intro exI [of _ s'] exI [of _ dir] exI [of _ low] exI [of _ high]) simp
qed

definition sample_machine :: machine where
  "sample_machine = \<lparr>mem = (\<lambda>_. 0), frame_alloc = sample_bitmap, cr3 = 0, cr0 = 0x80000011\<rparr>"

lemma sample_machine_ok: "alloc_ok sample_machine" "3 \<le> low_free sample_machine"
proof -
  show "alloc_ok sample_machine"
    using wf_sample by (simp add: sample_machine_def alloc_ok_def packed_def sample_bitmap_def)
  have "{4, 5, 6} \<subseteq> free_frames sample_bitmap \<inter> {..<1024}"
    using sample_run by (auto simp: run_at_def)
  then have "card {4, 5, 6 :: nat} \<le> card (free_frames sample_bitmap \<inter> {..<1024})"
    by (intro card_mono) auto
  then show "3 \<le> low_free sample_machine"
    by (simp add: low_free_def sample_machine_def)
qed

theorem paging_init_correct_witness:
  "\<exists>s'. paging_init Debug sample_layout sample_machine = (Inr (), s') \<and>
     mmu_walk (mem s') (cr3 s') (VirtAddr 0xB8000) =
       Some \<lparr>target = 0xB8000, can_write = True, user_mode = False\<rparr>"
proof -
  have "wf_bitmap (frame_alloc sample_machine)" "packed (frame_alloc sample_machine)"
    "3 \<le> card (free_frames (frame_alloc sample_machine) \<inter> {..<1024})"
    using sample_machine_ok by (simp_all add: alloc_ok_def low_free_def)
  from paging_init_correct [OF sample_layout_ok this, of Debug] obtain s' where
    run: "paging_init Debug sample_layout sample_machine = (Inr (), s')"
    and walk: "\<And>v. pd_index v \<noteq> RECURSIVE_INDEX \<Longrightarrow>
      mmu_walk (mem s') (cr3 s') v = kernel_map sample_layout (unat (virt_raw v))"
    by auto
  have "kernel_phys_start sample_layout = 0x200000"
    using sample_layout_ok by (simp add: layout_ok_def)
  then have "kernel_map sample_layout 0xB8000 = Some \<lparr>target = 0xB8000, can_write = True, user_mode = False\<rparr>"
    by (simp add: kernel_map_def)
  moreover have "pd_index (VirtAddr 0xB8000) \<noteq> RECURSIVE_INDEX"
    by (simp add: pd_index_eq RECURSIVE_INDEX_def ENTRY_COUNT_def)
  ultimately show ?thesis using run walk [of "VirtAddr 0xB8000"] by simp
qed

text \<open>
  Without a usable frame the construction panics before memory or a control register has changed: if
  no frame is free at all, and if the lowest free frame is above the identity-mapped memory.
\<close>

lemma paging_init_fails:
  assumes "alloc_ok s"
  shows "free_frames (frame_alloc s) = {} \<Longrightarrow> paging_init p L s = (Inl Out_Of_Frames, s)"
    and "f \<in> free_frames (frame_alloc s) \<Longrightarrow> \<forall>g \<in> free_frames (frame_alloc s). f \<le> g \<Longrightarrow> 1024 \<le> f \<Longrightarrow>
      \<exists>fb. paging_init p L s = (Inl (Above_Identity_Map (f * 4096)), s\<lparr>frame_alloc := fb\<rparr>)"
proof -
  have ok: "wf_bitmap (frame_alloc s)" "packed (frame_alloc s)" using assms by (simp_all add: alloc_ok_def)
  {
    assume "free_frames (frame_alloc s) = {}"
    then have "allocate_one p (frame_alloc s) = (Inr None, frame_alloc s)"
      using ok low_frames.take_empty by blast
    then show "paging_init p L s = (Inl Out_Of_Frames, s)"
      by (simp add: paging_init_def alloc_frame_def on_frames_def sbind_def)
  next
    assume f: "f \<in> free_frames (frame_alloc s)" "\<forall>g \<in> free_frames (frame_alloc s). f \<le> g" "1024 \<le> f"
    then obtain fb where fb: "allocate_one p (frame_alloc s) = (Inr (Some \<lparr>run_start = FrameNumber f, run_len = 1\<rparr>), fb)"
      using ok low_frames.take_lowest [of "frame_alloc s" f p] by blast
    have lt: "f < 2 ^ 20" using f by (auto simp: frame_free_def FRAME_COUNT_eq)
    have "bootstrap_frame_ptr p (FrameNumber f) = Inl (Above_Identity_Map (f * 4096))"
      using f lt unat_frame_base [OF lt]
      by (simp add: bootstrap_frame_ptr_def frame_base_addr_ok BOOTSTRAP_IDENTITY_LIMIT_def
          PAGE_TABLE_SPAN_def PAGE_SIZE_def ENTRY_COUNT_def)
    then have "paging_init p L s = (Inl (Above_Identity_Map (f * 4096)), s\<lparr>frame_alloc := fb\<rparr>)"
      using fb by (simp add: paging_init_def alloc_frame_def on_frames_def zero_frame_def sbind_def)
    then show "\<exists>fb. paging_init p L s = (Inl (Above_Identity_Map (f * 4096)), s\<lparr>frame_alloc := fb\<rparr>)" ..
  }
qed



end
