(* ===== verification/Volatile.thy ===== *)
theory Volatile
  imports Kernel_Prelude
begin

text \<open>
  The volatile element copy of \<open>src/src/volatile.rs\<close>, and the proof that it has \<open>memmove\<close>
  semantics: whatever the overlap of the two ranges, the destination receives the bytes the source
  held before the call.
\<close>

text \<open>One element of \<open>esize\<close> bytes is read from \<open>src.add(i)\<close> and written to \<open>dst.add(i)\<close>.\<close>

definition copy_element :: "nat \<Rightarrow> usize \<Rightarrow> usize \<Rightarrow> usize \<Rightarrow> (memory, unit) st" where
  "copy_element esize src dst i =
     update (\<lambda>m. store_bytes (dst + i * esize) (load_bytes m (src + i * esize) esize) m)"

text \<open>The second conjunct of the test is evaluated only when the first one holds.\<close>

definition volatile_copy :: "profile \<Rightarrow> nat \<Rightarrow> usize \<Rightarrow> usize \<Rightarrow> usize \<Rightarrow> (memory, unit) st" where
  "volatile_copy p esize src dst count =
     sbind (lift (usize_mul p count esize)) (\<lambda>byte_count.
     sbind (if dst > src then lift (rbind (usize_add p src byte_count) (\<lambda>stop. Inr (dst < stop)))
            else ret False) (\<lambda>overlap.
     if overlap then for_each (copy_element esize src dst) (rev [0..<count])
     else for_each (copy_element esize src dst) [0..<count]))"

section \<open>Copying a range of offsets\<close>

text \<open>The bytes at the offsets \<open>[a, b)\<close> have been moved.\<close>

definition moved :: "nat \<Rightarrow> nat \<Rightarrow> nat \<Rightarrow> nat \<Rightarrow> memory \<Rightarrow> memory" where
  "moved src dst a b m = (\<lambda>x. if dst + a \<le> x \<and> x < dst + b then m (src + (x - dst)) else m x)"

lemma store_load_moved: "store_bytes dst (load_bytes m src n) m = moved src dst 0 n m"
  by (auto simp: store_bytes_def load_bytes_def moved_def fun_eq_iff)

lemma copy_element_moved:
  "copy_element esize src dst i m = (Inr (), moved src dst (i * esize) (i * esize + esize) m)"
  by (auto simp: copy_element_def store_bytes_def load_bytes_def moved_def fun_eq_iff)

lemma moved_empty: "moved src dst a a m = m"
  by (auto simp: moved_def fun_eq_iff)

text \<open>An element above the moved range, read from bytes that are not yet overwritten.\<close>

lemma moved_up:
  assumes "a \<le> b" "b \<le> c" "dst \<le> src \<or> src + c \<le> dst"
  shows "moved src dst b c (moved src dst a b m) = moved src dst a c m"
  using assms by (auto simp: moved_def fun_eq_iff)

text \<open>An element below the moved range.\<close>

lemma moved_down:
  assumes "a \<le> b" "b \<le> c" "src \<le> dst"
  shows "moved src dst a b (moved src dst b c m) = moved src dst a c m"
  using assms by (auto simp: moved_def fun_eq_iff)

lemma copy_forward:
  assumes "dst \<le> src \<or> src + n * esize \<le> dst"
  shows "for_each (copy_element esize src dst) [0..<n] m = (Inr (), moved src dst 0 (n * esize) m)"
  using assms
proof (induction n)
  case 0
  then show ?case by (simp add: moved_empty)
next
  case (Suc n)
  then have "dst \<le> src \<or> src + n * esize \<le> dst" by auto
  with Suc show ?case
    by (simp add: for_each_append sbind_Inr copy_element_moved moved_up add.commute)
qed

lemma copy_backward:
  assumes "src \<le> dst"
  shows "n * esize \<le> c \<Longrightarrow>
    for_each (copy_element esize src dst) (rev [0..<n]) (moved src dst (n * esize) c m) =
      (Inr (), moved src dst 0 c m)"
proof (induction n)
  case 0
  then show ?case by simp
next
  case (Suc n)
  then have "moved src dst (n * esize) (n * esize + esize) (moved src dst (Suc n * esize) c m) =
      moved src dst (n * esize) c m"
    using moved_down [of "n * esize" "Suc n * esize" c src dst m] assms by (simp add: add.commute)
  with Suc show ?case
    by (simp add: sbind_Inr copy_element_moved)
qed

lemma volatile_copy_moved:
  assumes "src + count * esize < 2 ^ 32"
  shows "volatile_copy p esize src dst count m =
    (Inr (), store_bytes dst (load_bytes m src (count * esize)) m)"
proof (cases "src < dst \<and> dst < src + count * esize")
  case True
  then have "for_each (copy_element esize src dst) (rev [0..<count]) m =
      (Inr (), moved src dst 0 (count * esize) m)"
    using copy_backward [of src dst count esize "count * esize" m] by (simp add: moved_empty)
  then show ?thesis
    using True assms by (simp add: volatile_copy_def usize_mul_ok usize_add_ok store_load_moved)
next
  case False
  then have "for_each (copy_element esize src dst) [0..<count] m = (Inr (), moved src dst 0 (count * esize) m)"
    by (intro copy_forward) auto
  then show ?thesis
    using False assms by (simp add: volatile_copy_def usize_mul_ok usize_add_ok store_load_moved)
qed

section \<open>Property\<close>

text \<open>
  C14: \<open>memmove\<close> semantics.  When the source range ends below the top of the address space, the copy
  returns and the only change is that the destination range holds the bytes the source range held
  before, also when the ranges overlap in either direction.
\<close>

theorem volatile_copy_memmove:
  assumes "src + count * esize < 2 ^ 32"
  shows "volatile_copy p esize src dst count m =
    (Inr (), store_bytes dst (load_bytes m src (count * esize)) m)"
  using assms by (rule volatile_copy_moved)

theorem volatile_copy_memmove_witness:
  "volatile_copy Debug 1 0xB80A0 0xB8000 3840 (\<lambda>_. 7) =
     (Inr (), store_bytes 0xB8000 (load_bytes (\<lambda>_. 7) 0xB80A0 3840) (\<lambda>_. 7))"
  using volatile_copy_memmove [of "0xB80A0" 3840 1 Debug "0xB8000" "\<lambda>_. 7"] by simp

end
