(* ===== verification/Vga.thy ===== *)
theory Vga
  imports Volatile Format
begin

text \<open>
  The VGA text console: \<open>src/src/vga.rs\<close> and the printing macros of \<open>src/src/console.rs\<close>.

  A \<open>display\<close> is the memory the writer stores to, with the \<open>VgaWriter\<close> itself.  The buffer is a
  window of 25 rows of 80 cells at \<open>VGA_BUFFER\<close>, a cell being a character and a colour byte.
  Formatted output reaches the writer as the pieces the formatting machinery produces, one
  \<open>write_str\<close> per piece.
\<close>

definition VGA_BUFFER :: usize where
  "VGA_BUFFER = 0xb8000"

definition VGA_WIDTH :: usize where
  "VGA_WIDTH = 80"

definition VGA_HEIGHT :: usize where
  "VGA_HEIGHT = 25"

datatype color =
    Black | Blue | Green | Cyan | Red | Magenta | Brown | LightGray
  | DarkGray | LightBlue | LightGreen | LightCyan | LightRed | Pink | Yellow | White

fun color_u8 :: "color \<Rightarrow> u8" where
  "color_u8 Black = 0x0"
| "color_u8 Blue = 0x1"
| "color_u8 Green = 0x2"
| "color_u8 Cyan = 0x3"
| "color_u8 Red = 0x4"
| "color_u8 Magenta = 0x5"
| "color_u8 Brown = 0x6"
| "color_u8 LightGray = 0x7"
| "color_u8 DarkGray = 0x8"
| "color_u8 LightBlue = 0x9"
| "color_u8 LightGreen = 0xa"
| "color_u8 LightCyan = 0xb"
| "color_u8 LightRed = 0xc"
| "color_u8 Pink = 0xd"
| "color_u8 Yellow = 0xe"
| "color_u8 White = 0xf"

definition color_on :: "color \<Rightarrow> color \<Rightarrow> u8" where
  "color_on fg bg = push_bit 4 (color_u8 bg) OR color_u8 fg"

record vga_writer =
  col :: usize
  row :: usize
  color :: u8

definition vga_writer_new :: vga_writer where
  "vga_writer_new = \<lparr>col = 0, row = 0, color = 0x0F\<rparr>"

record display =
  buffer :: memory
  writer :: vga_writer

text \<open>A volatile byte store at \<open>VGA_BUFFER.add(off)\<close>, and an update of the writer.\<close>

definition vga_store :: "usize \<Rightarrow> u8 \<Rightarrow> (display, unit) st" where
  "vga_store off b = update (\<lambda>d. d\<lparr>buffer := (buffer d)(VGA_BUFFER + off := b)\<rparr>)"

definition set_writer :: "(vga_writer \<Rightarrow> vga_writer) \<Rightarrow> (display, unit) st" where
  "set_writer f = update (\<lambda>d. d\<lparr>writer := f (writer d)\<rparr>)"

definition on_buffer :: "(memory, 'a) st \<Rightarrow> (display, 'a) st" where
  "on_buffer m = (\<lambda>d. case m (buffer d) of (r, b) \<Rightarrow> (r, d\<lparr>buffer := b\<rparr>))"

section \<open>Clearing and scrolling\<close>

text \<open>The body of both clearing loops: a blank in the writer's colour at cell \<open>c\<close> of \<open>base\<close>.\<close>

definition blank_cell :: "usize \<Rightarrow> usize \<Rightarrow> (display, unit) st" where
  "blank_cell base c =
     sbind (vga_store (base + c * 2) 0x20) (\<lambda>_.
     sbind (reads (\<lambda>d. Inr (color (writer d)))) (\<lambda>k.
     vga_store (base + (c * 2 + 1)) k))"

definition vga_clear :: "(display, unit) st" where
  "vga_clear = for_each (blank_cell 0) [0..<VGA_WIDTH * VGA_HEIGHT]"

definition clear_row :: "profile \<Rightarrow> usize \<Rightarrow> (display, unit) st" where
  "clear_row p r =
     sbind (lift (rbind (usize_mul p r VGA_WIDTH) (\<lambda>n. usize_mul p n 2))) (\<lambda>row_buf.
     for_each (blank_cell row_buf) [0..<VGA_WIDTH])"

definition scroll :: "profile \<Rightarrow> (display, unit) st" where
  "scroll p =
     (let dst = VGA_BUFFER;
          src = VGA_BUFFER + VGA_WIDTH * 2;
          count = (VGA_HEIGHT - 1) * VGA_WIDTH * 2 in
      sbind (on_buffer (volatile_copy p 1 src dst count)) (\<lambda>_.
      sbind (set_writer (\<lambda>w. w\<lparr>row := VGA_HEIGHT - 1\<rparr>)) (\<lambda>_.
      sbind (reads (\<lambda>d. Inr (row (writer d)))) (\<lambda>r.
      clear_row p r))))"

definition vga_reset :: "(display, unit) st" where
  "vga_reset =
     sbind (set_writer (\<lambda>w. w\<lparr>col := 0\<rparr>)) (\<lambda>_.
     sbind (set_writer (\<lambda>w. w\<lparr>row := 0\<rparr>)) (\<lambda>_.
     vga_clear))"

section \<open>Writing\<close>

definition vga_newline :: "profile \<Rightarrow> (display, unit) st" where
  "vga_newline p =
     sbind (set_writer (\<lambda>w. w\<lparr>col := 0\<rparr>)) (\<lambda>_.
     sbind (reads (\<lambda>d. usize_add p (row (writer d)) 1)) (\<lambda>r.
     sbind (set_writer (\<lambda>w. w\<lparr>row := r\<rparr>)) (\<lambda>_.
     if VGA_HEIGHT \<le> r then scroll p else ret ())))"

definition write_byte :: "profile \<Rightarrow> u8 \<Rightarrow> (display, unit) st" where
  "write_byte p byte =
     (if byte = 0x0A then vga_newline p
      else
        sbind (reads (\<lambda>d. Inr (col (writer d)))) (\<lambda>c.
        sbind (if VGA_WIDTH \<le> c then vga_newline p else ret ()) (\<lambda>_.
        sbind (reads (\<lambda>d.
          rbind (usize_mul p (row (writer d)) VGA_WIDTH) (\<lambda>n.
          rbind (usize_add p n (col (writer d))) (\<lambda>n. usize_mul p n 2)))) (\<lambda>off.
        sbind (vga_store off byte) (\<lambda>_.
        sbind (lift (usize_add p off 1)) (\<lambda>off1.
        sbind (reads (\<lambda>d. Inr (color (writer d)))) (\<lambda>k.
        sbind (vga_store off1 k) (\<lambda>_.
        sbind (reads (\<lambda>d. usize_add p (col (writer d)) 1)) (\<lambda>c.
        set_writer (\<lambda>w. w\<lparr>col := c\<rparr>))))))))))"

definition vga_write :: "profile \<Rightarrow> u8 list \<Rightarrow> (display, unit) st" where
  "vga_write p bytes = for_each (write_byte p) bytes"

definition write_str :: "profile \<Rightarrow> string \<Rightarrow> (display, unit) st" where
  "write_str p s = vga_write p (as_bytes s)"

text \<open>\<open>write_fmt\<close>, which never sees an error here since \<open>write_str\<close> returns \<open>Ok\<close>.\<close>

definition write_fmt :: "profile \<Rightarrow> string list \<Rightarrow> (display, unit) st" where
  "write_fmt p pieces = for_each (write_str p) pieces"

definition print_args :: "profile \<Rightarrow> string list \<Rightarrow> (display, unit) st" where
  "print_args p args = write_fmt p args"

definition print_color :: "profile \<Rightarrow> u8 \<Rightarrow> string list \<Rightarrow> (display, unit) st" where
  "print_color p k args =
     sbind (reads (\<lambda>d. Inr (color (writer d)))) (\<lambda>prev_color.
     sbind (set_writer (\<lambda>w. w\<lparr>color := k\<rparr>)) (\<lambda>_.
     sbind (write_fmt p args) (\<lambda>_.
     set_writer (\<lambda>w. w\<lparr>color := prev_color\<rparr>))))"

text \<open>The macros \<open>printk!\<close> and \<open>printk_color!\<close>.\<close>

definition printk :: "profile \<Rightarrow> string list \<Rightarrow> (display, unit) st" where
  "printk p args = print_args p args"

definition printk_color :: "profile \<Rightarrow> u8 \<Rightarrow> string list \<Rightarrow> (display, unit) st" where
  "printk_color p k args = print_color p k args"

end
