(* ===== verification/Console_Interface.thy ===== *)
theory Console_Interface
  imports Kernel_Prelude
begin

text \<open>
  The contract of a text console, as the printing code uses it: one operation that writes a byte.
  Writing never panics, keeps the device's invariant, acts on what the device shows as a function
  \<open>step\<close> of the byte, and leaves everything else alone (\<open>frame\<close>, a preorder).  What follows for
  byte strings and for sequences of formatted pieces is proved here once.
\<close>

locale text_console =
  fixes put :: "u8 \<Rightarrow> ('s, unit) st"
    and inv :: "'s \<Rightarrow> bool"
    and view :: "'s \<Rightarrow> 't"
    and step :: "u8 \<Rightarrow> 't \<Rightarrow> 't"
    and frame :: "'s \<Rightarrow> 's \<Rightarrow> bool"
  assumes put_step: "inv s \<Longrightarrow> \<exists>s'. put b s = (Inr (), s') \<and> inv s' \<and> view s' = step b (view s) \<and> frame s s'"
    and frame_refl: "frame s s"
    and frame_trans: "frame s s' \<Longrightarrow> frame s' s'' \<Longrightarrow> frame s s''"
begin

lemma put_all:
  assumes "inv s"
  shows "\<exists>s'. for_each put bs s = (Inr (), s') \<and> inv s' \<and> view s' = fold step bs (view s) \<and> frame s s'"
  using assms
proof (induction bs arbitrary: s)
  case Nil
  then show ?case by (simp add: frame_refl)
next
  case (Cons b bs)
  obtain s1 where s1: "put b s = (Inr (), s1)" "inv s1" "view s1 = step b (view s)" "frame s s1"
    using put_step [OF Cons.prems] by blast
  from Cons.IH [OF s1(2)] s1 frame_trans show ?case
    by (auto simp: sbind_Inr)
qed

text \<open>Writing piece by piece is writing the concatenation.\<close>

lemma put_pieces: "for_each (\<lambda>bs. for_each put bs) pieces s = for_each put (concat pieces) s"
  by (induction pieces arbitrary: s) (simp_all add: for_each_append sbind_def split: prod.splits sum.splits)

lemma put_pieces_step:
  assumes "inv s"
  shows "\<exists>s'. for_each (\<lambda>bs. for_each put bs) pieces s = (Inr (), s') \<and> inv s' \<and>
    view s' = fold step (concat pieces) (view s) \<and> frame s s'"
  unfolding put_pieces by (rule put_all [OF assms])

end

end
