(* ===== verification/Vga_Proofs.thy ===== *)
theory Vga_Proofs
  imports Vga Console_Interface
begin

text \<open>
  The console refines an abstract terminal: 25 lines of 80 cells with a cursor.  The abstract
  operations work on lists; the refinement reads the screen off the VGA memory and also shows that
  no byte outside the 4000-byte buffer is ever written.
\<close>

section \<open>The abstract terminal\<close>

type_synonym cell = "u8 \<times> u8"

record terminal =
  screen :: "cell list list"
  cur_row :: nat
  cur_col :: nat
  ink :: u8

definition blank_line :: "u8 \<Rightarrow> cell list" where
  "blank_line k = replicate 80 (0x20, k)"

definition term_newline :: "terminal \<Rightarrow> terminal" where
  "term_newline t =
     (if cur_row t < 24 then t\<lparr>cur_col := 0, cur_row := cur_row t + 1\<rparr>
      else t\<lparr>cur_col := 0, cur_row := 24, screen := tl (screen t) @ [blank_line (ink t)]\<rparr>)"

definition term_put :: "u8 \<Rightarrow> terminal \<Rightarrow> terminal" where
  "term_put b t =
     t\<lparr>screen := (screen t)[cur_row t := (screen t ! cur_row t)[cur_col t := (b, ink t)]],
       cur_col := cur_col t + 1\<rparr>"

definition term_byte :: "u8 \<Rightarrow> terminal \<Rightarrow> terminal" where
  "term_byte b t =
     (if b = 0x0A then term_newline t
      else term_put b (if cur_col t < 80 then t else term_newline t))"

definition term_clear :: "terminal \<Rightarrow> terminal" where
  "term_clear t = t\<lparr>screen := replicate 25 (blank_line (ink t))\<rparr>"

section \<open>Reading the screen off memory\<close>

definition cell_at :: "memory \<Rightarrow> nat \<Rightarrow> nat \<Rightarrow> cell" where
  "cell_at m r c = (m (VGA_BUFFER + (r * 80 + c) * 2), m (VGA_BUFFER + (r * 80 + c) * 2 + 1))"

definition screen_of :: "memory \<Rightarrow> cell list list" where
  "screen_of m = map (\<lambda>r. map (cell_at m r) [0..<80]) [0..<25]"

definition terminal_of :: "display \<Rightarrow> terminal" where
  "terminal_of d = \<lparr>screen = screen_of (buffer d), cur_row = row (writer d), cur_col = col (writer d),
     ink = color (writer d)\<rparr>"

definition wf_display :: "display \<Rightarrow> bool" where
  "wf_display d \<longleftrightarrow> row (writer d) < 25 \<and> col (writer d) \<le> 80"

definition outside_same :: "display \<Rightarrow> display \<Rightarrow> bool" where
  "outside_same d d' \<longleftrightarrow> (\<forall>x. x \<notin> {VGA_BUFFER..<VGA_BUFFER + 4000} \<longrightarrow> buffer d' x = buffer d x)"

lemmas vga_consts = VGA_BUFFER_def VGA_WIDTH_def VGA_HEIGHT_def

lemma length_screen_of [simp]: "length (screen_of m) = 25" "r < 25 \<Longrightarrow> length (screen_of m ! r) = 80"
  by (simp_all add: screen_of_def)

lemma screen_of_nth [simp]: "r < 25 \<Longrightarrow> c < 80 \<Longrightarrow> screen_of m ! r ! c = cell_at m r c"
  by (simp add: screen_of_def)

lemma screen_of_eqI:
  assumes "length S = 25" "\<And>r. r < 25 \<Longrightarrow> length (S ! r) = 80"
    and "\<And>r c. r < 25 \<Longrightarrow> c < 80 \<Longrightarrow> cell_at m r c = S ! r ! c"
  shows "screen_of m = S"
  using assms by (intro nth_equalityI) (auto intro!: nth_equalityI simp: screen_of_def)

lemma outside_same_refl: "outside_same d d"
  by (simp add: outside_same_def)

lemma outside_same_trans: "outside_same d d' \<Longrightarrow> outside_same d' d'' \<Longrightarrow> outside_same d d''"
  by (simp add: outside_same_def)

section \<open>The operations\<close>

text \<open>Memory with \<open>n\<close> blank cells from \<open>base\<close> on.\<close>

definition blanked :: "nat \<Rightarrow> nat \<Rightarrow> u8 \<Rightarrow> memory \<Rightarrow> memory" where
  "blanked base n k m = (\<lambda>x. if VGA_BUFFER + base \<le> x \<and> x < VGA_BUFFER + base + 2 * n
     then (if even (x - (VGA_BUFFER + base)) then 0x20 else k) else m x)"

lemma blanked_0: "blanked base 0 k m = m"
  by (auto simp: blanked_def fun_eq_iff)

lemma blank_cells:
  "for_each (blank_cell base) [0..<n] d = (Inr (), d\<lparr>buffer := blanked base n (color (writer d)) (buffer d)\<rparr>)"
proof (induction n)
  case 0
  then show ?case by (simp add: blanked_0)
next
  case (Suc n)
  have "(blanked base n k m)(VGA_BUFFER + (base + n * 2) := 0x20, VGA_BUFFER + (base + (n * 2 + 1)) := k) =
      blanked base (Suc n) k m" for k m
  proof (rule ext)
    fix x
    consider "x < VGA_BUFFER + base + 2 * n" | "x = VGA_BUFFER + base + 2 * n"
      | "x = VGA_BUFFER + base + 2 * n + 1" | "VGA_BUFFER + base + 2 * n + 1 < x" by linarith
    then show "((blanked base n k m)(VGA_BUFFER + (base + n * 2) := 0x20,
        VGA_BUFFER + (base + (n * 2 + 1)) := k)) x = blanked base (Suc n) k m x"
      by cases (auto simp: blanked_def)
  qed
  with Suc show ?case
    by (simp add: for_each_append sbind_Inr blank_cell_def sbind_def vga_store_def)
qed

lemma cell_at_blanked:
  "cell_at (blanked (2 * a) n k m) r c =
     (if a \<le> r * 80 + c \<and> r * 80 + c < a + n then (0x20, k) else cell_at m r c)"
  by (auto simp: cell_at_def blanked_def)

lemma vga_clear_spec:
  "\<exists>d'. vga_clear d = (Inr (), d') \<and> writer d' = writer d \<and>
     terminal_of d' = term_clear (terminal_of d) \<and> outside_same d d'"
proof -
  let ?d = "d\<lparr>buffer := blanked 0 2000 (color (writer d)) (buffer d)\<rparr>"
  have "r * 80 + c < 2000" if "r < 25" "c < 80" for r c :: nat using that by linarith
  then have "screen_of (buffer ?d) = replicate 25 (blank_line (color (writer d)))"
    using cell_at_blanked [of 0] by (intro screen_of_eqI) (auto simp: blank_line_def)
  then have "terminal_of ?d = term_clear (terminal_of d)"
    by (simp add: terminal_of_def term_clear_def)
  moreover have "outside_same d ?d" by (auto simp: outside_same_def blanked_def)
  ultimately show ?thesis
    by (simp add: vga_clear_def blank_cells vga_consts)
qed

lemma scroll_spec:
  "\<exists>d'. scroll p d = (Inr (), d') \<and> writer d' = (writer d)\<lparr>row := 24\<rparr> \<and>
     screen_of (buffer d') = tl (screen_of (buffer d)) @ [blank_line (color (writer d))] \<and> outside_same d d'"
proof -
  let ?m = "buffer d" and ?k = "color (writer d)"
  let ?m1 = "store_bytes VGA_BUFFER (load_bytes ?m (VGA_BUFFER + 160) 3840) ?m"
  let ?d = "\<lparr>buffer = blanked 3840 80 ?k ?m1, writer = (writer d)\<lparr>row := 24\<rparr>\<rparr>"
  have copy: "volatile_copy p 1 (VGA_BUFFER + 160) VGA_BUFFER 3840 ?m = (Inr (), ?m1)"
    using volatile_copy_moved [of "VGA_BUFFER + 160" 3840 1 p VGA_BUFFER ?m] by (simp add: VGA_BUFFER_def)
  have run: "scroll p d = (Inr (), ?d)"
    using copy
    by (simp add: scroll_def VGA_WIDTH_def VGA_HEIGHT_def on_buffer_def sbind_def set_writer_def
        clear_row_def usize_mul_ok blank_cells)
  have "cell_at ?m1 r c = cell_at ?m (Suc r) c" if "r < 24" "c < 80" for r c
    using that by (auto simp: cell_at_def store_bytes_def load_bytes_def algebra_simps)
  then have "screen_of (buffer ?d) = tl (screen_of ?m) @ [blank_line ?k]"
    using cell_at_blanked [of 1920 80 ?k ?m1]
    by (intro screen_of_eqI) (auto simp: blank_line_def nth_append nth_tl less_Suc_eq)
  moreover have "outside_same d ?d"
    by (auto simp: outside_same_def blanked_def store_bytes_def)
  ultimately show ?thesis using run by auto
qed

lemma vga_newline_spec:
  assumes "wf_display d"
  shows "\<exists>d'. vga_newline p d = (Inr (), d') \<and> wf_display d' \<and> col (writer d') = 0 \<and>
    terminal_of d' = term_newline (terminal_of d) \<and> outside_same d d'"
proof (cases "row (writer d) < 24")
  case True
  then show ?thesis
    by (simp add: vga_newline_def set_writer_def sbind_def usize_add_ok wf_display_def terminal_of_def
        term_newline_def VGA_HEIGHT_def outside_same_refl outside_same_def)
next
  case False
  let ?d = "d\<lparr>writer := (writer d)\<lparr>col := 0, row := row (writer d) + 1\<rparr>\<rparr>"
  obtain d' where d': "scroll p ?d = (Inr (), d')" "writer d' = (writer ?d)\<lparr>row := 24\<rparr>"
    "screen_of (buffer d') = tl (screen_of (buffer ?d)) @ [blank_line (color (writer ?d))]"
    "outside_same ?d d'"
    using scroll_spec by blast
  have "row (writer d) = 24" using False assms by (simp add: wf_display_def)
  then have "vga_newline p d = scroll p ?d"
    by (simp add: vga_newline_def set_writer_def sbind_def usize_add_ok VGA_HEIGHT_def)
  then show ?thesis
    using d' False by (auto simp: wf_display_def terminal_of_def term_newline_def outside_same_def)
qed

lemma cell_offset: "r < 25 \<Longrightarrow> c < 80 \<Longrightarrow> (r * 80 + c) * 2 + 1 < (4000 :: nat)"
  by simp

lemma cell_at_put:
  assumes "c < 80" "c' < 80"
  shows "cell_at (m(VGA_BUFFER + (r * 80 + c) * 2 := b, VGA_BUFFER + ((r * 80 + c) * 2 + 1) := k)) r' c' =
    (if r' = r \<and> c' = c then (b, k) else cell_at m r' c')"
proof -
  have parity: "2 * i \<noteq> 2 * j + 1" for i j :: nat by presburger
  have "r' * 80 + c' = r * 80 + c \<longleftrightarrow> r' = r \<and> c' = c"
  proof
    assume e: "r' * 80 + c' = r * 80 + c"
    have "(r' * 80 + c') div 80 = r'" "(r * 80 + c) div 80 = r" using assms by simp_all
    then show "r' = r \<and> c' = c" using e by simp
  qed simp
  then show ?thesis
    using parity [of "r' * 80 + c'" "r * 80 + c"] parity [of "r * 80 + c" "r' * 80 + c'"]
    by (auto simp: cell_at_def mult.commute)
qed

lemma write_byte_put:
  assumes "row (writer d) < 25" "col (writer d) < 80" "b \<noteq> 0x0A"
  shows "\<exists>d'. write_byte p b d = (Inr (), d') \<and> wf_display d' \<and>
    terminal_of d' = term_put b (terminal_of d) \<and> outside_same d d'"
proof -
  let ?w = "writer d"
  let ?off = "(row ?w * 80 + col ?w) * 2"
  let ?m = "(buffer d)(VGA_BUFFER + ?off := b, VGA_BUFFER + (?off + 1) := color ?w)"
  let ?d = "\<lparr>buffer = ?m, writer = ?w\<lparr>col := col ?w + 1\<rparr>\<rparr>"
  have off: "?off + 1 < 4000" using cell_offset [OF assms(1,2)] .
  have run: "write_byte p b d = (Inr (), ?d)"
    using assms off
    by (simp add: write_byte_def VGA_WIDTH_def sbind_def usize_mul_ok usize_add_ok vga_store_def
        set_writer_def)
  have "screen_of ?m = (screen_of (buffer d))[row ?w := (screen_of (buffer d) ! row ?w)[col ?w := (b, color ?w)]]"
    using assms cell_at_put [of "col ?w" _ "buffer d" "row ?w" b "color ?w"]
    by (intro screen_of_eqI) (auto simp: nth_list_update)
  then have "terminal_of ?d = term_put b (terminal_of d)"
    by (simp add: terminal_of_def term_put_def)
  moreover have "outside_same d ?d" using off by (auto simp: outside_same_def)
  ultimately show ?thesis using run assms by (auto simp: wf_display_def)
qed

lemma write_byte_wrap:
  assumes "80 \<le> col (writer d)" "b \<noteq> 0x0A" "vga_newline p d = (Inr (), d1)" "col (writer d1) = 0"
  shows "write_byte p b d = write_byte p b d1"
  using assms by (simp add: write_byte_def sbind_def VGA_WIDTH_def)

lemma write_byte_spec:
  assumes "wf_display d"
  shows "\<exists>d'. write_byte p b d = (Inr (), d') \<and> wf_display d' \<and>
    terminal_of d' = term_byte b (terminal_of d) \<and> outside_same d d'"
proof -
  obtain d1 where d1: "vga_newline p d = (Inr (), d1)" "wf_display d1" "col (writer d1) = 0"
    "terminal_of d1 = term_newline (terminal_of d)" "outside_same d d1"
    using vga_newline_spec [OF assms] by blast
  consider "b = 0x0A" | "b \<noteq> 0x0A" "col (writer d) < 80" | "b \<noteq> 0x0A" "80 \<le> col (writer d)" by linarith
  then show ?thesis
  proof cases
    case 1
    then show ?thesis using d1 by (simp add: write_byte_def term_byte_def)
  next
    case 2
    then show ?thesis
      using write_byte_put [of d b p] assms by (simp add: wf_display_def term_byte_def terminal_of_def)
  next
    case 3
    then show ?thesis
      using write_byte_put [of d1 b p] write_byte_wrap [OF 3(2,1) d1(1,3)] d1 outside_same_trans [OF d1(5)]
      by (auto simp: wf_display_def term_byte_def terminal_of_def [of d])
  qed
qed

interpretation vga: text_console "write_byte p" wf_display terminal_of term_byte outside_same for p
  using write_byte_spec outside_same_refl outside_same_trans by unfold_locales

text \<open>Formatted output is the bytes of its pieces.\<close>

definition args_bytes :: "string list \<Rightarrow> u8 list" where
  "args_bytes args = concat (map as_bytes args)"

lemma write_fmt_bytes: "write_fmt p args d = vga_write p (args_bytes args) d"
proof -
  have "for_each (write_str p) args d = for_each (\<lambda>bs. for_each (write_byte p) bs) (map as_bytes args) d" for d
    by (induction args arbitrary: d)
      (simp_all add: write_str_def vga_write_def sbind_def split: prod.splits sum.splits)
  then show ?thesis
    by (simp add: write_fmt_def vga_write_def args_bytes_def vga.put_pieces)
qed

lemma write_fmt_spec:
  assumes "wf_display d"
  shows "\<exists>d'. write_fmt p args d = (Inr (), d') \<and> wf_display d' \<and>
    terminal_of d' = fold term_byte (args_bytes args) (terminal_of d) \<and> outside_same d d'"
  unfolding write_fmt_bytes vga_write_def by (rule vga.put_all [OF assms])

lemma printk_spec:
  assumes "wf_display d"
  shows "\<exists>d'. printk p args d = (Inr (), d') \<and> wf_display d' \<and>
    terminal_of d' = fold term_byte (args_bytes args) (terminal_of d) \<and> outside_same d d'"
  using write_fmt_spec [OF assms] by (simp add: printk_def print_args_def)

lemma term_byte_ink: "ink (term_byte b t) = ink t"
  by (simp add: term_byte_def term_put_def term_newline_def)

lemma fold_term_byte_ink: "ink (fold term_byte bs t) = ink t"
  by (induction bs arbitrary: t) (simp_all add: term_byte_ink)

lemma printk_color_spec:
  assumes "wf_display d"
  shows "\<exists>d'. printk_color p k args d = (Inr (), d') \<and> wf_display d' \<and>
    terminal_of d' = (fold term_byte (args_bytes args) ((terminal_of d)\<lparr>ink := k\<rparr>))\<lparr>ink := color (writer d)\<rparr> \<and>
    outside_same d d'"
proof -
  let ?d = "d\<lparr>writer := (writer d)\<lparr>color := k\<rparr>\<rparr>"
  obtain d' where d': "write_fmt p args ?d = (Inr (), d')" "wf_display d'"
    "terminal_of d' = fold term_byte (args_bytes args) (terminal_of ?d)" "outside_same ?d d'"
    using write_fmt_spec [of ?d p args] assms by (auto simp: wf_display_def)
  let ?d' = "d'\<lparr>writer := (writer d')\<lparr>color := color (writer d)\<rparr>\<rparr>"
  have "printk_color p k args d = (Inr (), ?d')"
    using d'(1) by (simp add: printk_color_def print_color_def sbind_def set_writer_def)
  moreover have "terminal_of ?d' = (terminal_of d')\<lparr>ink := color (writer d)\<rparr>"
    "terminal_of ?d = (terminal_of d)\<lparr>ink := k\<rparr>"
    by (simp_all add: terminal_of_def)
  ultimately show ?thesis
    using d'(2-4) by (auto simp: wf_display_def outside_same_def)
qed

end
