(* ===== verification/Vga_Properties.thy ===== *)
theory Vga_Properties
  imports Vga_Proofs
begin

text \<open>
  The properties of the console: refinement of the abstract terminal, the invariant over any
  history of calls, colour restoration, clearing, and what a printed line looks like.
\<close>

section \<open>Histories of calls\<close>

text \<open>One call of a public operation of the writer, with any arguments.\<close>

inductive console_step :: "profile \<Rightarrow> display \<Rightarrow> display \<Rightarrow> bool" for p :: profile where
  bytes: "vga_write p bs d = (r, d') \<Longrightarrow> console_step p d d'"
| byte: "write_byte p b d = (r, d') \<Longrightarrow> console_step p d d'"
| newline: "vga_newline p d = (r, d') \<Longrightarrow> console_step p d d'"
| reset: "vga_reset d = (r, d') \<Longrightarrow> console_step p d d'"
| clear: "vga_clear d = (r, d') \<Longrightarrow> console_step p d d'"
| formatted: "print_args p args d = (r, d') \<Longrightarrow> console_step p d d'"
| coloured: "print_color p k args d = (r, d') \<Longrightarrow> console_step p d d'"

lemma vga_reset_spec:
  "\<exists>d'. vga_reset d = (Inr (), d') \<and> wf_display d' \<and>
     terminal_of d' = term_clear ((terminal_of d)\<lparr>cur_row := 0, cur_col := 0\<rparr>) \<and> outside_same d d'"
proof -
  let ?d = "d\<lparr>writer := (writer d)\<lparr>col := 0, row := 0\<rparr>\<rparr>"
  obtain d' where d': "vga_clear ?d = (Inr (), d')" "writer d' = writer ?d"
    "terminal_of d' = term_clear (terminal_of ?d)" "outside_same ?d d'"
    using vga_clear_spec by blast
  have "vga_reset d = (Inr (), d')"
    using d'(1) by (simp add: vga_reset_def set_writer_def)
  moreover have "terminal_of ?d = (terminal_of d)\<lparr>cur_row := 0, cur_col := 0\<rparr>"
    by (simp add: terminal_of_def)
  ultimately show ?thesis
    using d'(2-4) by (auto simp: wf_display_def outside_same_def)
qed

lemma console_step_keeps:
  assumes "console_step p d d'" "wf_display d"
  shows "wf_display d' \<and> outside_same d d'"
  using assms(1)
proof cases
  case (bytes bs r)
  then show ?thesis using vga.put_all [OF assms(2), of p bs] by (auto simp: vga_write_def)
next
  case (byte b r)
  then show ?thesis using write_byte_spec [OF assms(2), of p b] by auto
next
  case (newline r)
  then show ?thesis using vga_newline_spec [OF assms(2), of p] by auto
next
  case (reset r)
  then show ?thesis using vga_reset_spec [of d] by auto
next
  case (clear r)
  then show ?thesis using vga_clear_spec [of d] assms(2) by (auto simp: wf_display_def)
next
  case (formatted args r)
  then show ?thesis using printk_spec [OF assms(2), of p args] by (auto simp: printk_def)
next
  case (coloured k args r)
  then show ?thesis using printk_color_spec [OF assms(2), of p k args] by (auto simp: printk_color_def)
qed

section \<open>A line of text\<close>

lemma fold_term_put:
  assumes "cur_col t + length bs \<le> 80" "0x0A \<notin> set bs"
  shows "fold term_byte bs t = fold term_put bs t"
  using assms
proof (induction bs arbitrary: t)
  case (Cons b bs)
  have "term_byte b t = term_put b t" using Cons.prems by (auto simp: term_byte_def)
  moreover have "cur_col (term_put b t) = cur_col t + 1" by (simp add: term_put_def)
  ultimately show ?case using Cons by simp
qed simp

text \<open>The cells of \<open>xs\<close> written into a line from column \<open>c\<close> on.\<close>

definition overlay :: "nat \<Rightarrow> 'a list \<Rightarrow> 'a list \<Rightarrow> 'a list" where
  "overlay c xs line = take c line @ xs @ drop (c + length xs) line"

lemma overlay_step:
  assumes "c < length line"
  shows "overlay (c + 1) xs (line[c := x]) = overlay c (x # xs) line"
  using assms by (simp add: overlay_def take_Suc_conv_app_nth take_update_cancel)

lemma fold_put_line:
  assumes "cur_row t < length (screen t)" "cur_col t + length bs \<le> length (screen t ! cur_row t)"
  shows "fold term_put bs t =
    t\<lparr>screen := (screen t)[cur_row t := overlay (cur_col t) (map (\<lambda>b. (b, ink t)) bs) (screen t ! cur_row t)],
      cur_col := cur_col t + length bs\<rparr>"
  using assms
proof (induction bs arbitrary: t)
  case Nil
  then show ?case by (simp add: overlay_def)
next
  case (Cons b bs)
  let ?t = "term_put b t"
  have "cur_col t < length (screen t ! cur_row t)" using Cons.prems by simp
  note step = overlay_step [OF this, of "map (\<lambda>b. (b, ink t)) bs" "(b, ink t)"]
  have "fold term_put bs ?t =
    ?t\<lparr>screen := (screen ?t)[cur_row ?t := overlay (cur_col ?t) (map (\<lambda>b. (b, ink ?t)) bs) (screen ?t ! cur_row ?t)],
      cur_col := cur_col ?t + length bs\<rparr>"
    using Cons.prems by (intro Cons.IH) (simp_all add: term_put_def)
  then show ?case using Cons.prems(1) step by (simp add: term_put_def [of b t])
qed

section \<open>Properties\<close>

text \<open>
  C6: the console implements the abstract terminal.  Writing any bytes from a well-formed display
  returns, leaves a well-formed display whose screen, cursor and colour are those the terminal
  reaches byte by byte, and writes nothing outside the 4000 bytes of the VGA buffer.
\<close>

theorem vga_write_refines_terminal:
  assumes "wf_display d"
  shows "\<exists>d'. vga_write p bs d = (Inr (), d') \<and> wf_display d' \<and>
    terminal_of d' = fold term_byte bs (terminal_of d) \<and> outside_same d d'"
  unfolding vga_write_def by (rule vga.put_all [OF assms])

definition fresh_display :: display where
  "fresh_display = \<lparr>buffer = (\<lambda>_. 0), writer = vga_writer_new\<rparr>"

lemma fresh_display_ok: "wf_display fresh_display"
  by (simp add: fresh_display_def wf_display_def vga_writer_new_def)

theorem vga_write_refines_terminal_witness:
  "\<exists>d'. vga_write Debug [0x48, 0x0A, 0x69] fresh_display = (Inr (), d') \<and>
     cur_row (terminal_of d') = 1 \<and> cur_col (terminal_of d') = 1"
  using vga_write_refines_terminal [OF fresh_display_ok, of Debug "[0x48, 0x0A, 0x69]"]
  by (auto simp: fresh_display_def vga_writer_new_def terminal_of_def term_byte_def term_newline_def
      term_put_def)

text \<open>
  C16: the cursor invariant over any history.  After any sequence of calls of the writer's
  operations, with any arguments, starting from the initial writer, the cursor is inside the screen
  and every byte of memory outside the VGA buffer is as it was.
\<close>

theorem console_history_safe:
  assumes "(console_step p)\<^sup>*\<^sup>* \<lparr>buffer = m, writer = vga_writer_new\<rparr> d"
  shows "row (writer d) < VGA_HEIGHT \<and> col (writer d) \<le> VGA_WIDTH \<and>
    (\<forall>x. x < VGA_BUFFER \<or> VGA_BUFFER + VGA_WIDTH * VGA_HEIGHT * 2 \<le> x \<longrightarrow> buffer d x = m x)"
proof -
  have "wf_display d \<and> outside_same \<lparr>buffer = m, writer = vga_writer_new\<rparr> d"
    using assms
  proof (induction rule: rtranclp_induct)
    case base
    then show ?case by (simp add: wf_display_def vga_writer_new_def outside_same_refl)
  next
    case (step d d')
    then show ?case using console_step_keeps outside_same_trans by blast
  qed
  then show ?thesis
    by (auto simp: wf_display_def outside_same_def VGA_WIDTH_def VGA_HEIGHT_def)
qed

theorem console_history_safe_witness:
  "\<exists>d. (console_step Debug)\<^sup>*\<^sup>* \<lparr>buffer = (\<lambda>_. 0), writer = vga_writer_new\<rparr> d \<and> row (writer d) < VGA_HEIGHT"
proof -
  obtain d where "vga_reset \<lparr>buffer = (\<lambda>_. 0), writer = vga_writer_new\<rparr> = (Inr (), d)"
    using vga_reset_spec by blast
  then have "(console_step Debug)\<^sup>*\<^sup>* \<lparr>buffer = (\<lambda>_. 0), writer = vga_writer_new\<rparr> d"
    by (intro r_into_rtranclp console_step.reset)
  then show ?thesis using console_history_safe by blast
qed

text \<open>
  C31: coloured output.  \<open>print_color\<close> prints its text as \<open>print_args\<close> would after changing the
  colour, and then restores the colour the writer had.  How the text is cut into pieces makes no
  difference.
\<close>

theorem print_color_restores:
  assumes "wf_display d"
  shows "\<exists>d' d''. print_color p k args d = (Inr (), d') \<and> color (writer d') = color (writer d) \<and>
    print_args p [concat args] (d\<lparr>writer := (writer d)\<lparr>color := k\<rparr>\<rparr>) = (Inr (), d'') \<and>
    color (writer d'') = k \<and> d' = d''\<lparr>writer := (writer d'')\<lparr>color := color (writer d)\<rparr>\<rparr>"
proof -
  let ?d = "d\<lparr>writer := (writer d)\<lparr>color := k\<rparr>\<rparr>"
  have wf: "wf_display ?d" using assms by (simp add: wf_display_def)
  have "args_bytes [concat args] = args_bytes args"
    by (simp add: args_bytes_def as_bytes_def [abs_def] map_concat)
  then have same: "write_fmt p args ?d = print_args p [concat args] ?d"
    by (simp add: print_args_def write_fmt_bytes)
  obtain d'' where d'': "write_fmt p args ?d = (Inr (), d'')"
    "terminal_of d'' = fold term_byte (args_bytes args) (terminal_of ?d)"
    using write_fmt_spec [OF wf] by blast
  have "ink (terminal_of d'') = k"
    unfolding d''(2) fold_term_byte_ink by (simp add: terminal_of_def)
  then have "color (writer d'') = k" by (simp add: terminal_of_def)
  moreover have "print_color p k args d = (Inr (), d''\<lparr>writer := (writer d'')\<lparr>color := color (writer d)\<rparr>\<rparr>)"
    using d''(1) by (simp add: print_color_def sbind_def set_writer_def)
  moreover have "print_args p [concat args] ?d = (Inr (), d'')" using same d''(1) by simp
  ultimately show ?thesis by simp
qed

theorem print_color_restores_witness:
  "\<exists>d'. print_color Debug 0x4F [''KERNEL'', '' PANIC''] fresh_display = (Inr (), d') \<and>
     color (writer d') = 0x0F"
  using print_color_restores [OF fresh_display_ok, of Debug "0x4F" "[''KERNEL'', '' PANIC'']"]
  by (auto simp: fresh_display_def vga_writer_new_def)

text \<open>
  C32: resetting the display homes the cursor and blanks every cell in the writer's colour, whatever
  the state before; clearing does the same to the cells and leaves the cursor.
\<close>

theorem vga_reset_blank:
  "(\<exists>d'. vga_reset d = (Inr (), d') \<and> row (writer d') = 0 \<and> col (writer d') = 0 \<and>
     screen_of (buffer d') = replicate 25 (replicate 80 (0x20, color (writer d)))) \<and>
   (\<exists>d'. vga_clear d = (Inr (), d') \<and> writer d' = writer d \<and>
     screen_of (buffer d') = replicate 25 (replicate 80 (0x20, color (writer d))))"
proof
  show "\<exists>d'. vga_reset d = (Inr (), d') \<and> row (writer d') = 0 \<and> col (writer d') = 0 \<and>
     screen_of (buffer d') = replicate 25 (replicate 80 (0x20, color (writer d)))"
    using vga_reset_spec [of d] by (auto simp: terminal_of_def term_clear_def blank_line_def)
  show "\<exists>d'. vga_clear d = (Inr (), d') \<and> writer d' = writer d \<and>
     screen_of (buffer d') = replicate 25 (replicate 80 (0x20, color (writer d)))"
    using vga_clear_spec [of d] by (auto simp: terminal_of_def term_clear_def blank_line_def)
qed

text \<open>
  C30: a printed line.  Text without a newline that fits behind the cursor appears at the cursor in
  the current colour; the rest of its line and every other line stay as they were, and the cursor
  stands behind the text.
\<close>

theorem printed_line_visible:
  assumes "wf_display d" "col (writer d) + length bs \<le> VGA_WIDTH" "0x0A \<notin> set bs"
  shows "\<exists>d'. vga_write p bs d = (Inr (), d') \<and>
    row (writer d') = row (writer d) \<and> col (writer d') = col (writer d) + length bs \<and>
    screen_of (buffer d') = (screen_of (buffer d))[row (writer d) :=
      overlay (col (writer d)) (map (\<lambda>b. (b, color (writer d))) bs) (screen_of (buffer d) ! row (writer d))]"
proof -
  obtain d' where d': "vga_write p bs d = (Inr (), d')" "terminal_of d' = fold term_byte bs (terminal_of d)"
    using vga.put_all [OF assms(1), of p bs] by (auto simp: vga_write_def)
  have "fold term_byte bs (terminal_of d) = fold term_put bs (terminal_of d)"
    using assms(2,3) by (intro fold_term_put) (simp_all add: terminal_of_def VGA_WIDTH_def)
  also have "\<dots> = (terminal_of d)\<lparr>screen := (screen_of (buffer d))[row (writer d) :=
      overlay (col (writer d)) (map (\<lambda>b. (b, color (writer d))) bs) (screen_of (buffer d) ! row (writer d))],
      cur_col := col (writer d) + length bs\<rparr>"
    using assms(1,2) fold_put_line [of "terminal_of d" bs]
    by (simp add: terminal_of_def wf_display_def VGA_WIDTH_def)
  finally show ?thesis
    using d' by (auto simp: terminal_of_def)
qed

theorem printed_line_visible_witness:
  "\<exists>d'. vga_write Debug [0x48, 0x69] fresh_display = (Inr (), d') \<and>
     take 3 (screen_of (buffer d') ! 0) = [(0x48, 0x0F), (0x69, 0x0F), (0, 0)]"
proof -
  have "screen_of (\<lambda>_. 0) = replicate 25 (replicate 80 (0, 0))"
    by (rule screen_of_eqI) (simp_all add: cell_at_def)
  moreover obtain d' where "vga_write Debug [0x48, 0x69] fresh_display = (Inr (), d')"
    "screen_of (buffer d') = (screen_of (\<lambda>_. 0))[0 := overlay 0 [(0x48, 0x0F), (0x69, 0x0F)] (screen_of (\<lambda>_. 0) ! 0)]"
    using printed_line_visible [OF fresh_display_ok, of "[0x48, 0x69]" Debug]
    by (auto simp: fresh_display_def vga_writer_new_def VGA_WIDTH_def)
  ultimately show ?thesis by (simp add: overlay_def)
qed

end
