(* ===== verification/Kernel.thy ===== *)
theory Kernel
  imports Paging_Properties Vga_Properties
begin

text \<open>
  The kernel above its components: the stack dump of \<open>src/src/stack.rs\<close>, \<open>print_memory_map\<close> of
  \<open>src/src/multiboot.rs\<close>, \<open>init\<close> of \<open>src/src/memory/mod.rs\<close>, and the entry point and the panic
  handler of \<open>src/src/lib.rs\<close>.

  The state extends the paging machine by the other statics of the kernel, \<open>VGA_WRITER\<close> and
  \<open>PANICKING\<close>.  The console writes to the same memory the page tables and the loader's structures
  live in; that memory is physical, and the VGA buffer and the loader's structures are reached
  through the identity map of low addresses.  The stack is read through the page tables, so that an
  unmapped address is a fault.

  Three things the sources do not determine are parameters: the text \<open>PanicInfo\<close> displays for a
  panic, the stack pointer at the dump, and the address of the loader's structure.
\<close>

section \<open>State\<close>

record kernel = machine +
  vga_static :: vga_writer
  panicking :: bool

text \<open>Running a console operation on \<open>VGA_WRITER\<close>.\<close>

definition on_display :: "(display, 'a) st \<Rightarrow> (kernel, 'a) st" where
  "on_display m = (\<lambda>s. case m \<lparr>buffer = mem s, writer = vga_static s\<rparr> of
     (r, d) \<Rightarrow> (r, s\<lparr>mem := buffer d, vga_static := writer d\<rparr>))"

abbreviation line_feed :: string where
  "line_feed \<equiv> [CHR 0x0A]"

section \<open>Stack dump\<close>

text \<open>A volatile read of an aligned dword, through the page tables.\<close>

definition read_dword :: "usize \<Rightarrow> (kernel, u32) st" where
  "read_dword a = reads (\<lambda>s. case mmu_walk (mem s) (cr3 s) (VirtAddr (of_nat a)) of
     None \<Rightarrow> Inl (Page_Fault a) | Some t \<Rightarrow> Inr (load32 (mem s) (target t)))"

definition dump_dword :: "profile \<Rightarrow> usize \<Rightarrow> usize \<Rightarrow> (kernel, unit) st" where
  "dump_dword p addr i =
     sbind (lift (rbind (usize_mul p i 4) (usize_add p addr))) (\<lambda>addr.
     sbind (read_dword addr) (\<lambda>value.
     on_display (printk p [fmt_hex 10 addr, '': '', fmt_hex 10 (unat value), line_feed])))"

definition dump_stack_from :: "profile \<Rightarrow> layout \<Rightarrow> usize \<Rightarrow> usize \<Rightarrow> (kernel, unit) st" where
  "dump_stack_from p L addr dword_count =
     sbind (on_display (printk p [''stack dump: ''])) (\<lambda>_.
     let misalignment = addr mod 4 in
     sbind (lift (usize_sub p addr misalignment)) (\<lambda>addr.
     let sb = stack_bottom_addr L; st = stack_top_addr L in
     if addr < sb \<or> st \<le> addr then
       on_display (printk p [fmt_hex 10 addr, '' not within stack bounds '', fmt_hex 10 sb, ''-'',
         fmt_hex 10 st, line_feed])
     else
       sbind (lift (usize_sub p st addr)) (\<lambda>room.
       let available_dwords = room div 4;
           dword_count = min dword_count available_dwords in
       sbind (on_display (printk p [fmt_dec dword_count, ''/'', fmt_dec available_dwords])) (\<lambda>_.
       sbind (if misalignment \<noteq> 0
              then sbind (lift (usize_add p addr misalignment)) (\<lambda>a.
                on_display (printk p ['' misaligned start address '', fmt_hex 10 a]))
              else ret ()) (\<lambda>_.
       sbind (on_display (printk p [line_feed])) (\<lambda>_.
       for_each (dump_dword p addr) [0..<dword_count]))))))"

text \<open>\<open>dump_stack!\<close>; \<open>esp\<close> is the register value \<open>current_esp!\<close> reads.\<close>

definition dump_stack :: "profile \<Rightarrow> layout \<Rightarrow> usize \<Rightarrow> usize \<Rightarrow> (kernel, unit) st" where
  "dump_stack p L esp dword_count = dump_stack_from p L esp dword_count"

section \<open>The loader's structure\<close>

text \<open>\<open>MultibootInfo\<close> at an address, with its \<open>repr(C)\<close> offsets\<close>

definition read_info :: "memory \<Rightarrow> usize \<Rightarrow> multiboot_info" where
  "read_info m a =
     \<lparr>mbi_flags = load32 m a,
      mbi_reserved = map (\<lambda>i. load32 m (a + 4 + 4 * i)) [0..<10],
      mbi_mmap_length = load32 m (a + 44),
      mbi_mmap_addr = load32 m (a + 48)\<rparr>"

definition memory_map_at :: "usize \<Rightarrow> kernel \<Rightarrow> memory_map option" where
  "memory_map_at info s = info_memory_map (mem s) (read_info (mem s) info)"

text \<open>The loop of \<open>print_memory_map\<close> has the console and the sum \<open>usable_bytes\<close> as its state.\<close>

definition print_region :: "profile \<Rightarrow> memory_region \<Rightarrow> (kernel \<times> u64, unit) st" where
  "print_region p region =
     (\<lambda>(s, usable).
        case on_display (printk p [region_line region, line_feed]) s of
          (Inl e, s') \<Rightarrow> (Inl e, (s', usable))
        | (Inr _, s') \<Rightarrow>
            if region_is_available region
            then (case u64_add p usable (addressable_bytes region) of
                    Inl e \<Rightarrow> (Inl e, (s', usable))
                  | Inr usable' \<Rightarrow> (Inr (), (s', usable')))
            else (Inr (), (s', usable)))"

definition print_regions :: "profile \<Rightarrow> memory_map \<Rightarrow> (kernel, u64) dst" where
  "print_regions p mmap s =
     map_option (\<lambda>(r, (s', usable)). (case r of Inl e \<Rightarrow> Inl e | Inr _ \<Rightarrow> Inr usable, s'))
       (for_regions p (print_region p) mmap (s, 0))"

definition print_memory_map :: "profile \<Rightarrow> usize \<Rightarrow> (kernel, unit) dst" where
  "print_memory_map p info s =
     (case memory_map_at info s of
        None \<Rightarrow> total_st (on_display (printk_color p (color_u8 Yellow)
          [''multiboot: no memory map provided'', line_feed])) s
      | Some mmap \<Rightarrow>
          dbind (total_st (on_display (printk p [''multiboot memory map:'', line_feed]))) (\<lambda>_.
          dbind (print_regions p mmap) (\<lambda>usable_bytes.
          total_st (on_display (printk p
            [''usable RAM: '', fmt_dec (unat (usable_bytes div 1024)), '' KiB'', line_feed])))) s)"

section \<open>Bringing memory online\<close>

definition init_frames :: "profile \<Rightarrow> layout \<Rightarrow> memory_map \<Rightarrow> (kernel, unit) dst" where
  "init_frames p L mmap s =
     map_option (\<lambda>(r, fb). (r, s\<lparr>frame_alloc := fb\<rparr>)) (frame_init p L mmap (frame_alloc s))"

definition memory_init :: "profile \<Rightarrow> layout \<Rightarrow> usize \<Rightarrow> (kernel, unit) dst" where
  "memory_init p L info s =
     (case memory_map_at info s of
        None \<Rightarrow> Some (Inl No_Memory_Map, s)
      | Some mmap \<Rightarrow> dbind (init_frames p L mmap) (\<lambda>_. total_st (paging_init p L)) s)"

section \<open>Entry point\<close>

text \<open>\<open>kernel_main\<close> up to its final spin loop.\<close>

definition kernel_main :: "profile \<Rightarrow> layout \<Rightarrow> u32 \<Rightarrow> usize \<Rightarrow> (kernel, unit) dst" where
  "kernel_main p L magic info =
     (if magic \<noteq> BOOTLOADER_MAGIC then total_st (throw (Not_Multiboot magic))
      else
        dbind (total_st (on_display vga_clear)) (\<lambda>_.
        dbind (total_st (on_display (printk p [''zkrnl32 booting'', line_feed]))) (\<lambda>_.
        dbind (print_memory_map p info) (\<lambda>_.
        dbind (memory_init p L info) (\<lambda>_.
        total_st (on_display (printk p
          [''memory: paging active, frame allocator online'', line_feed])))))))"

section \<open>The panic handler\<close>

definition panic_report ::
  "profile \<Rightarrow> layout \<Rightarrow> string list \<Rightarrow> usize \<Rightarrow> (kernel, unit) st" where
  "panic_report p L info esp =
     sbind (on_display (printk_color p (color_on White Red)
       ([line_feed, ''KERNEL PANIC'', line_feed] @ info @ [line_feed]))) (\<lambda>_.
     dump_stack p L esp 16)"

text \<open>
  Where execution ends: spinning at the end of \<open>kernel_main\<close>, halted by the panic handler, or reset by
  a page fault.
\<close>

datatype outcome = Spins kernel | Halts kernel | Resets kernel

lemma on_display_panicking: "panicking (snd (on_display m s)) = panicking s"
  by (simp add: on_display_def split: prod.splits)

lemma dump_stack_panicking: "panicking (snd (dump_stack_from p L addr n s)) = panicking s"
proof -
  have dword: "panicking (snd (dump_dword p a i s)) = panicking s" for a i s
    unfolding dump_dword_def read_dword_def by (intro sbind_keeps on_display_panicking) simp_all
  note loop = for_each_keeps [of panicking "dump_dword p _", OF dword]
  show ?thesis
    unfolding dump_stack_from_def Let_def
    by (intro sbind_keeps) (simp_all add: on_display_panicking sbind_keeps loop)
qed

lemma panic_report_panicking: "panicking (snd (panic_report p L info esp s)) = panicking s"
  unfolding panic_report_def dump_stack_def by (intro sbind_keeps on_display_panicking dump_stack_panicking)

text \<open>
  A panic while the handler prints enters the handler again.  \<open>show_info\<close> is the text of the panic's
  \<open>PanicInfo\<close>; the recursion ends because of \<open>PANICKING\<close>.
\<close>

function panic_handler ::
  "profile \<Rightarrow> layout \<Rightarrow> (panic \<Rightarrow> string list) \<Rightarrow> usize \<Rightarrow> panic \<Rightarrow> kernel \<Rightarrow> outcome" where
  "panic_handler p L show_info esp e s =
     (if panicking s then Halts s
      else
        case panic_report p L (show_info e) esp (s\<lparr>panicking := True\<rparr>) of
          (Inr _, s') \<Rightarrow> Halts s'
        | (Inl (Page_Fault a), s') \<Rightarrow> Resets s'
        | (Inl e', s') \<Rightarrow> panic_handler p L show_info esp e' s')"
  by pat_completeness auto
termination
proof (relation "measure (\<lambda>(p, L, show_info, esp, e, s). if panicking s then 0 else 1 :: nat)")
qed (auto dest: arg_cong [where f = "\<lambda>x. panicking (snd x)"] simp: panic_report_panicking)

declare panic_handler.simps [simp del]

text \<open>A run of the kernel from the call of \<open>kernel_main\<close>; \<open>None\<close> if the walk of the map never ends.\<close>

definition run_kernel ::
  "profile \<Rightarrow> layout \<Rightarrow> (panic \<Rightarrow> string list) \<Rightarrow> usize \<Rightarrow> u32 \<Rightarrow> usize \<Rightarrow> kernel \<Rightarrow> outcome option" where
  "run_kernel p L show_info esp magic info s =
     (case kernel_main p L magic info s of
        None \<Rightarrow> None
      | Some (Inr _, s') \<Rightarrow> Some (Spins s')
      | Some (Inl (Page_Fault a), s') \<Rightarrow> Some (Resets s')
      | Some (Inl e, s') \<Rightarrow> Some (panic_handler p L show_info esp e s'))"

end
