(* ===== verification/Kernel_Proofs.thy ===== *)
theory Kernel_Proofs
  imports Kernel
begin

text \<open>
  What the kernel's operations do to the console, to memory and to the translation.  \<open>shown\<close> is the
  effect of output: a change of the abstract terminal and of the VGA buffer, and nothing else.
\<close>

section \<open>Output\<close>

definition display_of :: "kernel \<Rightarrow> display" where
  "display_of s = \<lparr>buffer = mem s, writer = vga_static s\<rparr>"

abbreviation console_ok :: "kernel \<Rightarrow> bool" where
  "console_ok s \<equiv> wf_display (display_of s)"

abbreviation console_of :: "kernel \<Rightarrow> terminal" where
  "console_of s \<equiv> terminal_of (display_of s)"

definition vga_bytes :: "nat set" where
  "vga_bytes = {VGA_BUFFER..<VGA_BUFFER + 4000}"

definition shown :: "(terminal \<Rightarrow> terminal) \<Rightarrow> kernel \<Rightarrow> kernel \<Rightarrow> bool" where
  "shown f s s' \<longleftrightarrow> console_ok s' \<and> console_of s' = f (console_of s) \<and>
     frame_alloc s' = frame_alloc s \<and> cr3 s' = cr3 s \<and> cr0 s' = cr0 s \<and> panicking s' = panicking s \<and>
     (\<forall>x. x \<notin> vga_bytes \<longrightarrow> mem s' x = mem s x)"

definition term_print :: "string list \<Rightarrow> terminal \<Rightarrow> terminal" where
  "term_print args = fold term_byte (args_bytes args)"

definition term_print_color :: "u8 \<Rightarrow> string list \<Rightarrow> terminal \<Rightarrow> terminal" where
  "term_print_color k args t = (term_print args (t\<lparr>ink := k\<rparr>))\<lparr>ink := ink t\<rparr>"

lemma term_print_append: "term_print (xs @ ys) t = term_print ys (term_print xs t)"
  by (simp add: term_print_def args_bytes_def)

lemma term_print_Nil: "term_print [] t = t"
  by (simp add: term_print_def args_bytes_def)

lemma shown_ok: "shown f s s' \<Longrightarrow> console_ok s'"
  by (simp add: shown_def)

lemma shown_refl: "console_ok s \<Longrightarrow> shown (term_print []) s s"
  by (simp add: shown_def term_print_Nil)

lemma shown_trans: "shown f s s' \<Longrightarrow> shown g s' s'' \<Longrightarrow> shown (\<lambda>t. g (f t)) s s''"
  by (simp add: shown_def)

lemma shown_append: "shown (term_print xs) s s' \<Longrightarrow> shown (term_print ys) s' s'' \<Longrightarrow> shown (term_print (xs @ ys)) s s''"
  by (simp add: shown_def term_print_append)

lemma on_display_shown:
  assumes "m (display_of s) = (Inr (), d')" "wf_display d'" "terminal_of d' = f (console_of s)"
    and "outside_same (display_of s) d'"
  shows "\<exists>s'. on_display m s = (Inr (), s') \<and> shown f s s'"
  using assms
  by (cases d') (auto simp: on_display_def shown_def display_of_def outside_same_def vga_bytes_def)

text \<open>The kernel as a console: writing a byte meets the contract of \<open>text_console\<close>.\<close>

definition only_screen :: "kernel \<Rightarrow> kernel \<Rightarrow> bool" where
  "only_screen s s' \<longleftrightarrow> frame_alloc s' = frame_alloc s \<and> cr3 s' = cr3 s \<and> cr0 s' = cr0 s \<and>
     panicking s' = panicking s \<and> (\<forall>x. x \<notin> vga_bytes \<longrightarrow> mem s' x = mem s x)"

lemma shown_iff: "shown f s s' \<longleftrightarrow> console_ok s' \<and> console_of s' = f (console_of s) \<and> only_screen s s'"
  by (simp add: shown_def only_screen_def)

interpretation kernel_console:
  text_console "\<lambda>b. on_display (write_byte p b)" console_ok console_of term_byte only_screen for p
proof (unfold_locales, goal_cases)
  case (1 s b)
  from write_byte_spec [OF 1, of p b] show ?case
    by (auto simp: shown_iff [symmetric] intro: on_display_shown)
qed (simp_all add: only_screen_def)

lemma on_display_sbind: "on_display (sbind m f) = sbind (on_display m) (\<lambda>x. on_display (f x))"
proof
  fix s :: kernel
  obtain r b w where "m \<lparr>buffer = mem s, writer = vga_static s\<rparr> = (r, \<lparr>buffer = b, writer = w\<rparr>)"
    by (metis display.cases_scheme old.unit.exhaust surj_pair)
  then show "on_display (sbind m f) s = sbind (on_display m) (\<lambda>x. on_display (f x)) s"
    by (cases r) (simp_all add: on_display_def sbind_def split: prod.split)
qed

lemma on_display_for_each: "on_display (for_each f xs) = for_each (\<lambda>x. on_display (f x)) xs"
  by (induction xs) (simp_all add: on_display_sbind, simp add: on_display_def ret_def fun_eq_iff)

lemma print_shown:
  assumes "console_ok s"
  shows "\<exists>s'. on_display (printk p args) s = (Inr (), s') \<and> shown (term_print args) s s'"
proof -
  have "on_display (printk p args) s = for_each (\<lambda>b. on_display (write_byte p b)) (args_bytes args) s"
    unfolding on_display_for_each [symmetric]
    by (simp add: on_display_def printk_def print_args_def write_fmt_bytes vga_write_def)
  then show ?thesis
    using kernel_console.put_all [OF assms, of p "args_bytes args"] by (simp add: shown_iff term_print_def)
qed

lemma print_color_shown:
  assumes "console_ok s"
  shows "\<exists>s'. on_display (printk_color p k args) s = (Inr (), s') \<and> shown (term_print_color k args) s s'"
proof -
  have "ink (console_of s) = color (writer (display_of s))" by (simp add: terminal_of_def)
  then show ?thesis
    using printk_color_spec [OF assms, of p k args]
    by (auto simp: term_print_color_def term_print_def intro: on_display_shown)
qed

lemma clear_shown:
  assumes "console_ok s"
  shows "\<exists>s'. on_display vga_clear s = (Inr (), s') \<and> shown term_clear s s'"
  using vga_clear_spec [of "display_of s"] assms by (auto simp: wf_display_def intro: on_display_shown)

text \<open>A computation that returns and has printed \<open>text\<close>, and how such computations compose.\<close>

definition says :: "(kernel, unit) st \<Rightarrow> string list \<Rightarrow> kernel \<Rightarrow> bool" where
  "says m text s \<longleftrightarrow> (\<exists>s'. m s = (Inr (), s') \<and> shown (term_print text) s s')"

lemma says_print: "console_ok s \<Longrightarrow> says (on_display (printk p args)) args s"
  by (simp add: says_def print_shown)

lemma says_ret: "console_ok s \<Longrightarrow> says (ret ()) [] s"
  by (simp add: says_def shown_refl)

lemma says_bind:
  assumes "says m xs s" "\<And>s'. shown (term_print xs) s s' \<Longrightarrow> says (f ()) ys s'"
  shows "says (sbind m f) (xs @ ys) s"
proof -
  obtain s' where s': "m s = (Inr (), s')" "shown (term_print xs) s s'" using assms(1) by (auto simp: says_def)
  then show ?thesis
    using assms(2) [OF s'(2)] by (auto simp: says_def sbind_Inr intro: shown_append)
qed

lemma sbind_lift: "sbind (lift (Inr x)) f = f x"
  by (simp add: fun_eq_iff)

lemma says_loop:
  assumes "console_ok s"
    and "\<And>x pre t. x \<in> set xs \<Longrightarrow> shown (term_print pre) s t \<Longrightarrow> says (body x) (g x) t"
  shows "says (for_each body xs) (concat (map g xs)) s"
proof -
  have "\<exists>s'. for_each body xs s = (Inr (), s') \<and> shown (term_print (concat (map g xs))) s s'"
  proof (rule for_each_invariant [where I = "\<lambda>pre t. shown (term_print (concat (map g pre))) s t"])
    fix pre x post t
    assume "xs = pre @ x # post" and t: "shown (term_print (concat (map g pre))) s t"
    then have "says (body x) (g x) t" by (intro assms(2)) simp_all
    with t show "\<exists>s'. body x t = (Inr (), s') \<and> shown (term_print (concat (map g (pre @ [x])))) s s'"
      by (auto simp: says_def intro: shown_append)
  qed (simp add: shown_refl assms(1))
  then show ?thesis by (simp add: says_def)
qed

section \<open>The stack dump\<close>

text \<open>The stack is mapped onto its physical memory, whatever the screen shows.\<close>

definition stack_mapped :: "layout \<Rightarrow> kernel \<Rightarrow> bool" where
  "stack_mapped L s \<longleftrightarrow>
     (\<forall>m a. (\<forall>x. x \<notin> vga_bytes \<longrightarrow> m x = mem s x) \<longrightarrow> stack_bottom L \<le> a \<longrightarrow> a < stack_top L \<longrightarrow>
        (\<exists>t. mmu_walk m (cr3 s) (VirtAddr (of_nat a)) = Some t \<and> target t = a - KERNEL_VIRTUAL_BASE))"

lemma stack_mapped_shown: "stack_mapped L s \<Longrightarrow> shown f s s' \<Longrightarrow> stack_mapped L s'"
  by (simp add: stack_mapped_def shown_def)

definition dword_line :: "memory \<Rightarrow> nat \<Rightarrow> string list" where
  "dword_line m a =
     [fmt_hex 10 a, '': '', fmt_hex 10 (unat (load32 m (a - KERNEL_VIRTUAL_BASE))), line_feed]"

text \<open>The dwords a dump shows: as many as asked for, but none outside the stack.\<close>

definition dumped :: "layout \<Rightarrow> nat \<Rightarrow> nat \<Rightarrow> nat list" where
  "dumped L addr n =
     (let a = addr - addr mod 4 in map (\<lambda>i. a + 4 * i) [0..<min n ((stack_top L - a) div 4)])"

definition stack_report :: "layout \<Rightarrow> memory \<Rightarrow> nat \<Rightarrow> nat \<Rightarrow> string list" where
  "stack_report L m addr n =
     (let a = addr - addr mod 4 in
      ''stack dump: '' #
      (if a < stack_bottom L \<or> stack_top L \<le> a
       then [fmt_hex 10 a, '' not within stack bounds '', fmt_hex 10 (stack_bottom L), ''-'',
             fmt_hex 10 (stack_top L), line_feed]
       else [fmt_dec (length (dumped L addr n)), ''/'', fmt_dec ((stack_top L - a) div 4)] @
         (if addr mod 4 \<noteq> 0 then ['' misaligned start address '', fmt_hex 10 addr] else []) @
         [line_feed] @ concat (map (dword_line m) (dumped L addr n))))"

lemma stack_extent:
  assumes "layout_ok L"
  shows "KERNEL_VIRTUAL_BASE + 0x200000 \<le> stack_bottom L" "stack_top L \<le> KERNEL_VIRTUAL_BASE + 0x400000"
    "4 dvd stack_bottom L" "4 dvd stack_top L" "stack_top L = stack_bottom L + 65536"
proof -
  note L = assms [unfolded layout_ok_def]
  show "KERNEL_VIRTUAL_BASE + 0x200000 \<le> stack_bottom L" "stack_top L \<le> KERNEL_VIRTUAL_BASE + 0x400000"
    "stack_top L = stack_bottom L + 65536" using L by linarith+
  have "4 dvd stack_guard L" using L by (auto intro: dvd_trans [of 4 4096])
  then show "4 dvd stack_bottom L" "4 dvd stack_top L" using L by simp_all
qed

lemma dumped_bounds:
  assumes "layout_ok L" "stack_bottom L \<le> addr - addr mod 4" "a \<in> set (dumped L addr n)"
  shows "stack_bottom L \<le> a \<and> a + 4 \<le> stack_top L \<and> 4 dvd a"
proof -
  let ?a = "addr - addr mod 4"
  have "4 dvd ?a" by (rule dvd_minus_mod)
  moreover obtain i where "a = ?a + 4 * i" "i < (stack_top L - ?a) div 4"
    using assms(3) by (auto simp: dumped_def Let_def)
  moreover have "i < d div 4 \<Longrightarrow> 4 * i + 4 \<le> d" for i d :: nat by presburger
  ultimately show ?thesis using assms(2) by fastforce
qed

lemma dword_line_shown:
  assumes "layout_ok L" "shown f s s'" "stack_bottom L \<le> a"
  shows "dword_line (mem s') a = dword_line (mem s) a"
proof -
  have same: "mem s' x = mem s x" if "0x200000 \<le> x" for x
    using assms(2) that by (simp add: shown_def vga_bytes_def VGA_BUFFER_def)
  have "0x200000 \<le> a - KERNEL_VIRTUAL_BASE" using stack_extent(1) [OF assms(1)] assms(3) by linarith
  then have "load32 (mem s') (a - KERNEL_VIRTUAL_BASE) = load32 (mem s) (a - KERNEL_VIRTUAL_BASE)"
    by (intro load32_cong same) simp
  then show ?thesis by (simp add: dword_line_def)
qed

lemma dump_dword_shown:
  assumes L: "layout_ok L" "stack_mapped L s" and s: "console_ok s"
    and a: "stack_bottom L \<le> addr + 4 * i" "addr + 4 * i + 4 \<le> stack_top L"
  shows "says (dump_dword p addr i) (dword_line (mem s) (addr + 4 * i)) s"
proof -
  have small: "addr + 4 * i < 2 ^ 32" using stack_extent(2) [OF L(1)] a(2) by (simp add: KERNEL_VIRTUAL_BASE_def)
  obtain t where "mmu_walk (mem s) (cr3 s) (VirtAddr (of_nat (addr + 4 * i))) = Some t"
    "target t = addr + 4 * i - KERNEL_VIRTUAL_BASE"
    using L(2) a unfolding stack_mapped_def by (metis less_le_trans less_add_same_cancel1 zero_less_numeral)
  then have "read_dword (addr + 4 * i) s = (Inr (load32 (mem s) (addr + 4 * i - KERNEL_VIRTUAL_BASE)), s)"
    by (simp add: read_dword_def)
  then show ?thesis
    using small says_print [OF s] unfolding dump_dword_def dword_line_def says_def
    by (simp add: usize_mul_ok usize_add_ok sbind_Inr mult.commute [of i])
qed

text \<open>The part of the dump after its first line is known to start inside the stack.\<close>

lemma dump_lines_shown:
  assumes L: "layout_ok L" "stack_mapped L s" and s: "console_ok s" and a: "4 dvd a" "stack_bottom L \<le> a"
    and k: "k \<le> (stack_top L - a) div 4"
  shows "says (sbind (on_display (printk p head)) (\<lambda>_.
       sbind (if mis then on_display (printk p note) else ret ()) (\<lambda>_.
       sbind (on_display (printk p [line_feed])) (\<lambda>_. for_each (dump_dword p a) [0..<k]))))
    (head @ (if mis then note else []) @ [line_feed] @ concat (map (\<lambda>i. dword_line (mem s) (a + 4 * i)) [0..<k])) s"
proof (rule says_bind [OF says_print [OF s]], goal_cases)
  case (1 s1)
  show ?case
  proof (rule says_bind, goal_cases)
    case 1
    then show ?case using says_print says_ret shown_ok [OF \<open>shown (term_print head) s s1\<close>] by simp
  next
    case (2 s2)
    note s2 = shown_append [OF \<open>shown (term_print head) s s1\<close> 2]
    show ?case
    proof (rule says_bind [OF says_print [OF shown_ok [OF s2]]], goal_cases)
      case (1 s3)
      note s3 = shown_append [OF s2 1]
      show ?case
      proof (rule says_loop [OF shown_ok [OF s3]], goal_cases)
        case (1 i pre t)
        note t = shown_append [OF s3 1(2)]
        have "i < d div 4 \<Longrightarrow> 4 * i + 4 \<le> d" for d :: nat by presburger
        then have i: "a + 4 * i + 4 \<le> stack_top L" using 1(1) k by fastforce
        then show ?case
          using dump_dword_shown [OF L(1) stack_mapped_shown [OF L(2) t] shown_ok [OF t], of a i p] a(2)
            dword_line_shown [OF L(1) t, of "a + 4 * i"] by simp
      qed
    qed
  qed
qed

lemma dump_stack_outside:
  assumes s: "console_ok s" and out: "addr - addr mod 4 < stack_bottom L \<or> stack_top L \<le> addr - addr mod 4"
  shows "says (dump_stack_from p L addr n) ([''stack dump: ''] @
    [fmt_hex 10 (addr - addr mod 4), '' not within stack bounds '', fmt_hex 10 (stack_bottom L), ''-'',
     fmt_hex 10 (stack_top L), line_feed]) s"
  unfolding dump_stack_from_def
proof (rule says_bind [OF says_print [OF s]], goal_cases)
  case (1 s1)
  have "usize_sub p addr (addr mod 4) = Inr (addr - addr mod 4)" by (simp add: usize_sub_ok)
  then show ?case using out says_print [OF shown_ok [OF 1]]
    by (simp add: Let_def layout_addr_defs says_def)
qed

lemma dump_stack_inside:
  assumes L: "layout_ok L" "stack_mapped L s" and s: "console_ok s"
    and inside: "stack_bottom L \<le> q" "q < stack_top L" and q_def: "q = addr - addr mod 4"
    and k_def: "k = min n ((stack_top L - q) div 4)"
  shows "says (dump_stack_from p L addr n) ([''stack dump: ''] @ [fmt_dec k, ''/'', fmt_dec ((stack_top L - q) div 4)] @
    (if addr mod 4 \<noteq> 0 then ['' misaligned start address '', fmt_hex 10 addr] else []) @
    [line_feed] @ concat (map (\<lambda>i. dword_line (mem s) (q + 4 * i)) [0..<k])) s"
  unfolding dump_stack_from_def
proof (rule says_bind [OF says_print [OF s]], goal_cases)
  case (1 s1)
  have q: "4 dvd q" "q + addr mod 4 = addr" by (simp_all add: q_def dvd_minus_mod)
  have sub: "usize_sub p addr (addr mod 4) = Inr q" by (simp add: usize_sub_ok q_def)
  have room: "usize_sub p (stack_top L) q = Inr (stack_top L - q)"
    using inside by (simp add: usize_sub_ok)
  have "addr mod 4 < 4" "stack_top L < 2 ^ 32 - 4"
    using stack_extent(2) [OF L(1)] by (simp_all add: KERNEL_VIRTUAL_BASE_def)
  then have "addr < 2 ^ 32" using inside q(2) by linarith
  then have add: "usize_add p q (addr mod 4) = Inr addr" using q(2) by (simp add: usize_add_ok)
  have "says (sbind (on_display (printk p [fmt_dec k, ''/'', fmt_dec ((stack_top L - q) div 4)])) (\<lambda>_.
     sbind (if addr mod 4 \<noteq> 0 then on_display (printk p ['' misaligned start address '', fmt_hex 10 addr])
            else ret ()) (\<lambda>_.
     sbind (on_display (printk p [line_feed])) (\<lambda>_. for_each (dump_dword p q) [0..<k]))))
      ([fmt_dec k, ''/'', fmt_dec ((stack_top L - q) div 4)] @
       (if addr mod 4 \<noteq> 0 then ['' misaligned start address '', fmt_hex 10 addr] else []) @
       [line_feed] @ concat (map (\<lambda>i. dword_line (mem s1) (q + 4 * i)) [0..<k])) s1"
    unfolding k_def using inside
    by (intro dump_lines_shown [OF L(1) stack_mapped_shown [OF L(2) 1] shown_ok [OF 1]]) (simp_all add: q(1))
  then show ?case using inside dword_line_shown [OF L(1) 1] unfolding k_def
    by (simp add: Let_def sub add room layout_addr_defs sbind_lift says_def [of "sbind _ _"] split del: if_split cong: if_cong)
qed

lemma dump_stack_shown:
  assumes L: "layout_ok L" "stack_mapped L s" and s: "console_ok s"
  shows "says (dump_stack_from p L addr n) (stack_report L (mem s) addr n) s"
proof (cases "addr - addr mod 4 < stack_bottom L \<or> stack_top L \<le> addr - addr mod 4")
  case True
  with dump_stack_outside [OF s True] show ?thesis by (simp add: stack_report_def)
next
  case False
  with dump_stack_inside [OF L s _ _ refl refl] show ?thesis
    by (simp add: stack_report_def dumped_def comp_def)
qed

section \<open>The memory map on the console\<close>

text \<open>
  What the loader hands over: the structure at \<open>info\<close> announces a map, the map is a sequence of
  well-formed entries, and both lie in the identity-mapped low memory outside the VGA buffer.
\<close>

definition handoff_bytes :: "memory \<Rightarrow> usize \<Rightarrow> nat set" where
  "handoff_bytes m info =
     (let b = read_info m info; addr = unat (mbi_mmap_addr b) in
      {info..<info + 52} \<union> {addr..<addr + unat (mbi_mmap_length b)})"

definition handoff :: "memory \<Rightarrow> usize \<Rightarrow> padded_entry list \<Rightarrow> bool" where
  "handoff m info eps \<longleftrightarrow>
     (let b = read_info m info; addr = unat (mbi_mmap_addr b); len = unat (mbi_mmap_length b) in
      mbi_flags b AND FLAG_MMAP \<noteq> 0 \<and> load_bytes m addr len = encode_map eps \<and>
      (\<forall>ep \<in> set eps. entry_ok ep) \<and>
      info + 52 \<le> 0x400000 \<and> addr + len \<le> 0x400000 \<and> handoff_bytes m info \<inter> vga_bytes = {})"

lemma load_bytes_cong:
  "(\<And>x. x \<in> {a..<a + n} \<Longrightarrow> m' x = m x) \<Longrightarrow> load_bytes m' a n = load_bytes m a n"
  by (simp add: load_bytes_def)

lemma read_info_cong:
  assumes "\<And>x. x \<in> {a..<a + 52} \<Longrightarrow> m' x = m x"
  shows "read_info m' a = read_info m a"
  unfolding read_info_def using assms by (auto intro!: load32_cong)

lemma handoff_cong:
  assumes h: "handoff m info eps" and same: "\<And>x. x \<in> handoff_bytes m info \<Longrightarrow> m' x = m x"
  shows "handoff m' info eps"
proof -
  have i: "read_info m' info = read_info m info"
    by (intro read_info_cong same) (simp add: handoff_bytes_def Let_def)
  let ?b = "read_info m info"
  have "load_bytes m' (unat (mbi_mmap_addr ?b)) (unat (mbi_mmap_length ?b)) =
      load_bytes m (unat (mbi_mmap_addr ?b)) (unat (mbi_mmap_length ?b))"
    by (intro load_bytes_cong same) (simp add: handoff_bytes_def Let_def)
  with h i show ?thesis by (simp add: handoff_def handoff_bytes_def Let_def)
qed

lemma handoff_outside:
  assumes h: "handoff m info eps" and same: "\<And>x. x \<notin> vga_bytes \<Longrightarrow> m' x = m x"
  shows "handoff m' info eps"
proof (rule handoff_cong [OF h])
  fix x assume "x \<in> handoff_bytes m info"
  moreover have "handoff_bytes m info \<inter> vga_bytes = {}" using h by (simp add: handoff_def Let_def)
  ultimately have "x \<notin> vga_bytes" by blast
  then show "m' x = m x" by (rule same)
qed

lemma handoff_map:
  assumes "handoff (mem s) info eps"
  shows "memory_map_at info s = Some \<lparr>mm_buf = encode_map eps, mm_offset = 0\<rparr>"
    "\<forall>ep \<in> set eps. entry_ok ep" "length (encode_map eps) < 2 ^ 32"
proof -
  let ?b = "read_info (mem s) info"
  have ld: "load_bytes (mem s) (unat (mbi_mmap_addr ?b)) (unat (mbi_mmap_length ?b)) = encode_map eps"
    using assms by (simp add: handoff_def Let_def)
  then show "memory_map_at info s = Some \<lparr>mm_buf = encode_map eps, mm_offset = 0\<rparr>"
    using assms by (simp add: handoff_def Let_def memory_map_at_def info_memory_map_def)
  show "\<forall>ep \<in> set eps. entry_ok ep" using assms by (simp add: handoff_def Let_def)
  have "length (encode_map eps) = unat (mbi_mmap_length ?b)" using arg_cong [OF ld, of length] by simp
  then show "length (encode_map eps) < 2 ^ 32" using unat_less_2p32 [of "mbi_mmap_length ?b"] by simp
qed

lemma for_regions_handoff:
  assumes "handoff (mem (s :: kernel)) info eps"
  shows "for_regions p body \<lparr>mm_buf = encode_map eps, mm_offset = 0\<rparr> t =
    Some (for_each body (map entry_region eps) t)"
  using for_regions_encoded_from [of eps "[]" "[]" p body t] handoff_map(2,3) [OF assms] by simp

definition usable_bytes :: "memory_region list \<Rightarrow> nat" where
  "usable_bytes rs = (\<Sum>r\<leftarrow>rs. if region_is_available r then unat (addressable_bytes r) else 0)"

definition map_report :: "memory_region list \<Rightarrow> string list" where
  "map_report rs = [''multiboot memory map:'', line_feed] @
     concat (map (\<lambda>r. [region_line r, line_feed]) rs) @
     [''usable RAM: '', fmt_dec (usable_bytes rs div 1024), '' KiB'', line_feed]"

lemma usable_bytes_bound: "usable_bytes rs \<le> length rs * 2 ^ 32"
  by (induction rs) (auto simp: usable_bytes_def unat_addressable_bytes)

lemma usable_bytes_snoc:
  "usable_bytes (rs @ [r]) = usable_bytes rs + (if region_is_available r then unat (addressable_bytes r) else 0)"
  by (simp add: usable_bytes_def)

lemma encode_map_entries: "length eps * 24 \<le> length (encode_map eps)"
  by (induction eps) (auto simp: length_encode_entry)

lemma print_region_shown:
  assumes "console_ok s" "usable_bytes (rs @ [r]) < 2 ^ 64" "unat u = usable_bytes rs"
  shows "\<exists>s' u'. print_region p r (s, u) = (Inr (), (s', u')) \<and>
    shown (term_print [region_line r, line_feed]) s s' \<and> unat u' = usable_bytes (rs @ [r])"
proof -
  obtain s' where s': "on_display (printk p [region_line r, line_feed]) s = (Inr (), s')"
    "shown (term_print [region_line r, line_feed]) s s'"
    using print_shown [OF assms(1)] by blast
  show ?thesis
  proof (cases "region_is_available r")
    case True
    then have sum: "unat u + unat (addressable_bytes r) = usable_bytes (rs @ [r])"
      using assms(3) by (simp add: usable_bytes_snoc)
    then have "unat (u + addressable_bytes r) = usable_bytes (rs @ [r])"
      using assms(2) by (simp add: unat_word_ariths)
    then show ?thesis
      using True s' sum assms(2) by (auto simp: print_region_def u64_add_def)
  next
    case False
    then show ?thesis using s' assms(3) by (simp add: print_region_def usable_bytes_snoc)
  qed
qed

lemma print_regions_shown:
  assumes s: "console_ok s" and bound: "length rs * 2 ^ 32 < 2 ^ 64"
  shows "\<exists>s' u. for_each (print_region p) rs (s, 0) = (Inr (), (s', u)) \<and>
    shown (term_print (concat (map (\<lambda>r. [region_line r, line_feed]) rs))) s s' \<and> unat u = usable_bytes rs"
proof -
  let ?I = "\<lambda>pre (t, u :: u64). shown (term_print (concat (map (\<lambda>r. [region_line r, line_feed]) pre))) s t \<and>
    unat u = usable_bytes pre"
  have "\<exists>su. for_each (print_region p) rs (s, 0) = (Inr (), su) \<and> ?I rs su"
  proof (rule for_each_invariant [where I = ?I])
    show "?I [] (s, 0)" using shown_refl [OF s] by (simp add: usable_bytes_def)
  next
    fix pre r post tu
    assume rs: "rs = pre @ r # post" and I: "?I pre tu"
    obtain t u where tu: "tu = (t, u)" by (cases tu)
    have "usable_bytes (pre @ [r]) \<le> length (pre @ [r]) * 2 ^ 32" by (rule usable_bytes_bound)
    also have "\<dots> \<le> length rs * 2 ^ 32" using rs by simp
    finally have small: "usable_bytes (pre @ [r]) < 2 ^ 64" using bound by simp
    from I tu print_region_shown [OF _ small, of t u p] shown_ok
    obtain t' u' where "print_region p r tu = (Inr (), (t', u'))"
      "shown (term_print [region_line r, line_feed]) t t'" "unat u' = usable_bytes (pre @ [r])" by auto
    with I tu show "\<exists>s'. print_region p r tu = (Inr (), s') \<and> ?I (pre @ [r]) s'"
      by (auto dest: shown_append)
  qed
  then show ?thesis by auto
qed

lemma print_memory_map_shown:
  assumes h: "handoff (mem s) info eps" and s: "console_ok s"
  shows "\<exists>s'. print_memory_map p info s = Some (Inr (), s') \<and>
    shown (term_print (map_report (map entry_region eps))) s s'"
proof -
  let ?rs = "map entry_region eps"
  have "length ?rs * 2 ^ 32 < 2 ^ 64"
    using encode_map_entries [of eps] handoff_map(3) [OF h] by simp
  note bound = this
  obtain s1 where s1: "on_display (printk p [''multiboot memory map:'', line_feed]) s = (Inr (), s1)"
    "shown (term_print [''multiboot memory map:'', line_feed]) s s1" using print_shown [OF s] by blast
  obtain s2 u where s2: "for_each (print_region p) ?rs (s1, 0) = (Inr (), (s2, u))"
    "shown (term_print (concat (map (\<lambda>r. [region_line r, line_feed]) ?rs))) s1 s2" "unat u = usable_bytes ?rs"
    using print_regions_shown [OF shown_ok [OF s1(2)] bound] by blast
  have div: "unat (u div 1024) = usable_bytes ?rs div 1024" using s2(3) by (simp add: unat_div)
  let ?last = "[''usable RAM: '', fmt_dec (usable_bytes ?rs div 1024), '' KiB'', line_feed]"
  obtain s3 where s3: "on_display (printk p ?last) s2 = (Inr (), s3)" "shown (term_print ?last) s2 s3"
    using print_shown [OF shown_ok [OF s2(2)]] by blast
  have "print_regions p \<lparr>mm_buf = encode_map eps, mm_offset = 0\<rparr> s1 = Some (Inr u, s2)"
    by (simp add: print_regions_def for_regions_handoff [OF h] s2(1))
  then have "print_memory_map p info s = Some (Inr (), s3)"
    using s1(1) s3(1) unfolding print_memory_map_def handoff_map(1) [OF h]
    by (simp add: dbind_def total_st_def div)
  moreover have "shown (term_print (map_report ?rs)) s s3"
    unfolding map_report_def by (intro shown_append [OF s1(2)] shown_append [OF s2(2)] s3(2))
  ultimately show ?thesis by blast
qed

section \<open>Memory\<close>

text \<open>\<open>init\<close> is \<open>paging::init\<close> on the allocator the map gives.\<close>

lemma memory_init_paging:
  assumes h: "handoff (mem s) info eps" and L: "layout_ok L"
    and r: "\<forall>ep \<in> set eps. region_is_available (entry_region ep) \<longrightarrow> region_below_limit (entry_region ep)"
    and fb: "frame_alloc s = frame_bitmap_new"
  shows "\<exists>fb'. memory_init p L info s = Some (paging_init p L (s\<lparr>frame_alloc := fb'\<rparr>)) \<and>
    alloc_ok (s\<lparr>frame_alloc := fb'\<rparr>) \<and> free_frames fb' = boot_frames L (map entry_region eps)"
proof -
  have r': "\<forall>r \<in> set (map entry_region eps). region_is_available r \<longrightarrow> region_below_limit r" using r by auto
  from frame_init_spec [of eps "[]" L p, OF handoff_map(2) [OF h] _ _ r' L] handoff_map(3) [OF h]
  obtain fb' where fb': "frame_init p L \<lparr>mm_buf = encode_map eps, mm_offset = 0\<rparr> frame_bitmap_new = Some (Inr (), fb')"
    "wf_bitmap fb'" "search_hint fb' = 0" "free_frames fb' = boot_frames L (map entry_region eps)"
    by auto
  then have "memory_init p L info s = Some (paging_init p L (s\<lparr>frame_alloc := fb'\<rparr>))"
    by (simp add: memory_init_def handoff_map(1) [OF h] init_frames_def fb dbind_def total_st_def)
  with fb' show ?thesis by (intro exI [of _ fb']) (simp add: alloc_ok_def packed_def)
qed

lemma memory_init_spec:
  assumes h: "handoff (mem s) info eps" and L: "layout_ok L"
    and r: "\<forall>ep \<in> set eps. region_is_available (entry_region ep) \<longrightarrow> region_below_limit (entry_region ep)"
    and fb: "frame_alloc s = frame_bitmap_new"
    and low: "3 \<le> card (boot_frames L (map entry_region eps) \<inter> {..<1024})"
  obtains s' dir low high where "memory_init p L info s = Some (Inr (), s')"
    "distinct [dir, low, high]" "{dir, low, high} \<subseteq> boot_frames L (map entry_region eps) \<inter> {..<1024}"
    "wf_bitmap (frame_alloc s')" "free_frames (frame_alloc s') = boot_frames L (map entry_region eps) - {dir, low, high}"
    "\<And>x. x div 4096 \<notin> boot_frames L (map entry_region eps) \<Longrightarrow> mem s' x = mem s x"
    "cr3 s' = of_nat (dir * 4096)" "cr0 s' = cr0 s OR CR0_WP"
    "vga_static s' = vga_static s" "panicking s' = panicking s" "installed L (mem s') dir low high"
proof -
  obtain fb' where fb': "memory_init p L info s = Some (paging_init p L (s\<lparr>frame_alloc := fb'\<rparr>))"
    "alloc_ok (s\<lparr>frame_alloc := fb'\<rparr>)" "free_frames fb' = boot_frames L (map entry_region eps)"
    using memory_init_paging [OF h L r fb] by blast
  let ?s = "s\<lparr>frame_alloc := fb'\<rparr>"
  have "3 \<le> low_free ?s" using fb'(3) low by (simp add: low_free_def)
  from paging_init_spec [OF L fb'(2) this, of p] obtain s' dir low high where
    s': "paging_init p L ?s = (Inr (), s')"
    "distinct [dir, low, high]" "{dir, low, high} \<subseteq> free_frames (frame_alloc ?s) \<inter> {..<1024}"
    "alloc_ok s'" "free_frames (frame_alloc s') = free_frames (frame_alloc ?s) - {dir, low, high}"
    "\<And>x. x div 4096 \<notin> free_frames (frame_alloc ?s) \<Longrightarrow> mem s' x = mem ?s x"
    "cr3 s' = of_nat (dir * 4096)" "cr0 s' = cr0 ?s OR CR0_WP" "machine.more s' = machine.more ?s"
    "installed L (mem s') dir low high" by metis
  have run: "memory_init p L info s = Some (Inr (), s')"
    using s'(1) fb'(1) by simp
  have "vga_static s' = vga_static s" "panicking s' = panicking s"
    using s'(9) by (cases s', cases s, simp)+
  then show thesis
    using s' fb'(3) by (intro that [OF run]) (simp_all add: alloc_ok_def)
qed

section \<open>Where the stack is mapped\<close>

text \<open>\<open>CR3\<close> points at the bootstrap directory, which does not lie under the screen.\<close>

definition boot_directory :: "kernel \<Rightarrow> bool" where
  "boot_directory s \<longleftrightarrow> is_frame_aligned (PhysAddr (cr3 s)) \<and>
     {unat (cr3 s)..<unat (cr3 s) + 4096} \<inter> vga_bytes = {} \<and>
     (\<forall>i < 1024. load32 (mem s) (unat (cr3 s) + 4 * i) = (if i = 0 \<or> i = 768 then 0x83 else 0))"

lemma stack_addr:
  assumes "layout_ok L" "stack_bottom L \<le> a" "a < stack_top L"
  shows "KERNEL_VIRTUAL_BASE + 0x200000 \<le> a" "a < KERNEL_VIRTUAL_BASE + 0x400000"
    "unat (of_nat a :: u32) = a" "pd_index (VirtAddr (of_nat a)) = 768"
proof -
  note e = stack_extent(1,2) [OF assms(1)]
  show b: "KERNEL_VIRTUAL_BASE + 0x200000 \<le> a" "a < KERNEL_VIRTUAL_BASE + 0x400000"
    using e assms(2,3) by linarith+
  then show u: "unat (of_nat a :: u32) = a"
    by (intro unat_of_nat_u32) (simp add: KERNEL_VIRTUAL_BASE_def)
  have "a div 4194304 = 768"
    using b div_eq_iff_range [of 4194304 a 768] by (simp add: KERNEL_VIRTUAL_BASE_def)
  then show "pd_index (VirtAddr (of_nat a)) = 768" by (simp only: pd_index_eq virt_addr.sel u)
qed

lemma stack_mapped_boot:
  assumes L: "layout_ok L" and b: "boot_directory s"
  shows "stack_mapped L s"
  unfolding stack_mapped_def
proof (intro allI impI)
  fix m a
  assume m: "\<forall>x. x \<notin> vga_bytes \<longrightarrow> m x = mem s x" and a: "stack_bottom L \<le> a" "a < stack_top L"
  have "load32 m (unat (cr3 s) + 4 * i) = (if i = 0 \<or> i = 768 then 0x83 else 0)" if "i < 1024" for i
  proof -
    have "load32 m (unat (cr3 s) + 4 * i) = load32 (mem s) (unat (cr3 s) + 4 * i)"
    proof (rule load32_cong)
      fix x assume "unat (cr3 s) + 4 * i \<le> x" "x < unat (cr3 s) + 4 * i + 4"
      then have "x \<in> {unat (cr3 s)..<unat (cr3 s) + 4096}" using that by simp
      then show "m x = mem s x" using b m by (auto simp: boot_directory_def)
    qed
    then show ?thesis using b that by (simp add: boot_directory_def)
  qed
  then show "\<exists>t. mmu_walk m (cr3 s) (VirtAddr (of_nat a)) = Some t \<and> target t = a - KERNEL_VIRTUAL_BASE"
    using bootstrap_walk [of "cr3 s" m "VirtAddr (of_nat a)"] b stack_addr [OF L a]
    by (simp add: boot_directory_def KERNEL_VIRTUAL_BASE_def)
qed

lemma vga_frame: "x \<in> vga_bytes \<Longrightarrow> x div 4096 = 0xB8"
  using div_eq_iff_range [of 4096 x "0xB8"] by (simp add: vga_bytes_def VGA_BUFFER_def)

lemma installed_outside:
  assumes "installed L m dir low high" "0xB8 \<notin> {dir, low, high}" "\<And>x. x \<notin> vga_bytes \<Longrightarrow> m' x = m x"
  shows "installed L m' dir low high"
proof (rule installed_cong [OF assms(1)])
  fix x assume "x div 4096 \<in> {dir, low, high}"
  then have "x \<notin> vga_bytes" using assms(2) vga_frame [of x] by auto
  then show "m' x = m x" by (rule assms(3))
qed

lemma kernel_walk_stack:
  assumes L: "layout_ok L" and a: "stack_bottom L \<le> a" "a < stack_top L"
  shows "kernel_walk L dir low high (VirtAddr (of_nat a)) =
    Some \<lparr>target = a - KERNEL_VIRTUAL_BASE, can_write = True, user_mode = False\<rparr>"
proof -
  have "kernel_phys_start L \<le> a" "kernel_virt_start L \<le> a" "a < kernel_virt_end L" "kernel_data_start L \<le> a"
    using L a by (simp_all add: layout_ok_def KERNEL_VIRTUAL_BASE_def)
  then show ?thesis
    using a stack_addr(3,4) [OF L a] by (simp add: kernel_walk_def kernel_map_def RECURSIVE_INDEX_def ENTRY_COUNT_def)
qed

lemma stack_mapped_installed:
  assumes L: "layout_ok L" and i: "installed L (mem s) dir low high" "cr3 s = of_nat (dir * 4096)"
    and v: "0xB8 \<notin> {dir, low, high}"
  shows "stack_mapped L s"
  unfolding stack_mapped_def
proof (intro allI impI)
  fix m a
  assume m: "\<forall>x. x \<notin> vga_bytes \<longrightarrow> m x = mem s x" and a: "stack_bottom L \<le> a" "a < stack_top L"
  have "installed L m dir low high" by (rule installed_outside [OF i(1) v]) (use m in blast)
  then show "\<exists>t. mmu_walk m (cr3 s) (VirtAddr (of_nat a)) = Some t \<and> target t = a - KERNEL_VIRTUAL_BASE"
    using kernel_walk_stack [OF L a] by (simp only: i(2) installed_walk [OF L]) simp
qed

text \<open>One of the kernel's two directories is active and does not lie under the screen.\<close>

definition translating :: "layout \<Rightarrow> kernel \<Rightarrow> bool" where
  "translating L s \<longleftrightarrow> boot_directory s \<or>
     (\<exists>dir low high. cr3 s = of_nat (dir * 4096) \<and> installed L (mem s) dir low high \<and> 0xB8 \<notin> {dir, low, high})"

lemma translating_stack: "layout_ok L \<Longrightarrow> translating L s \<Longrightarrow> stack_mapped L s"
  unfolding translating_def using stack_mapped_boot stack_mapped_installed by blast

section \<open>Panics\<close>

definition panic_screen :: "layout \<Rightarrow> memory \<Rightarrow> string list \<Rightarrow> usize \<Rightarrow> terminal \<Rightarrow> terminal" where
  "panic_screen L m info esp t =
     term_print (stack_report L m esp 16)
       (term_print_color (color_on White Red) ([line_feed, ''KERNEL PANIC'', line_feed] @ info @ [line_feed]) t)"

lemma stack_report_shown:
  assumes "layout_ok L" "shown f s s'"
  shows "stack_report L (mem s') addr n = stack_report L (mem s) addr n"
proof (cases "addr - addr mod 4 < stack_bottom L")
  case False
  have "dword_line (mem s') a = dword_line (mem s) a" if "a \<in> set (dumped L addr n)" for a
    using False dumped_bounds [OF assms(1) _ that] by (intro dword_line_shown [OF assms]) linarith
  then have "map (dword_line (mem s')) (dumped L addr n) = map (dword_line (mem s)) (dumped L addr n)"
    by (intro map_cong refl)
  then show ?thesis unfolding stack_report_def Let_def by (simp only:)
next
  case True
  then show ?thesis unfolding stack_report_def Let_def by (simp only: simp_thms if_True)
qed

lemma panic_report_shown:
  assumes "layout_ok L" "stack_mapped L s" "console_ok s"
  shows "\<exists>s'. panic_report p L info esp s = (Inr (), s') \<and> shown (panic_screen L (mem s) info esp) s s'"
proof -
  let ?text = "[line_feed, ''KERNEL PANIC'', line_feed] @ info @ [line_feed]"
  obtain s1 where s1: "on_display (printk_color p (color_on White Red) ?text) s = (Inr (), s1)"
    "shown (term_print_color (color_on White Red) ?text) s s1"
    using print_color_shown [OF assms(3)] by blast
  have "says (dump_stack_from p L esp 16) (stack_report L (mem s1) esp 16) s1"
    by (rule dump_stack_shown [OF assms(1) stack_mapped_shown [OF assms(2) s1(2)] shown_ok [OF s1(2)]])
  then obtain s2 where s2: "dump_stack_from p L esp 16 s1 = (Inr (), s2)"
    "shown (term_print (stack_report L (mem s1) esp 16)) s1 s2" by (auto simp: says_def)
  have "panic_report p L info esp s = (Inr (), s2)"
    unfolding panic_report_def dump_stack_def using s1(1) s2(1) by (simp only: sbind_Inr)
  moreover have "shown (panic_screen L (mem s) info esp) s s2"
    using shown_trans [OF s1(2) s2(2)]
    unfolding panic_screen_def [abs_def] stack_report_shown [OF assms(1) s1(2)] .
  ultimately show ?thesis by blast
qed

lemma panic_handler_halts:
  assumes "layout_ok L" "stack_mapped L s" "console_ok s" "\<not> panicking s"
  shows "\<exists>s'. panic_handler p L show_info esp e s = Halts s' \<and> panicking s' \<and>
    shown (panic_screen L (mem s) (show_info e) esp) (s\<lparr>panicking := True\<rparr>) s'"
proof -
  let ?s = "s\<lparr>panicking := True\<rparr>"
  have "stack_mapped L ?s" "console_ok ?s" using assms by (simp_all add: stack_mapped_def display_of_def)
  with panic_report_shown [OF assms(1), of ?s p "show_info e" esp]
  obtain s' where "panic_report p L (show_info e) esp ?s = (Inr (), s')"
    "shown (panic_screen L (mem s) (show_info e) esp) ?s s'" by auto
  then show ?thesis
    using assms(4) by (subst panic_handler.simps) (auto simp: shown_def)
qed

lemma translating_shown:
  assumes "layout_ok L" "translating L s" "shown f s s'"
  shows "stack_mapped L s'"
  using translating_stack [OF assms(1,2)] assms(3) by (rule stack_mapped_shown)

section \<open>The boot path\<close>

text \<open>The state \<open>kernel_main\<close> starts in after a good hand-off of a machine with enough memory.\<close>

definition boot_state :: "layout \<Rightarrow> usize \<Rightarrow> padded_entry list \<Rightarrow> kernel \<Rightarrow> bool" where
  "boot_state L info eps s \<longleftrightarrow>
     handoff (mem s) info eps \<and> layout_ok L \<and> frame_alloc s = frame_bitmap_new \<and> console_ok s \<and>
     (\<forall>ep \<in> set eps. region_is_available (entry_region ep) \<longrightarrow> region_below_limit (entry_region ep)) \<and>
     3 \<le> card (boot_frames L (map entry_region eps) \<inter> {..<1024}) \<and>
     0xB8 \<notin> boot_frames L (map entry_region eps)"

definition boot_text :: "memory_region list \<Rightarrow> string list" where
  "boot_text rs = [''zkrnl32 booting'', line_feed] @ map_report rs @
     [''memory: paging active, frame allocator online'', line_feed]"

lemma screen_of_cong:
  assumes "\<And>x. x \<in> vga_bytes \<Longrightarrow> m' x = m x"
  shows "screen_of m' = screen_of m"
proof (rule screen_of_eqI)
  fix r c :: nat assume rc: "r < 25" "c < 80"
  then have "VGA_BUFFER + (r * 80 + c) * 2 \<in> vga_bytes" "VGA_BUFFER + (r * 80 + c) * 2 + 1 \<in> vga_bytes"
    using cell_offset [OF rc] by (auto simp: vga_bytes_def)
  then show "cell_at m' r c = screen_of m ! r ! c" using assms rc by (simp add: cell_at_def)
qed simp_all

lemma kernel_main_boots:
  assumes b: "boot_state L info eps s"
  obtains s' dir low high where "kernel_main p L BOOTLOADER_MAGIC info s = Some (Inr (), s')"
    "console_of s' = term_print (boot_text (map entry_region eps)) (term_clear (console_of s))"
    "distinct [dir, low, high]" "{dir, low, high} \<subseteq> boot_frames L (map entry_region eps) \<inter> {..<1024}"
    "wf_bitmap (frame_alloc s')" "free_frames (frame_alloc s') = boot_frames L (map entry_region eps) - {dir, low, high}"
    "\<And>x. x div 4096 \<notin> boot_frames L (map entry_region eps) \<Longrightarrow> x \<notin> vga_bytes \<Longrightarrow> mem s' x = mem s x"
    "cr3 s' = of_nat (dir * 4096)" "cr0 s' = cr0 s OR CR0_WP" "panicking s' = panicking s"
    "installed L (mem s') dir low high" "0xB8 \<notin> {dir, low, high}" "console_ok s'"
proof -
  let ?rs = "map entry_region eps"
  let ?F = "boot_frames L ?rs"
  have h: "handoff (mem s) info eps" and L: "layout_ok L" and fb: "frame_alloc s = frame_bitmap_new"
    and ok: "console_ok s" and r: "\<forall>ep \<in> set eps. region_is_available (entry_region ep) \<longrightarrow> region_below_limit (entry_region ep)"
    and low: "3 \<le> card (?F \<inter> {..<1024})" and v: "0xB8 \<notin> ?F"
    using b by (simp_all add: boot_state_def)
  obtain s1 where s1: "on_display vga_clear s = (Inr (), s1)" "shown term_clear s s1"
    using clear_shown [OF ok] by blast
  obtain s2 where s2: "on_display (printk p [''zkrnl32 booting'', line_feed]) s1 = (Inr (), s2)"
    "shown (term_print [''zkrnl32 booting'', line_feed]) s1 s2"
    using print_shown [OF shown_ok [OF s1(2)]] by blast
  have h2: "handoff (mem s2) info eps"
    by (rule handoff_outside [OF h]) (use s1(2) s2(2) in \<open>simp add: shown_def\<close>)
  obtain s3 where s3: "print_memory_map p info s2 = Some (Inr (), s3)" "shown (term_print (map_report ?rs)) s2 s3"
    using print_memory_map_shown [OF h2 shown_ok [OF s2(2)]] by blast
  have h3: "handoff (mem s3) info eps"
    by (rule handoff_outside [OF h2]) (use s3(2) in \<open>simp add: shown_def\<close>)
  have fb3: "frame_alloc s3 = frame_bitmap_new" using fb s1(2) s2(2) s3(2) by (simp add: shown_def)
  from memory_init_spec [OF h3 L r fb3 low, of p] obtain s4 dir low high where
    s4: "memory_init p L info s3 = Some (Inr (), s4)"
    "distinct [dir, low, high]" "{dir, low, high} \<subseteq> ?F \<inter> {..<1024}"
    "wf_bitmap (frame_alloc s4)" "free_frames (frame_alloc s4) = ?F - {dir, low, high}"
    "\<And>x. x div 4096 \<notin> ?F \<Longrightarrow> mem s4 x = mem s3 x"
    "cr3 s4 = of_nat (dir * 4096)" "cr0 s4 = cr0 s3 OR CR0_WP"
    "vga_static s4 = vga_static s3" "panicking s4 = panicking s3" "installed L (mem s4) dir low high"
    by metis
  have "screen_of (mem s4) = screen_of (mem s3)"
    by (rule screen_of_cong) (use s4(6) v vga_frame in metis)
  then have c4: "console_of s4 = console_of s3" "console_ok s4"
    using s4(9) shown_ok [OF s3(2)] by (simp_all add: terminal_of_def display_of_def wf_display_def)
  obtain s5 where s5: "on_display (printk p [''memory: paging active, frame allocator online'', line_feed]) s4 = (Inr (), s5)"
    "shown (term_print [''memory: paging active, frame allocator online'', line_feed]) s4 s5"
    using print_shown [OF c4(2)] by blast
  have run: "kernel_main p L BOOTLOADER_MAGIC info s = Some (Inr (), s5)"
    unfolding kernel_main_def using s1(1) s2(1) s3(1) s4(1) s5(1) by (simp add: dbind_def total_st_def)
  have "0xB8 \<notin> {dir, low, high}" using s4(3) v by blast
  moreover from this have "installed L (mem s5) dir low high"
    by (rule installed_outside [OF s4(11)]) (use s5(2) in \<open>simp add: shown_def\<close>)
  moreover have "console_of s5 = term_print (boot_text ?rs) (term_clear (console_of s))"
    using s1(2) s2(2) s3(2) s5(2) c4(1) by (simp add: shown_def boot_text_def term_print_append [symmetric])
  ultimately show thesis
    using s1(2) s2(2) s3(2) s4 s5(2) by (intro that [OF run, of dir low high]) (simp_all add: shown_def)
qed

text \<open>Frame 0 and the frames of the kernel image are never handed out.\<close>

lemma boot_frames_spare:
  "0 \<notin> boot_frames L rs"
  "kernel_phys_start L \<le> x \<Longrightarrow> x < kernel_phys_end L \<Longrightarrow> x div 4096 \<notin> boot_frames L rs"
proof -
  show "0 \<notin> boot_frames L rs" by (simp add: boot_frames_def)
  assume x: "kernel_phys_start L \<le> x" "x < kernel_phys_end L"
  have "x \<in> frame_bytes (x div 4096)" using div_eq_iff_range [of 4096 x] by (simp add: frame_bytes_def)
  then have "x div 4096 \<in> touched_frames (kernel_phys_start L) (kernel_phys_end L)"
    using x by (auto simp: touched_frames_def)
  then show "x div 4096 \<notin> boot_frames L rs" by (simp add: boot_frames_def)
qed

lemma identity_walk:
  assumes "layout_ok L" "a < 0x200000"
  shows "kernel_walk L dir low high (VirtAddr (of_nat a)) = Some \<lparr>target = a, can_write = True, user_mode = False\<rparr>"
proof -
  have u: "unat (of_nat a :: u32) = a" using assms(2) by (intro unat_of_nat_u32) simp
  then have "pd_index (VirtAddr (of_nat a)) = a div 4194304" by (simp only: pd_index_eq virt_addr.sel)
  then have "pd_index (VirtAddr (of_nat a)) = 0" using assms(2) by simp
  then show ?thesis
    using assms u by (simp add: kernel_walk_def kernel_map_def layout_ok_def RECURSIVE_INDEX_def ENTRY_COUNT_def)
qed

lemma image_walk:
  assumes L: "layout_ok L" and a: "kernel_virt_start L \<le> a" "a < kernel_virt_end L"
  shows "kernel_walk L dir low high (VirtAddr (of_nat a)) =
    (if stack_guard L \<le> a \<and> a < stack_bottom L then None
     else Some \<lparr>target = a - KERNEL_VIRTUAL_BASE, can_write = (kernel_data_start L \<le> a), user_mode = False\<rparr>)"
    and "kernel_phys_start L \<le> a - KERNEL_VIRTUAL_BASE" "a - KERNEL_VIRTUAL_BASE < kernel_phys_end L"
proof -
  have b: "KERNEL_VIRTUAL_BASE + 0x200000 \<le> a" "a < KERNEL_VIRTUAL_BASE + 0x400000" "kernel_phys_start L = 0x200000"
    and e: "kernel_virt_end L = KERNEL_VIRTUAL_BASE + kernel_phys_end L"
    using L a unfolding layout_ok_def by linarith+
  then have u: "unat (of_nat a :: u32) = a" by (intro unat_of_nat_u32) (simp add: KERNEL_VIRTUAL_BASE_def)
  have "a div 4194304 = 768"
    using b div_eq_iff_range [of 4194304 a 768] by (simp add: KERNEL_VIRTUAL_BASE_def)
  then have "pd_index (VirtAddr (of_nat a)) = 768" by (simp only: pd_index_eq virt_addr.sel u)
  then show "kernel_walk L dir low high (VirtAddr (of_nat a)) =
    (if stack_guard L \<le> a \<and> a < stack_bottom L then None
     else Some \<lparr>target = a - KERNEL_VIRTUAL_BASE, can_write = (kernel_data_start L \<le> a), user_mode = False\<rparr>)"
    using a b u by (simp add: kernel_walk_def kernel_map_def RECURSIVE_INDEX_def ENTRY_COUNT_def KERNEL_VIRTUAL_BASE_def)
  show "kernel_phys_start L \<le> a - KERNEL_VIRTUAL_BASE" "a - KERNEL_VIRTUAL_BASE < kernel_phys_end L"
    using a b e by linarith+
qed

section \<open>Runs end with overflow checks on\<close>

lemma dbind_returns:
  assumes "m s \<noteq> None" "\<And>x t. f x t \<noteq> None"
  shows "dbind m f s \<noteq> None"
  using assms by (auto simp: dbind_def split: sum.splits prod.splits)

lemma total_st_returns: "total_st m s \<noteq> None"
  by (simp add: total_st_def)

lemma memory_map_at_length: "memory_map_at info s = Some mm \<Longrightarrow> length (mm_buf mm) < 2 ^ 32"
  using unat_less_2p32 by (auto simp: memory_map_at_def info_memory_map_def split: if_splits)

lemma for_regions_returns:
  assumes "memory_map_at info s = Some mm"
  shows "for_regions Debug body mm t \<noteq> None"
  using for_regions_debug_returns [OF memory_map_at_length [OF assms], of body t] by auto

lemma print_memory_map_returns: "print_memory_map Debug info s \<noteq> None"
proof (cases "memory_map_at info s")
  case (Some mm)
  have "print_regions Debug mm t \<noteq> None" for t
    unfolding print_regions_def option.map_disc_iff by (rule for_regions_returns [OF Some])
  then show ?thesis
    unfolding print_memory_map_def Some option.case by (intro dbind_returns total_st_returns)
qed (simp add: print_memory_map_def total_st_def)

lemma memory_init_returns: "memory_init Debug L info s \<noteq> None"
proof (cases "memory_map_at info s")
  case (Some mm)
  have "init_frames Debug L mm t \<noteq> None" for t
    unfolding init_frames_def frame_init_def option.map_disc_iff by (rule for_regions_returns [OF Some])
  then show ?thesis
    unfolding memory_init_def Some option.case by (intro dbind_returns total_st_returns)
qed (simp add: memory_init_def)

lemma kernel_main_returns: "kernel_main Debug L magic info s \<noteq> None"
proof (cases "magic = BOOTLOADER_MAGIC")
  case True
  then have "\<not> magic \<noteq> BOOTLOADER_MAGIC" by simp
  then show ?thesis
    unfolding kernel_main_def by (simp only: if_False) (intro dbind_returns total_st_returns print_memory_map_returns memory_init_returns)
qed (simp add: kernel_main_def total_st_def)

end
