(* ===== verification/Gdt.thy ===== *)
theory Gdt
  imports Kernel_Prelude
begin

text \<open>
  The Global Descriptor Table of \<open>src/src/gdt.rs\<close>: the flat segment descriptors, the bootstrap table
  and \<open>write_gdt\<close>, which stores the table and the matching \<open>GDTR\<close> image.  The loading of the
  segment registers (\<open>install_gdt\<close>) is in \<open>Boot\<close>.
\<close>

definition GDT_BASE :: u32 where
  "GDT_BASE = 0x00000800"

definition GDT_ENTRY_COUNT :: usize where
  "GDT_ENTRY_COUNT = 7"

definition KERNEL_CODE_SELECTOR :: u16 where
  "KERNEL_CODE_SELECTOR = 0b01000"

definition KERNEL_DATA_SELECTOR :: u16 where
  "KERNEL_DATA_SELECTOR = 0b10000"

definition KERNEL_STACK_SELECTOR :: u16 where
  "KERNEL_STACK_SELECTOR = 0b11000"

text \<open>Module \<open>index\<close>.\<close>

definition INDEX_NULL :: usize where "INDEX_NULL = 0"
definition INDEX_KERNEL_CODE :: usize where "INDEX_KERNEL_CODE = 1"
definition INDEX_KERNEL_DATA :: usize where "INDEX_KERNEL_DATA = 2"
definition INDEX_KERNEL_STACK :: usize where "INDEX_KERNEL_STACK = 3"
definition INDEX_USER_CODE :: usize where "INDEX_USER_CODE = 4"
definition INDEX_USER_DATA :: usize where "INDEX_USER_DATA = 5"
definition INDEX_USER_STACK :: usize where "INDEX_USER_STACK = 6"

record gdtr =
  limit :: u16
  base :: u32

datatype privilege_level = Ring0 | Ring1 | Ring2 | Ring3

fun privilege_u8 :: "privilege_level \<Rightarrow> u8" where
  "privilege_u8 Ring0 = 0"
| "privilege_u8 Ring1 = 1"
| "privilege_u8 Ring2 = 2"
| "privilege_u8 Ring3 = 3"

datatype raw_descriptor = RawDescriptor (raw_bits: u64)
datatype segment_descriptor = SegmentDescriptor (segment_bits: u64)

definition raw_null :: raw_descriptor where
  "raw_null = RawDescriptor 0"

definition segment_raw :: "segment_descriptor \<Rightarrow> raw_descriptor" where
  "segment_raw d = RawDescriptor (segment_bits d)"

definition flat :: "u8 \<Rightarrow> segment_descriptor" where
  "flat access =
     (let flags = push_bit 2 1 OR push_bit 3 1 :: u64;
          lim = 0xFFFFF :: u64;
          raw = lim AND 0xFFFF;
          raw = raw OR push_bit 40 (ucast access);
          raw = raw OR push_bit 48 (drop_bit 16 lim AND 0xF);
          raw = raw OR push_bit 52 (flags AND 0xF)
      in SegmentDescriptor raw)"

definition flat_code :: "privilege_level \<Rightarrow> segment_descriptor" where
  "flat_code privilege =
     (let access = 0b10011010 :: u8;
          access = access OR push_bit 5 (privilege_u8 privilege)
      in flat access)"

definition flat_data :: "privilege_level \<Rightarrow> segment_descriptor" where
  "flat_data privilege =
     (let access = 0b10010010 :: u8;
          access = access OR push_bit 5 (privilege_u8 privilege)
      in flat access)"

text \<open>The entries of \<open>Gdt\<close>.\<close>

definition gdt_bootstrap :: "raw_descriptor list" where
  "gdt_bootstrap =
     [raw_null,
      segment_raw (flat_code Ring0),
      segment_raw (flat_data Ring0),
      segment_raw (flat_data Ring0),
      segment_raw (flat_code Ring3),
      segment_raw (flat_data Ring3),
      segment_raw (flat_data Ring3)]"

text \<open>The bytes of a \<open>repr(C)\<close> table and of a packed \<open>Gdtr\<close>.\<close>

definition gdt_bytes :: "raw_descriptor list \<Rightarrow> u8 list" where
  "gdt_bytes ds = concat (map (\<lambda>d. to_le_bytes 8 (raw_bits d)) ds)"

definition gdtr_bytes :: "gdtr \<Rightarrow> u8 list" where
  "gdtr_bytes g = to_le_bytes 2 (limit g) @ to_le_bytes 4 (base g)"

definition gdt_size :: usize where
  "gdt_size = 8 * GDT_ENTRY_COUNT"

definition write_gdt :: "u32 \<Rightarrow> usize \<Rightarrow> memory \<Rightarrow> memory" where
  "write_gdt dst_addr out_gdtr m =
     (let m = store_bytes (unat dst_addr) (gdt_bytes gdt_bootstrap) m in
      store_bytes out_gdtr (gdtr_bytes \<lparr>limit = of_nat (gdt_size - 1), base = dst_addr\<rparr>) m)"

section \<open>What the processor reads\<close>

text \<open>
  The fields of a segment descriptor as the processor decodes them (Intel SDM vol. 3, 3.4.5):
  the base and limit are split, the limit counts 4 KiB units when the granularity bit is set.
\<close>

definition desc_base :: "u64 \<Rightarrow> nat" where
  "desc_base d = unat (take_bit 24 (drop_bit 16 d)) + 2 ^ 24 * unat (take_bit 8 (drop_bit 56 d))"

definition desc_last :: "u64 \<Rightarrow> nat" where
  "desc_last d =
     (let l = unat (take_bit 16 d) + 2 ^ 16 * unat (take_bit 4 (drop_bit 48 d))
      in if bit d 55 then l * 4096 + 4095 else l)"

definition desc_dpl :: "u64 \<Rightarrow> nat" where
  "desc_dpl d = unat (take_bit 2 (drop_bit 45 d))"

text \<open>A present code segment that may be read and is not conforming; a present writable data segment.\<close>

definition desc_code :: "u64 \<Rightarrow> bool" where
  "desc_code d \<longleftrightarrow> bit d 47 \<and> bit d 44 \<and> bit d 43 \<and> \<not> bit d 42 \<and> bit d 41 \<and> bit d 54 \<and> \<not> bit d 53"

definition desc_data :: "u64 \<Rightarrow> bool" where
  "desc_data d \<longleftrightarrow> bit d 47 \<and> bit d 44 \<and> \<not> bit d 43 \<and> \<not> bit d 42 \<and> bit d 41 \<and> bit d 54 \<and> \<not> bit d 53"

definition load64 :: "memory \<Rightarrow> nat \<Rightarrow> u64" where
  "load64 m a = of_le_bytes (load_bytes m a 8)"

definition selector_index :: "u16 \<Rightarrow> nat" where
  "selector_index s = unat (drop_bit 3 s)"

section \<open>Lemmas\<close>

lemma gdt_bootstrap_values:
  "map raw_bits gdt_bootstrap =
     [0, 0x00CF9A000000FFFF, 0x00CF92000000FFFF, 0x00CF92000000FFFF,
      0x00CFFA000000FFFF, 0x00CFF2000000FFFF, 0x00CFF2000000FFFF]"
  by (simp add: gdt_bootstrap_def raw_null_def segment_raw_def flat_code_def flat_data_def flat_def Let_def
      push_bit_eq_mult)

lemma length_gdt_bytes: "length (gdt_bytes ds) = 8 * length ds"
  by (induction ds) (simp_all add: gdt_bytes_def)

lemma length_gdtr_bytes [simp]: "length (gdtr_bytes g) = 6"
  by (simp add: gdtr_bytes_def)

lemma take_drop_gdt_bytes:
  "i < length ds \<Longrightarrow> take 8 (drop (8 * i) (gdt_bytes ds)) = to_le_bytes 8 (raw_bits (ds ! i))"
proof (induction ds arbitrary: i)
  case Nil
  then show ?case by simp
next
  case (Cons d ds)
  show ?case
  proof (cases i)
    case 0
    then show ?thesis by (simp add: gdt_bytes_def)
  next
    case (Suc j)
    then show ?thesis using Cons by (simp add: gdt_bytes_def)
  qed
qed

text \<open>Reading a part of a stored byte string back.\<close>

lemma load_bytes_stored:
  assumes "k + n \<le> length bs"
  shows "load_bytes (store_bytes a bs m) (a + k) n = take n (drop k bs)"
  using assms by (intro nth_equalityI) (simp_all add: load_bytes_def store_bytes_def)

definition load16 :: "memory \<Rightarrow> nat \<Rightarrow> u16" where
  "load16 m a = of_le_bytes (load_bytes m a 2)"

text \<open>What \<open>lgdt\<close> reads from the six bytes at \<open>a\<close>.\<close>

definition load_gdtr :: "memory \<Rightarrow> nat \<Rightarrow> gdtr" where
  "load_gdtr m a = \<lparr>limit = load16 m a, base = load32 m (a + 2)\<rparr>"

lemma load_gdtr_stored: "load_gdtr (store_bytes a (gdtr_bytes g) m) a = g"
proof -
  have "load_bytes (store_bytes a (gdtr_bytes g) m) a 2 = to_le_bytes 2 (limit g)"
    using load_bytes_stored [of 0 2 "gdtr_bytes g" a m] by (simp add: gdtr_bytes_def)
  moreover have "load_bytes (store_bytes a (gdtr_bytes g) m) (a + 2) 4 = to_le_bytes 4 (base g)"
    using load_bytes_stored [of 2 4 "gdtr_bytes g" a m] by (simp add: gdtr_bytes_def)
  ultimately show ?thesis
    by (simp add: load_gdtr_def load16_def load32_def of_le_bytes_to_le_bytes take_bit_word_eq_self)
qed

lemma write_gdt_entry:
  assumes "out + 6 \<le> unat dst \<or> unat dst + 56 \<le> out" "i < 7"
  shows "load64 (write_gdt dst out m) (unat dst + 8 * i) = raw_bits (gdt_bootstrap ! i)"
proof -
  have len: "length gdt_bootstrap = 7" by (simp add: gdt_bootstrap_def)
  let ?m = "store_bytes (unat dst) (gdt_bytes gdt_bootstrap) m"
  have "load_bytes (write_gdt dst out m) (unat dst + 8 * i) 8 = load_bytes ?m (unat dst + 8 * i) 8"
    unfolding write_gdt_def Let_def using assms by (intro load_bytes_store_bytes_other) auto
  also have "\<dots> = take 8 (drop (8 * i) (gdt_bytes gdt_bootstrap))"
    using assms(2) len by (intro load_bytes_stored) (simp add: length_gdt_bytes)
  also have "\<dots> = to_le_bytes 8 (raw_bits (gdt_bootstrap ! i))"
    using assms(2) len by (intro take_drop_gdt_bytes) simp
  finally show ?thesis
    by (simp add: load64_def of_le_bytes_to_le_bytes take_bit_word_eq_self)
qed

lemma write_gdt_gdtr: "load_gdtr (write_gdt dst out m) out = \<lparr>limit = 55, base = dst\<rparr>"
  by (simp add: write_gdt_def Let_def load_gdtr_stored gdt_size_def GDT_ENTRY_COUNT_def)

lemma write_gdt_outside:
  "\<not> (unat dst \<le> x \<and> x < unat dst + 56) \<Longrightarrow> \<not> (out \<le> x \<and> x < out + 6) \<Longrightarrow> write_gdt dst out m x = m x"
  by (auto simp: write_gdt_def Let_def store_bytes_def length_gdt_bytes gdt_bootstrap_def)

section \<open>Properties\<close>

text \<open>
  C20: the flat descriptors.  For every privilege level, code and data descriptors decode to a
  present 32-bit segment of that level with base 0 that reaches the last byte of the 4 GiB space,
  the one executable and readable, the other writable.  In the bootstrap table the null entry and
  the kernel and user segments stand at the indices the module \<open>index\<close> names, and the selectors
  select the kernel entries with requested privilege 0.
\<close>

theorem gdt_segments_flat:
  "(\<forall>q. desc_code (segment_bits (flat_code q)) \<and> desc_data (segment_bits (flat_data q)) \<and>
      (\<forall>d \<in> {segment_bits (flat_code q), segment_bits (flat_data q)}.
         desc_base d = 0 \<and> desc_last d = 2 ^ 32 - 1 \<and> desc_dpl d = unat (privilege_u8 q))) \<and>
   length gdt_bootstrap = GDT_ENTRY_COUNT \<and>
   gdt_bootstrap ! INDEX_NULL = raw_null \<and>
   gdt_bootstrap ! INDEX_KERNEL_CODE = segment_raw (flat_code Ring0) \<and>
   gdt_bootstrap ! INDEX_KERNEL_DATA = segment_raw (flat_data Ring0) \<and>
   gdt_bootstrap ! INDEX_KERNEL_STACK = segment_raw (flat_data Ring0) \<and>
   gdt_bootstrap ! INDEX_USER_CODE = segment_raw (flat_code Ring3) \<and>
   gdt_bootstrap ! INDEX_USER_DATA = segment_raw (flat_data Ring3) \<and>
   gdt_bootstrap ! INDEX_USER_STACK = segment_raw (flat_data Ring3) \<and>
   selector_index KERNEL_CODE_SELECTOR = INDEX_KERNEL_CODE \<and>
   selector_index KERNEL_DATA_SELECTOR = INDEX_KERNEL_DATA \<and>
   selector_index KERNEL_STACK_SELECTOR = INDEX_KERNEL_STACK \<and>
   take_bit 3 KERNEL_CODE_SELECTOR = 0 \<and> take_bit 3 KERNEL_DATA_SELECTOR = 0 \<and>
   take_bit 3 KERNEL_STACK_SELECTOR = 0"
proof -
  note flats = flat_code_def flat_data_def flat_def Let_def push_bit_eq_mult
  have "desc_code (segment_bits (flat_code q))" "desc_data (segment_bits (flat_data q))" for q
    by (cases q; simp add: flats desc_code_def desc_data_def)+
  moreover have "desc_base d = 0 \<and> desc_last d = 2 ^ 32 - 1 \<and> desc_dpl d = unat (privilege_u8 q)"
    if "d \<in> {segment_bits (flat_code q), segment_bits (flat_data q)}" for d q
    using that by (cases q) (auto simp: flats desc_base_def desc_last_def desc_dpl_def)
  ultimately show ?thesis
    by (simp add: gdt_bootstrap_def GDT_ENTRY_COUNT_def INDEX_NULL_def INDEX_KERNEL_CODE_def
        INDEX_KERNEL_DATA_def INDEX_KERNEL_STACK_def INDEX_USER_CODE_def INDEX_USER_DATA_def
        INDEX_USER_STACK_def selector_index_def KERNEL_CODE_SELECTOR_def KERNEL_DATA_SELECTOR_def
        KERNEL_STACK_SELECTOR_def)
qed

theorem gdt_segments_flat_witness:
  "desc_last (segment_bits (flat_code Ring3)) = 2 ^ 32 - 1 \<and> desc_dpl (segment_bits (flat_code Ring3)) = 3"
  using gdt_segments_flat by auto

text \<open>
  C21: \<open>write_gdt\<close>.  When the two destinations do not overlap, every table entry and the \<open>GDTR\<close> image
  read back as written, the limit is the offset of the table's last byte, and no other byte of
  memory changes.
\<close>

theorem write_gdt_correct:
  assumes "out + 6 \<le> unat dst \<or> unat dst + gdt_size \<le> out"
  shows "(\<forall>i < GDT_ENTRY_COUNT. load64 (write_gdt dst out m) (unat dst + 8 * i) = raw_bits (gdt_bootstrap ! i)) \<and>
    load_gdtr (write_gdt dst out m) out = \<lparr>limit = of_nat gdt_size - 1, base = dst\<rparr> \<and>
    (\<forall>x. x \<notin> {unat dst..<unat dst + gdt_size} \<union> {out..<out + 6} \<longrightarrow> write_gdt dst out m x = m x)"
  using assms write_gdt_entry [of out dst _ m] write_gdt_gdtr write_gdt_outside
  by (simp add: gdt_size_def GDT_ENTRY_COUNT_def)

theorem write_gdt_correct_witness:
  "load64 (write_gdt GDT_BASE 0x1000 (\<lambda>_. 0)) 0x808 = 0x00CF9A000000FFFF"
proof -
  have "load64 (write_gdt GDT_BASE 0x1000 (\<lambda>_. 0)) (unat GDT_BASE + 8 * 1) = raw_bits (gdt_bootstrap ! 1)"
    by (rule write_gdt_correct [THEN conjunct1, rule_format])
      (simp_all add: GDT_BASE_def gdt_size_def GDT_ENTRY_COUNT_def)
  moreover have "raw_bits (gdt_bootstrap ! 1) = map raw_bits gdt_bootstrap ! 1"
    by (simp add: gdt_bootstrap_def)
  ultimately show ?thesis unfolding gdt_bootstrap_values by (simp add: GDT_BASE_def)
qed

end
