(* ===== verification/Cpu.thy ===== *)
theory Cpu
  imports Gdt Paging_Entries
begin

text \<open>
  The processor as the two hand-written pieces of assembly see it: the boot stub
  \<open>src/boot/boot.asm\<close> and the naked function \<open>install_gdt\<close> of \<open>src/src/gdt.rs\<close>.

  Memory is physical.  Every access goes through \<open>linear\<close>: with \<open>CR0.PG\<close> clear an address is
  physical, with it set (and \<open>CR4.PSE\<close>) it is translated by \<open>mmu_walk\<close>.  An instruction is fetched
  from the address the linker gave it and only when that address translates to the place it is
  loaded at.  Loading a segment register reads and checks the descriptor.  \<open>None\<close> is a fault.
\<close>

section \<open>State\<close>

datatype reg = EAX | EBX | ECX | ESI | ESP
datatype sreg = CS | DS | ES | FS | GS | SS
datatype creg = CR0 | CR3 | CR4

record cpu =
  regs :: "reg \<Rightarrow> u32"
  sregs :: "sreg \<Rightarrow> u16"
  cregs :: "creg \<Rightarrow> u32"
  cpu_gdtr :: gdtr
  eip :: u32
  cpu_mem :: memory

definition set_reg :: "reg \<Rightarrow> u32 \<Rightarrow> cpu \<Rightarrow> cpu" where
  "set_reg r w c = c\<lparr>regs := (regs c)(r := w)\<rparr>"

definition linear :: "cpu \<Rightarrow> nat \<Rightarrow> nat option" where
  "linear c a =
     (if \<not> bit (cregs c CR0) 31 then Some a
      else if bit (cregs c CR4) 4
      then map_option target (mmu_walk (cpu_mem c) (cregs c CR3) (VirtAddr (of_nat a)))
      else None)"

definition lin_load :: "cpu \<Rightarrow> nat \<Rightarrow> nat \<Rightarrow> u8 list option" where
  "lin_load c a n =
     (if \<forall>i \<in> set [0..<n]. linear c (a + i) \<noteq> None
      then Some (map (\<lambda>i. cpu_mem c (the (linear c (a + i)))) [0..<n]) else None)"

definition lin_store :: "nat \<Rightarrow> u8 list \<Rightarrow> cpu \<Rightarrow> cpu option" where
  "lin_store a bs c =
     (if \<forall>i \<in> set [0..<length bs]. linear c (a + i) \<noteq> None
      then Some (c\<lparr>cpu_mem := fold (\<lambda>i m. m(the (linear c (a + i)) := bs ! i)) [0..<length bs] (cpu_mem c)\<rparr>)
      else None)"

definition load_dword :: "cpu \<Rightarrow> nat \<Rightarrow> u32 option" where
  "load_dword c a = map_option of_le_bytes (lin_load c a 4)"

definition push :: "u32 \<Rightarrow> cpu \<Rightarrow> cpu option" where
  "push w c = (let sp = regs c ESP - 4 in lin_store (unat sp) (to_le_bytes 4 w) (set_reg ESP sp c))"

definition pop :: "cpu \<Rightarrow> (u32 \<times> cpu) option" where
  "pop c = map_option (\<lambda>w. (w, set_reg ESP (regs c ESP + 4) c)) (load_dword c (unat (regs c ESP)))"

text \<open>
  Loading a selector of the table at privilege level 0.  The checks are at least as strict as the
  processor's for the kernel's own use: no null selector, no local table, inside the limit, and a
  descriptor of the right type.
\<close>

definition descriptor_fits :: "sreg \<Rightarrow> u64 \<Rightarrow> bool" where
  "descriptor_fits r d = ((if r = CS then desc_code d else desc_data d) \<and> desc_dpl d = 0)"

definition load_sreg :: "sreg \<Rightarrow> u16 \<Rightarrow> cpu \<Rightarrow> cpu option" where
  "load_sreg r sel c =
     (let i = selector_index sel in
      if i \<noteq> 0 \<and> take_bit 3 sel = 0 \<and> 8 * i + 7 \<le> unat (limit (cpu_gdtr c)) then
        (case lin_load c (unat (base (cpu_gdtr c)) + 8 * i) 8 of
           Some bs \<Rightarrow> if descriptor_fits r (of_le_bytes bs)
             then Some (c\<lparr>sregs := (sregs c)(r := sel)\<rparr>) else None
         | None \<Rightarrow> None)
      else None)"

section \<open>Instructions\<close>

text \<open>
  The instructions the two pieces use, and the entry of a compiled function as a pseudo-instruction.
  Operands that name a symbol are addresses the linker resolves.
\<close>

datatype instr =
    Mov_RI reg u32
  | Mov_RR reg reg
  | Sub_RI reg u32
  | Add_RI reg u32
  | Or_RI reg u32
  | Push_R reg
  | Push_I u32
  | Call u32
  | Jmp u32
  | Jmp_R reg
  | Mov_CR creg reg
  | Mov_RC reg creg
  | Lgdt_ESP
  | Mov_AX u16
  | Mov_SR sreg
  | Lea reg u32
  | Retf
  | Ret
  | Cli
  | Hlt
  | Fn_write_gdt
  | Fn_kernel_main

text \<open>
  What a compiled callee does besides its work: it may leave anything in the caller-saved registers
  and in the stack below its entry.
\<close>

record callee =
  left_eax :: u32
  left_ecx :: u32
  left_frame :: "u8 list"

definition goto :: "u32 \<Rightarrow> cpu \<Rightarrow> cpu" where
  "goto a c = c\<lparr>eip := a\<rparr>"

text \<open>
  \<open>write_gdt(dst_addr, out_gdtr)\<close> called with the cdecl convention: the return address is at \<open>ESP\<close>,
  the arguments above it.  The table goes to an identity-mapped address; the \<open>GDTR\<close> image lies on
  the stack, inside one 4 MiB page.
\<close>

definition call_write_gdt :: "callee \<Rightarrow> cpu \<Rightarrow> cpu option" where
  "call_write_gdt F c =
     (let sp = unat (regs c ESP) in
      case (load_dword c (sp + 4), load_dword c (sp + 8)) of
        (Some dst, Some out) \<Rightarrow>
          (if linear c (unat dst) = Some (unat dst) then
             (case linear c (unat out) of
                Some pout \<Rightarrow>
                  (case lin_store (sp - length (left_frame F)) (left_frame F)
                          (c\<lparr>cpu_mem := write_gdt dst pout (cpu_mem c)\<rparr>) of
                     Some c \<Rightarrow>
                       map_option (\<lambda>(ra, c). goto ra (set_reg EAX (left_eax F) (set_reg ECX (left_ecx F) c)))
                         (pop c)
                   | None \<Rightarrow> None)
              | None \<Rightarrow> None)
           else None)
      | _ \<Rightarrow> None)"

text \<open>One instruction; \<open>nxt\<close> is the address of the following one.\<close>

fun exec :: "callee \<Rightarrow> u32 \<Rightarrow> instr \<Rightarrow> cpu \<Rightarrow> cpu option" where
  "exec F nxt (Mov_RI r w) c = Some (goto nxt (set_reg r w c))"
| "exec F nxt (Mov_RR r s) c = Some (goto nxt (set_reg r (regs c s) c))"
| "exec F nxt (Sub_RI r w) c = Some (goto nxt (set_reg r (regs c r - w) c))"
| "exec F nxt (Add_RI r w) c = Some (goto nxt (set_reg r (regs c r + w) c))"
| "exec F nxt (Or_RI r w) c = Some (goto nxt (set_reg r (regs c r OR w) c))"
| "exec F nxt (Push_R r) c = map_option (goto nxt) (push (regs c r) c)"
| "exec F nxt (Push_I w) c = map_option (goto nxt) (push w c)"
| "exec F nxt (Call a) c = map_option (goto a) (push nxt c)"
| "exec F nxt (Jmp a) c = Some (goto a c)"
| "exec F nxt (Jmp_R r) c = Some (goto (regs c r) c)"
| "exec F nxt (Mov_CR k r) c = Some (goto nxt (c\<lparr>cregs := (cregs c)(k := regs c r)\<rparr>))"
| "exec F nxt (Mov_RC r k) c = Some (goto nxt (set_reg r (cregs c k) c))"
| "exec F nxt Lgdt_ESP c =
     (case lin_load c (unat (regs c ESP)) 6 of
        Some bs \<Rightarrow> Some (goto nxt (c\<lparr>cpu_gdtr :=
          \<lparr>limit = of_le_bytes (take 2 bs), base = of_le_bytes (drop 2 bs)\<rparr>\<rparr>))
      | None \<Rightarrow> None)"
| "exec F nxt (Mov_AX w) c =
     Some (goto nxt (set_reg EAX ((regs c EAX AND 0xFFFF0000) OR ucast w) c))"
| "exec F nxt (Mov_SR r) c = map_option (goto nxt) (load_sreg r (ucast (regs c EAX)) c)"
| "exec F nxt (Lea r a) c = Some (goto nxt (set_reg r a c))"
| "exec F nxt Retf c =
     (case pop c of
        Some (ra, c) \<Rightarrow>
          (case pop c of
             Some (cs, c) \<Rightarrow> map_option (goto ra) (load_sreg CS (ucast cs) c)
           | None \<Rightarrow> None)
      | None \<Rightarrow> None)"
| "exec F nxt Ret c = map_option (\<lambda>(ra, c). goto ra c) (pop c)"
| "exec F nxt Cli c = Some (goto nxt c)"
| "exec F nxt Hlt c = Some (goto nxt c)"
| "exec F nxt Fn_write_gdt c = call_write_gdt F c"
| "exec F nxt Fn_kernel_main c = None"

section \<open>Programs\<close>

text \<open>
  A program is made of blocks of instructions.  The image gives every instruction the address it is
  linked at and the physical address it is loaded at; distinct instructions have distinct addresses.
\<close>

datatype block = Start | Higher_Half | Install | Write_Gdt | Kernel_Main

record image =
  link_at :: "block \<times> nat \<Rightarrow> u32"
  load_at :: "block \<times> nat \<Rightarrow> nat"

text \<open>The instructions of every block, and their places.\<close>

type_synonym blocks = "block \<Rightarrow> instr list"

definition sites :: "blocks \<Rightarrow> (block \<times> nat) list" where
  "sites P = concat (map (\<lambda>b. map (Pair b) [0..<length (P b)])
     [Start, Higher_Half, Install, Write_Gdt, Kernel_Main])"

definition fetch :: "image \<Rightarrow> blocks \<Rightarrow> cpu \<Rightarrow> (block \<times> nat) option" where
  "fetch I P c =
     (case find (\<lambda>s. link_at I s = eip c) (sites P) of
        Some s \<Rightarrow> if linear c (unat (eip c)) = Some (load_at I s) then Some s else None
      | None \<Rightarrow> None)"

definition cpu_step :: "image \<Rightarrow> blocks \<Rightarrow> callee \<Rightarrow> cpu \<Rightarrow> cpu option" where
  "cpu_step I P F c =
     (case fetch I P c of
        Some (b, k) \<Rightarrow> exec F (link_at I (b, Suc k)) (P b ! k) c
      | None \<Rightarrow> None)"

fun cpu_steps :: "image \<Rightarrow> blocks \<Rightarrow> callee \<Rightarrow> nat \<Rightarrow> cpu \<Rightarrow> cpu option" where
  "cpu_steps I P F 0 c = Some c"
| "cpu_steps I P F (Suc n) c =
     (case cpu_step I P F c of Some c' \<Rightarrow> cpu_steps I P F n c' | None \<Rightarrow> None)"

end
