(* ===== verification/Boot.thy ===== *)
theory Boot
  imports Cpu
begin

text \<open>
  The two pieces of assembly as instruction lists: \<open>install_gdt\<close> of \<open>src/src/gdt.rs\<close> and the boot
  stub \<open>src/boot/boot.asm\<close>, with the proof rules for executing them under the bootstrap directory.
\<close>

section \<open>Code\<close>

definition install_gdt :: "image \<Rightarrow> instr list" where
  "install_gdt I =
     [Sub_RI ESP 6,
      Mov_RR EAX ESP,
      Push_R EAX,
      Push_I GDT_BASE,
      Call (link_at I (Write_Gdt, 0)),
      Add_RI ESP 8,
      Lgdt_ESP,
      Mov_AX KERNEL_DATA_SELECTOR,
      Mov_SR DS,
      Mov_SR ES,
      Mov_SR FS,
      Mov_SR GS,
      Mov_AX KERNEL_STACK_SELECTOR,
      Mov_SR SS,
      Push_I (ucast KERNEL_CODE_SELECTOR),
      Lea EAX (link_at I (Install, 18)),
      Push_R EAX,
      Retf,
      Add_RI ESP 6,
      Ret]"

text \<open>\<open>dir\<close> and \<open>stk\<close> are the addresses of \<open>BOOT_PAGE_DIRECTORY\<close> and \<open>stack_top\<close>.\<close>

definition start_code :: "image \<Rightarrow> u32 \<Rightarrow> instr list" where
  "start_code I dir =
     [Mov_RR ESI EAX,
      Mov_RI EAX dir,
      Mov_CR CR3 EAX,
      Mov_RC EAX CR4,
      Or_RI EAX (push_bit 4 1),
      Mov_CR CR4 EAX,
      Mov_RC EAX CR0,
      Or_RI EAX (push_bit 31 1),
      Mov_CR CR0 EAX,
      Mov_RI ECX (link_at I (Higher_Half, 0)),
      Jmp_R ECX]"

definition higher_half_code :: "image \<Rightarrow> u32 \<Rightarrow> instr list" where
  "higher_half_code I stk =
     [Mov_RI ESP stk,
      Sub_RI ESP 8,
      Push_R EBX,
      Push_R ESI,
      Call (link_at I (Install, 0)),
      Call (link_at I (Kernel_Main, 0)),
      Cli,
      Hlt,
      Jmp (link_at I (Higher_Half, 7))]"

fun boot_blocks :: "image \<Rightarrow> u32 \<Rightarrow> u32 \<Rightarrow> blocks" where
  "boot_blocks I dir stk Start = start_code I dir"
| "boot_blocks I dir stk Higher_Half = higher_half_code I stk"
| "boot_blocks I dir stk Install = install_gdt I"
| "boot_blocks I dir stk Write_Gdt = [Fn_write_gdt]"
| "boot_blocks I dir stk Kernel_Main = [Fn_kernel_main]"

section \<open>Addresses of the high half\<close>

definition high :: "nat \<Rightarrow> u32" where
  "high p = of_nat (KERNEL_VIRTUAL_BASE + p)"

lemma unat_high: "p \<le> 0x400000 \<Longrightarrow> unat (high p) = KERNEL_VIRTUAL_BASE + p"
  unfolding high_def by (rule unat_of_nat_u32) (simp add: KERNEL_VIRTUAL_BASE_def)

lemma high_sub: "n \<le> p \<Longrightarrow> high p - of_nat n = high (p - n)"
  by (simp add: high_def of_nat_diff)

lemma high_add: "high p + of_nat n = high (p + n)"
  by (simp add: high_def)

lemma high_sub_numeral: "numeral n \<le> p \<Longrightarrow> high p - numeral n = high (p - numeral n)"
  using high_sub [of "numeral n" p] by simp

lemma high_add_numeral: "high p + numeral n = high (p + numeral n)"
  using high_add [of p "numeral n"] by simp

section \<open>Execution under the bootstrap directory\<close>

text \<open>Paging is on and the directory at \<open>dir\<close> is the bootstrap directory.\<close>

definition boot_view :: "u32 \<Rightarrow> (creg \<Rightarrow> u32) \<Rightarrow> memory \<Rightarrow> bool" where
  "boot_view dir C m \<longleftrightarrow> bit (C CR0) 31 \<and> bit (C CR4) 4 \<and> C CR3 = dir \<and>
     is_frame_aligned (PhysAddr dir) \<and>
     (\<forall>i < 1024. load32 m (unat dir + 4 * i) = (if i = 0 \<or> i = 768 then 0x83 else 0))"

abbreviation boot_paging :: "u32 \<Rightarrow> cpu \<Rightarrow> bool" where
  "boot_paging dir c \<equiv> boot_view dir (cregs c) (cpu_mem c)"

lemma linear_boot:
  assumes "boot_paging dir c" "a < 2 ^ 32"
  shows "linear c a = (if a < 0x400000 then Some a
    else if KERNEL_VIRTUAL_BASE \<le> a \<and> a < KERNEL_VIRTUAL_BASE + 0x400000
    then Some (a - KERNEL_VIRTUAL_BASE) else None)"
proof -
  have "unat (of_nat a :: u32) = a" using assms(2) by (intro unat_of_nat_u32) simp
  then show ?thesis
    using assms(1) bootstrap_walk [of dir "cpu_mem c" "VirtAddr (of_nat a)"]
    by (simp add: boot_view_def linear_def)
qed

lemma linear_high:
  "boot_paging dir c \<Longrightarrow> p < 0x400000 \<Longrightarrow> linear c (KERNEL_VIRTUAL_BASE + p) = Some p"
  by (simp add: linear_boot KERNEL_VIRTUAL_BASE_def)

lemma linear_low: "boot_paging dir c \<Longrightarrow> p < 0x400000 \<Longrightarrow> linear c p = Some p"
  by (simp add: linear_boot)

text \<open>A range of linear addresses that maps onto a range of physical ones.\<close>

lemma lin_load_range:
  assumes "\<And>i. i < n \<Longrightarrow> linear c (a + i) = Some (t + i)"
  shows "lin_load c a n = Some (load_bytes (cpu_mem c) t n)"
proof -
  have "map (\<lambda>i. cpu_mem c (the (linear c (a + i)))) [0..<n] = load_bytes (cpu_mem c) t n"
    using assms by (intro nth_equalityI) (simp_all add: load_bytes_def)
  then show ?thesis using assms by (simp add: lin_load_def)
qed

lemma lin_store_range:
  assumes "\<And>i. i < length bs \<Longrightarrow> linear c (a + i) = Some (t + i)"
  shows "lin_store a bs c = Some (c\<lparr>cpu_mem := store_bytes t bs (cpu_mem c)\<rparr>)"
proof -
  have "fold (\<lambda>i m. m(the (linear c (a + i)) := bs ! i)) [0..<n] m =
      (\<lambda>x. if t \<le> x \<and> x < t + n then bs ! (x - t) else m x)" if "n \<le> length bs" for n m
    using that
  proof (induction n)
    case (Suc n)
    then show ?case using assms [of n] by (auto simp: fun_eq_iff less_Suc_eq)
  qed (auto simp: fun_eq_iff)
  then show ?thesis using assms by (simp add: lin_store_def store_bytes_def)
qed

lemma load_dword_high:
  assumes "boot_paging dir c" "p + 4 \<le> 0x400000"
  shows "load_dword c (KERNEL_VIRTUAL_BASE + p) = Some (load32 (cpu_mem c) p)"
  using assms lin_load_range [of 4 c "KERNEL_VIRTUAL_BASE + p" p] linear_high [OF assms(1)]
  by (simp add: load_dword_def load32_def add.assoc)

lemma lin_store_high:
  assumes "boot_paging dir c" "p + length bs \<le> 0x400000"
  shows "lin_store (KERNEL_VIRTUAL_BASE + p) bs c = Some (c\<lparr>cpu_mem := store_bytes p bs (cpu_mem c)\<rparr>)"
  using assms(2) linear_high [OF assms(1)] by (intro lin_store_range) (simp add: add.assoc)

lemma push_high:
  assumes "boot_paging dir c" "regs c ESP = high p" "4 \<le> p" "p \<le> 0x400000"
  shows "push w c = Some (c\<lparr>regs := (regs c)(ESP := high (p - 4)), cpu_mem := store32 (p - 4) w (cpu_mem c)\<rparr>)"
proof -
  let ?c = "c\<lparr>regs := (regs c)(ESP := high (p - 4))\<rparr>"
  have "boot_paging dir ?c" using assms(1) by (simp add: boot_view_def)
  then have "lin_store (KERNEL_VIRTUAL_BASE + (p - 4)) (to_le_bytes 4 w) ?c =
      Some (?c\<lparr>cpu_mem := store_bytes (p - 4) (to_le_bytes 4 w) (cpu_mem ?c)\<rparr>)"
    using assms(3,4) by (intro lin_store_high) simp_all
  moreover have "regs c ESP - 4 = high (p - 4)" using assms(2,3) high_sub_numeral by simp
  ultimately show ?thesis
    using assms(4) unat_high [of "p - 4"] by (simp add: push_def set_reg_def store32_def)
qed

lemma pop_high:
  assumes "boot_paging dir c" "regs c ESP = high p" "p + 4 \<le> 0x400000"
  shows "pop c = Some (load32 (cpu_mem c) p, c\<lparr>regs := (regs c)(ESP := high (p + 4))\<rparr>)"
  using assms load_dword_high [OF assms(1,3)] unat_high [of p] high_add_numeral [of p]
  by (simp add: pop_def set_reg_def)

text \<open>A write that stays clear of the directory keeps the translation.\<close>

lemma boot_view_cong:
  assumes "boot_view dir C m" and "\<And>x. unat dir \<le> x \<Longrightarrow> x < unat dir + 4096 \<Longrightarrow> m' x = m x"
  shows "boot_view dir C m'"
proof -
  have "load32 m' (unat dir + 4 * i) = load32 m (unat dir + 4 * i)" if "i < 1024" for i
    using that assms(2) by (intro load32_cong) auto
  then show ?thesis using assms(1) by (simp add: boot_view_def)
qed

lemma boot_view_store32: "boot_view dir C m \<Longrightarrow> unat dir + 4096 \<le> q \<Longrightarrow> boot_view dir C (store32 q w m)"
  by (erule boot_view_cong) (simp add: store32_outside)

lemma boot_view_store_bytes:
  "boot_view dir C m \<Longrightarrow> unat dir + 4096 \<le> q \<Longrightarrow> boot_view dir C (store_bytes q bs m)"
  by (erule boot_view_cong) (simp add: store_bytes_outside)

lemma boot_view_write_gdt:
  "boot_view dir C m \<Longrightarrow> unat dir + 4096 \<le> q \<Longrightarrow> unat d + 56 \<le> unat dir \<Longrightarrow> boot_view dir C (write_gdt d q m)"
  by (erule boot_view_cong) (simp add: write_gdt_outside)

section \<open>Fetching\<close>

text \<open>The linker gave every instruction its own address; only the start code is linked low.\<close>

definition image_ok :: "image \<Rightarrow> blocks \<Rightarrow> bool" where
  "image_ok I P \<longleftrightarrow> inj_on (link_at I) (set (sites P)) \<and>
     (\<forall>s \<in> set (sites P). load_at I s < 0x400000 \<and>
        link_at I s = (if fst s = Start then of_nat (load_at I s) else high (load_at I s)))"

lemma site_iff: "(b, k) \<in> set (sites P) \<longleftrightarrow> k < length (P b)"
  by (cases b) (auto simp: sites_def)

lemma find_site:
  assumes "image_ok I P" "k < length (P b)" "eip c = link_at I (b, k)"
  shows "find (\<lambda>s. link_at I s = eip c) (sites P) = Some (b, k)"
proof -
  have s: "(b, k) \<in> set (sites P)" using assms(2) by (simp add: site_iff)
  have inj: "inj_on (link_at I) (set (sites P))" using assms(1) by (simp only: image_ok_def)
  have uniq: "s = (b, k)" if "s \<in> set (sites P)" "link_at I s = eip c" for s
    using that s assms(3) inj_onD [OF inj, of s "(b, k)"] by simp
  obtain s' where s': "find (\<lambda>s. link_at I s = eip c) (sites P) = Some s'"
    using s assms(3) by (cases "find (\<lambda>s. link_at I s = eip c) (sites P)") (auto simp: find_None_iff)
  then have "s' \<in> set (sites P)" "link_at I s' = eip c" by (auto simp: find_Some_iff)
  then show ?thesis using uniq [of s'] s' by simp
qed

lemma cpu_step_high:
  assumes "image_ok I P" "k < length (P b)" "eip c = link_at I (b, k)" "b \<noteq> Start" "boot_paging dir c"
  shows "cpu_step I P F c = exec F (link_at I (b, Suc k)) (P b ! k) c"
proof -
  have s: "load_at I (b, k) < 0x400000" "link_at I (b, k) = high (load_at I (b, k))"
    using assms(1,2,4) site_iff [of b k P] by (auto simp: image_ok_def)
  then have "linear c (unat (eip c)) = Some (load_at I (b, k))"
    using assms(3) unat_high [of "load_at I (b, k)"] linear_high [OF assms(5)] by simp
  then show ?thesis
    using find_site [OF assms(1-3)] by (simp add: cpu_step_def fetch_def)
qed

lemma cpu_step_start:
  assumes "image_ok I P" "k < length (P Start)" "eip c = link_at I (Start, k)"
    and "boot_paging dir c \<or> \<not> bit (cregs c CR0) 31"
  shows "cpu_step I P F c = exec F (link_at I (Start, Suc k)) (P Start ! k) c"
proof -
  have s: "load_at I (Start, k) < 0x400000" "link_at I (Start, k) = of_nat (load_at I (Start, k))"
    using assms(1,2) site_iff [of Start k P] by (auto simp: image_ok_def)
  then have "unat (link_at I (Start, k)) = load_at I (Start, k)"
    by (simp add: unat_of_nat_u32)
  then have "linear c (unat (eip c)) = Some (load_at I (Start, k))"
    using assms(3,4) s(1) linear_low [of dir c] by (auto simp: linear_def)
  then show ?thesis
    using find_site [OF assms(1-3)] by (simp add: cpu_step_def fetch_def)
qed

lemma cpu_steps_add:
  "cpu_steps I P F (m + n) c = (case cpu_steps I P F m c of Some c' \<Rightarrow> cpu_steps I P F n c' | None \<Rightarrow> None)"
  by (induction m arbitrary: c) (simp_all split: option.splits)

lemma cpu_steps_numeral [simp]:
  "cpu_steps I P F (numeral n) c =
     (case cpu_step I P F c of Some c' \<Rightarrow> cpu_steps I P F (pred_numeral n) c' | None \<Rightarrow> None)"
  by (simp add: numeral_eq_Suc)

text \<open>
  Symbolic execution: a state is kept as \<open>goto\<close> applied to a record update, so that the next
  instruction can be read off it.
\<close>

lemma goto_simps [simp]:
  "goto a (goto b c) = goto a c"
  "regs (goto a c) = regs c" "sregs (goto a c) = sregs c" "cregs (goto a c) = cregs c"
  "cpu_gdtr (goto a c) = cpu_gdtr c" "cpu_mem (goto a c) = cpu_mem c" "eip (goto a c) = a"
  "(goto a c)\<lparr>regs := R\<rparr> = goto a (c\<lparr>regs := R\<rparr>)" "(goto a c)\<lparr>sregs := S\<rparr> = goto a (c\<lparr>sregs := S\<rparr>)"
  "(goto a c)\<lparr>cregs := C\<rparr> = goto a (c\<lparr>cregs := C\<rparr>)"
  "(goto a c)\<lparr>cpu_gdtr := g\<rparr> = goto a (c\<lparr>cpu_gdtr := g\<rparr>)"
  "(goto a c)\<lparr>cpu_mem := m\<rparr> = goto a (c\<lparr>cpu_mem := m\<rparr>)"
  by (simp_all add: goto_def)

lemma run_high:
  assumes "image_ok I P" "boot_paging dir c" "b \<noteq> Start" "k < length (P b)"
  shows "cpu_step I P F (goto (link_at I (b, k)) c) =
    exec F (link_at I (b, Suc k)) (P b ! k) (goto (link_at I (b, k)) c)"
  using cpu_step_high [of I P k b "goto (link_at I (b, k)) c" dir F] assms by simp

lemma run_start:
  assumes "image_ok I P" "boot_paging dir c \<or> \<not> bit (cregs c CR0) 31" "k < length (P Start)"
  shows "cpu_step I P F (goto (link_at I (Start, k)) c) =
    exec F (link_at I (Start, Suc k)) (P Start ! k) (goto (link_at I (Start, k)) c)"
  using cpu_step_start [of I P k "goto (link_at I (Start, k)) c" dir F] assms by simp

end
