(* ===== verification/Boot_Proofs.thy ===== *)
theory Boot_Proofs
  imports Boot
begin

text \<open>
  \<open>install_gdt\<close> and the boot stub, executed instruction by instruction.
\<close>

section \<open>Calling write\_gdt\<close>

text \<open>
  The stack pointer is \<open>high (18 + q)\<close>; the directory lies below the stack, with room for the
  pushes and for the callee's frame below \<open>q\<close>.
\<close>

definition stack_room :: "u32 \<Rightarrow> callee \<Rightarrow> nat \<Rightarrow> bool" where
  "stack_room dir F q \<longleftrightarrow> 0x1000 \<le> unat dir \<and> unat dir + 4096 + length (left_frame F) \<le> q \<and> 22 + q \<le> 0x400000"

text \<open>Memory when \<open>write_gdt\<close> is entered, and after it has returned.\<close>

definition call_mem :: "u32 \<Rightarrow> nat \<Rightarrow> memory \<Rightarrow> memory" where
  "call_mem ra q m = store32 q ra (store32 (4 + q) GDT_BASE (store32 (8 + q) (high (12 + q)) m))"

definition gdt_mem :: "u32 \<Rightarrow> callee \<Rightarrow> nat \<Rightarrow> memory \<Rightarrow> memory" where
  "gdt_mem ra F q m =
     store_bytes (q - length (left_frame F)) (left_frame F) (write_gdt GDT_BASE (12 + q) (call_mem ra q m))"

lemma call_mem_view:
  assumes "boot_view dir C m" "stack_room dir F q"
  shows "boot_view dir C (store32 (8 + q) (high (12 + q)) m)"
    "boot_view dir C (store32 (4 + q) GDT_BASE (store32 (8 + q) (high (12 + q)) m))"
    "boot_view dir C (call_mem ra q m)" "boot_view dir C (write_gdt GDT_BASE (12 + q) (call_mem ra q m))"
    "boot_view dir C (gdt_mem ra F q m)"
  using assms
  by (auto simp: GDT_BASE_def call_mem_def gdt_mem_def stack_room_def
      intro!: boot_view_store32 boot_view_store_bytes boot_view_write_gdt)

lemma call_mem_loads:
  "load32 (call_mem ra q m) q = ra" "load32 (call_mem ra q m) (4 + q) = GDT_BASE"
  "load32 (call_mem ra q m) (8 + q) = high (12 + q)"
  by (simp_all add: call_mem_def load32_store32_other)

lemma gdt_mem_outside:
  assumes "stack_room dir F q" "\<not> (0x800 \<le> x \<and> x < 0x838)" "x < q - length (left_frame F) \<or> 18 + q \<le> x"
  shows "gdt_mem ra F q m x = m x"
proof -
  have "write_gdt GDT_BASE (12 + q) (call_mem ra q m) x = call_mem ra q m x"
    using assms by (intro write_gdt_outside) (auto simp: GDT_BASE_def stack_room_def)
  moreover have "x < q \<or> 12 + q \<le> x" using assms(1,3) by (auto simp: stack_room_def)
  then have "call_mem ra q m x = m x" unfolding call_mem_def by (auto simp: store32_outside)
  ultimately show ?thesis
    using assms(1,3) unfolding gdt_mem_def by (auto simp: store_bytes_outside stack_room_def)
qed

lemma gdt_mem_above:
  assumes "stack_room dir F q" "q \<le> x" "x < 12 + q"
  shows "gdt_mem ra F q m x = call_mem ra q m x"
  using assms unfolding gdt_mem_def
  by (simp add: store_bytes_outside write_gdt_outside stack_room_def GDT_BASE_def)

lemma gdt_mem_gdtr:
  assumes "stack_room dir F q"
  shows "load_bytes (gdt_mem ra F q m) (12 + q) 6 = gdtr_bytes \<lparr>limit = 55, base = GDT_BASE\<rparr>"
proof -
  have "load_bytes (gdt_mem ra F q m) (12 + q) 6 = load_bytes (write_gdt GDT_BASE (12 + q) (call_mem ra q m)) (12 + q) 6"
    using assms unfolding gdt_mem_def by (intro load_bytes_store_bytes_other) (simp add: stack_room_def)
  also have "\<dots> = gdtr_bytes \<lparr>limit = 55, base = GDT_BASE\<rparr>"
    using load_bytes_store_bytes_same [of "12 + q" "gdtr_bytes \<lparr>limit = 55, base = GDT_BASE\<rparr>"]
    by (simp add: write_gdt_def Let_def gdt_size_def GDT_ENTRY_COUNT_def)
  finally show ?thesis .
qed

lemma gdt_mem_entry:
  assumes "stack_room dir F q" "i < 7"
  shows "load64 (gdt_mem ra F q m) (0x800 + 8 * i) = raw_bits (gdt_bootstrap ! i)"
proof -
  have "load_bytes (gdt_mem ra F q m) (0x800 + 8 * i) 8 =
      load_bytes (write_gdt GDT_BASE (12 + q) (call_mem ra q m)) (0x800 + 8 * i) 8"
    using assms unfolding gdt_mem_def by (intro load_bytes_store_bytes_other) (auto simp: stack_room_def)
  moreover have "load64 (write_gdt GDT_BASE (12 + q) (call_mem ra q m)) (unat GDT_BASE + 8 * i) = raw_bits (gdt_bootstrap ! i)"
    using assms by (intro write_gdt_entry) (auto simp: stack_room_def GDT_BASE_def)
  ultimately show ?thesis by (simp add: load64_def GDT_BASE_def)
qed

lemma install_call:
  assumes ok: "image_ok I P" "P Install = install_gdt I" "P Write_Gdt = [Fn_write_gdt]"
    and c: "boot_paging dir c" "regs c ESP = high (18 + q)" "stack_room dir F q"
  shows "cpu_steps I P F 5 (goto (link_at I (Install, 0)) c) =
      Some (goto (link_at I (Write_Gdt, 0)) (c\<lparr>regs := (regs c)(EAX := high (12 + q), ESP := high q),
        cpu_mem := call_mem (link_at I (Install, 5)) q (cpu_mem c)\<rparr>))"
proof -
  note v = call_mem_view [OF c(1,3)]
  note sim = set_reg_def high_sub_numeral high_add_numeral ok(2) install_gdt_def numeral_2_eq_2 [symmetric]
    run_high [OF ok(1), where dir = dir] push_high [where dir = dir]
  show ?thesis
    using v(1,2) c by (simp add: sim stack_room_def call_mem_def)
qed

lemma install_write:
  assumes ok: "image_ok I P" "P Write_Gdt = [Fn_write_gdt]"
    and c: "boot_paging dir c" "regs c ESP = high q" "stack_room dir F q"
    and m: "cpu_mem c = call_mem ra q m"
  shows "cpu_step I P F (goto (link_at I (Write_Gdt, 0)) c) =
    Some (goto ra (c\<lparr>regs := (regs c)(ESP := high (4 + q), ECX := left_ecx F, EAX := left_eax F),
      cpu_mem := gdt_mem ra F q m\<rparr>))"
proof -
  let ?n = "length (left_frame F)" and ?c = "goto (link_at I (Write_Gdt, 0)) c"
  let ?c' = "?c\<lparr>cpu_mem := write_gdt GDT_BASE (12 + q) (call_mem ra q m)\<rparr>"
  have q: "unat (high q) = KERNEL_VIRTUAL_BASE + q" "unat (high (12 + q)) = KERNEL_VIRTUAL_BASE + (12 + q)"
    using c(3) by (auto simp: stack_room_def intro!: unat_high)
  have v: "boot_view dir (cregs c) (cpu_mem ?c')" "boot_view dir (cregs c) (gdt_mem ra F q m)"
    unfolding gdt_mem_def using c(1,3) m
    by (auto simp: GDT_BASE_def stack_room_def intro!: boot_view_store_bytes boot_view_write_gdt)
  have args: "load_dword ?c (unat (high q) + 4) = Some GDT_BASE"
    "load_dword ?c (unat (high q) + 8) = Some (high (12 + q))"
    using load_dword_high [of dir ?c "4 + q"] load_dword_high [of dir ?c "8 + q"] c m call_mem_loads [of ra q m]
    unfolding q by (simp_all add: stack_room_def add_ac)
  have lin: "linear ?c (unat GDT_BASE) = Some (unat GDT_BASE)" "linear ?c (unat (high (12 + q))) = Some (12 + q)"
    using linear_low [of dir ?c "unat GDT_BASE"] linear_high [of dir ?c "12 + q"] c
    unfolding q by (simp_all add: GDT_BASE_def stack_room_def)
  have "unat (high q) - ?n = KERNEL_VIRTUAL_BASE + (q - ?n)"
    unfolding q using c(3) by (simp add: stack_room_def)
  then have frame: "lin_store (unat (high q) - ?n) (left_frame F) ?c' = Some (?c\<lparr>cpu_mem := gdt_mem ra F q m\<rparr>)"
    using lin_store_high [of dir ?c' "q - ?n" "left_frame F"] v(1) c(3) by (simp add: gdt_mem_def stack_room_def)
  have "load32 (gdt_mem ra F q m) q = load32 (call_mem ra q m) q"
    using c(3) by (intro load32_cong gdt_mem_above) (auto simp: stack_room_def)
  then have "pop (?c\<lparr>cpu_mem := gdt_mem ra F q m\<rparr>) =
      Some (ra, ?c\<lparr>cpu_mem := gdt_mem ra F q m, regs := (regs c)(ESP := high (4 + q))\<rparr>)"
    using pop_high [of dir "?c\<lparr>cpu_mem := gdt_mem ra F q m\<rparr>" q] v(2) c call_mem_loads(1) [of ra q m]
    by (simp add: stack_room_def add.commute)
  then show ?thesis
    using args lin frame c(2) m
    by (simp add: run_high [OF ok(1) c(1)] ok(2) call_write_gdt_def Let_def set_reg_def)
qed

section \<open>Loading the segment registers\<close>

text \<open>The bootstrap table is installed.\<close>

definition gdt_loaded :: "memory \<Rightarrow> gdtr \<Rightarrow> bool" where
  "gdt_loaded m g \<longleftrightarrow> g = \<lparr>limit = 55, base = GDT_BASE\<rparr> \<and>
     (\<forall>i < 7. load64 m (0x800 + 8 * i) = raw_bits (gdt_bootstrap ! i))"

lemma entry_fits:
  "r \<noteq> CS \<Longrightarrow> descriptor_fits r (raw_bits (gdt_bootstrap ! 2))"
  "r \<noteq> CS \<Longrightarrow> descriptor_fits r (raw_bits (gdt_bootstrap ! 3))"
  "descriptor_fits CS (raw_bits (gdt_bootstrap ! Suc 0))"
proof -
  have e: "raw_bits (gdt_bootstrap ! i) = map raw_bits gdt_bootstrap ! i" if "i < 7" for i
    using that by (subst nth_map) (simp_all add: gdt_bootstrap_def)
  show "r \<noteq> CS \<Longrightarrow> descriptor_fits r (raw_bits (gdt_bootstrap ! 2))"
    "r \<noteq> CS \<Longrightarrow> descriptor_fits r (raw_bits (gdt_bootstrap ! 3))"
    "descriptor_fits CS (raw_bits (gdt_bootstrap ! Suc 0))"
    by (simp_all add: e gdt_bootstrap_values descriptor_fits_def desc_code_def desc_data_def desc_dpl_def)
qed

lemma load_descriptor:
  assumes "boot_paging dir c" "gdt_loaded (cpu_mem c) (cpu_gdtr c)" "i < 7"
  shows "map_option of_le_bytes (lin_load c (unat (base (cpu_gdtr c)) + 8 * i) 8) = Some (raw_bits (gdt_bootstrap ! i))"
proof -
  have "lin_load c (0x800 + 8 * i) 8 = Some (load_bytes (cpu_mem c) (0x800 + 8 * i) 8)"
    using assms(3) linear_low [OF assms(1)] by (intro lin_load_range) simp
  then show ?thesis using assms(2,3) by (simp add: gdt_loaded_def load64_def GDT_BASE_def)
qed

lemma load_sreg_ok:
  assumes "boot_paging dir c" "gdt_loaded (cpu_mem c) (cpu_gdtr c)"
    and "(sel, r) \<in> {(KERNEL_CODE_SELECTOR, CS)} \<union> {KERNEL_DATA_SELECTOR, KERNEL_STACK_SELECTOR} \<times> {DS, ES, FS, GS, SS}"
  shows "load_sreg r sel c = Some (c\<lparr>sregs := (sregs c)(r := sel)\<rparr>)"
proof -
  let ?i = "selector_index sel"
  have sel: "0 < ?i" "?i < 7" "take_bit 3 sel = 0" "descriptor_fits r (raw_bits (gdt_bootstrap ! ?i))"
    using assms(3) entry_fits(1,2) [of r] entry_fits(3)
    by (auto simp: selector_index_def KERNEL_CODE_SELECTOR_def KERNEL_DATA_SELECTOR_def KERNEL_STACK_SELECTOR_def)
  obtain bs where "lin_load c (unat (base (cpu_gdtr c)) + 8 * ?i) 8 = Some bs"
    "of_le_bytes bs = raw_bits (gdt_bootstrap ! ?i)"
    using load_descriptor [OF assms(1,2) sel(2)] by auto
  then show ?thesis
    using sel assms(2) by (simp add: load_sreg_def Let_def gdt_loaded_def)
qed

lemma mov_ax_value: "ucast ((x AND 0xFFFF0000) OR ucast w :: u32) = (w :: u16)"
proof (rule bit_word_eqI)
  fix n assume "n < LENGTH(16)"
  have "(0xFFFF0000 :: u32) = push_bit 16 (mask 16)" by (simp add: mask_eq_exp_minus_1)
  then have "\<not> bit (0xFFFF0000 :: u32) n" using \<open>n < _\<close> by (simp only: bit_push_bit_iff) simp
  then show "bit (ucast ((x AND 0xFFFF0000) OR ucast w :: u32) :: u16) n = bit w n"
    using \<open>n < _\<close> by (simp add: bit_simps)
qed

lemma install_segments:
  assumes ok: "image_ok I P" "P Install = install_gdt I"
    and c: "boot_paging dir c" "regs c ESP = high (4 + q)" "12 + q + 6 \<le> 0x400000"
    and g: "load_bytes (cpu_mem c) (12 + q) 6 = gdtr_bytes \<lparr>limit = 55, base = GDT_BASE\<rparr>"
      "\<forall>i < 7. load64 (cpu_mem c) (0x800 + 8 * i) = raw_bits (gdt_bootstrap ! i)"
  shows "cpu_steps I P F 9 (goto (link_at I (Install, 5)) c) =
    Some (goto (link_at I (Install, 14)) (c\<lparr>regs := (regs c)(ESP := high (12 + q), EAX :=
        (((regs c EAX AND 0xFFFF0000) OR ucast KERNEL_DATA_SELECTOR) AND 0xFFFF0000) OR ucast KERNEL_STACK_SELECTOR),
      cpu_gdtr := \<lparr>limit = 55, base = GDT_BASE\<rparr>,
      sregs := (sregs c)(DS := KERNEL_DATA_SELECTOR, ES := KERNEL_DATA_SELECTOR, FS := KERNEL_DATA_SELECTOR,
        GS := KERNEL_DATA_SELECTOR, SS := KERNEL_STACK_SELECTOR)\<rparr>))"
proof -
  let ?g = "\<lparr>limit = 55, base = GDT_BASE\<rparr>"
  have loaded: "gdt_loaded (cpu_mem c) ?g" using g(2) by (simp add: gdt_loaded_def)
  let ?c1 = "c\<lparr>regs := (regs c)(ESP := high (12 + q))\<rparr>"
  have "lin_load (goto (link_at I (Install, 6)) ?c1) (KERNEL_VIRTUAL_BASE + (12 + q)) 6 =
      Some (load_bytes (cpu_mem c) (12 + q) 6)"
    using lin_load_range [of 6 "goto (link_at I (Install, 6)) ?c1" "KERNEL_VIRTUAL_BASE + (12 + q)" "12 + q"]
      linear_high [of dir "goto (link_at I (Install, 6)) ?c1"] c(1,3) by (simp add: add.assoc)
  then have lgdt: "exec F nxt Lgdt_ESP (goto (link_at I (Install, 6)) ?c1) = Some (goto nxt (?c1\<lparr>cpu_gdtr := ?g\<rparr>))" for nxt
    using unat_high [of "12 + q"] c(3) g(1)
    by (simp add: gdtr_bytes_def of_le_bytes_to_le_bytes take_bit_word_eq_self)
  note sim = set_reg_def high_add_numeral ok(2) install_gdt_def mov_ax_value
    run_high [OF ok(1), where dir = dir] load_sreg_ok [where dir = dir]
  show ?thesis
    using c(1,2) loaded lgdt by (simp add: sim del: exec.simps(13))
qed

section \<open>Returning with the code segment loaded\<close>

definition ret_mem :: "u32 \<Rightarrow> nat \<Rightarrow> memory \<Rightarrow> memory" where
  "ret_mem lbl q m = store32 (4 + q) lbl (store32 (8 + q) (ucast KERNEL_CODE_SELECTOR) m)"

lemma ret_mem_outside: "x < 4 + q \<or> 12 + q \<le> x \<Longrightarrow> ret_mem lbl q m x = m x"
  unfolding ret_mem_def by (auto simp: store32_outside)

lemma ret_mem_loads:
  "load32 (ret_mem lbl q m) (4 + q) = lbl" "load32 (ret_mem lbl q m) (8 + q) = ucast KERNEL_CODE_SELECTOR"
  "load32 (ret_mem lbl q m) (18 + q) = load32 m (18 + q)"
  by (simp_all add: ret_mem_def load32_store32_other)

lemma gdt_loaded_cong:
  assumes "gdt_loaded m g" "\<And>x. 0x800 \<le> x \<Longrightarrow> x < 0x838 \<Longrightarrow> m' x = m x"
  shows "gdt_loaded m' g"
proof -
  have "load_bytes m' (0x800 + 8 * i) 8 = load_bytes m (0x800 + 8 * i) 8" if "i < 7" for i
    using that assms(2) by (intro nth_equalityI) (simp_all add: load_bytes_def)
  then show ?thesis using assms(1) by (simp add: gdt_loaded_def load64_def)
qed

lemma install_return:
  assumes ok: "image_ok I P" "P Install = install_gdt I"
    and c: "boot_paging dir c" "regs c ESP = high (12 + q)" "stack_room dir F q"
    and g: "gdt_loaded (cpu_mem c) (cpu_gdtr c)"
  shows "cpu_steps I P F 6 (goto (link_at I (Install, 14)) c) =
    Some (goto (load32 (cpu_mem c) (18 + q)) (c\<lparr>
      regs := (regs c)(EAX := link_at I (Install, 18), ESP := high (22 + q)),
      cpu_mem := ret_mem (link_at I (Install, 18)) q (cpu_mem c),
      sregs := (sregs c)(CS := KERNEL_CODE_SELECTOR)\<rparr>))"
proof -
  let ?m1 = "store32 (8 + q) (ucast KERNEL_CODE_SELECTOR) (cpu_mem c)"
  let ?m2 = "ret_mem (link_at I (Install, 18)) q (cpu_mem c)"
  have v: "boot_view dir (cregs c) ?m1" "boot_view dir (cregs c) ?m2"
    unfolding ret_mem_def using c(1,3) by (auto simp: stack_room_def intro!: boot_view_store32)
  have g2: "gdt_loaded ?m2 (cpu_gdtr c)"
    by (rule gdt_loaded_cong [OF g]) (use c(3) in \<open>auto simp: stack_room_def ret_mem_outside\<close>)
  have cs: "(ucast (ucast KERNEL_CODE_SELECTOR :: u32) :: u16) = KERNEL_CODE_SELECTOR"
    by (simp add: KERNEL_CODE_SELECTOR_def)
  let ?c3 = "goto (link_at I (Install, 17)) (c\<lparr>regs := (regs c)(EAX := link_at I (Install, 18), ESP := high (4 + q)), cpu_mem := ?m2\<rparr>)"
  note sim = set_reg_def high_sub_numeral high_add_numeral ok(2) install_gdt_def cs
    run_high [OF ok(1), where dir = dir] load_sreg_ok [where dir = dir] ret_mem_loads
  have run3: "cpu_steps I P F 3 (goto (link_at I (Install, 14)) c) = Some ?c3"
    using v(1) c by (simp add: sim push_high [where dir = dir] stack_room_def ret_mem_def)
  have "cpu_steps I P F 3 ?c3 = Some (goto (load32 (cpu_mem c) (18 + q)) (c\<lparr>
      regs := (regs c)(EAX := link_at I (Install, 18), ESP := high (22 + q)), cpu_mem := ?m2,
      sregs := (sregs c)(CS := KERNEL_CODE_SELECTOR)\<rparr>))"
    using v(2) c g2 by (simp add: sim pop_high [where dir = dir] stack_room_def)
  then show ?thesis
    using run3 cpu_steps_add [of I P F 3 3 "goto (link_at I (Install, 14)) c"] by simp
qed

section \<open>The whole of install\_gdt\<close>

lemma cpu_steps_chain:
  "cpu_steps I P F m c = Some c' \<Longrightarrow> cpu_steps I P F n c' = r \<Longrightarrow> cpu_steps I P F (m + n) c = r"
  by (simp add: cpu_steps_add)

text \<open>What \<open>install_gdt\<close> leaves behind, for a caller whose return address was at \<open>18 + q\<close>.\<close>

definition gdt_installed :: "callee \<Rightarrow> nat \<Rightarrow> cpu \<Rightarrow> cpu \<Rightarrow> bool" where
  "gdt_installed F q c c' \<longleftrightarrow>
     regs c' ESP = high (22 + q) \<and> regs c' EBX = regs c EBX \<and> regs c' ESI = regs c ESI \<and>
     cregs c' = cregs c \<and> gdt_loaded (cpu_mem c') (cpu_gdtr c') \<and>
     sregs c' CS = KERNEL_CODE_SELECTOR \<and> sregs c' SS = KERNEL_STACK_SELECTOR \<and>
     (\<forall>r \<in> {DS, ES, FS, GS}. sregs c' r = KERNEL_DATA_SELECTOR) \<and>
     (\<forall>x. \<not> (0x800 \<le> x \<and> x < 0x838) \<longrightarrow> x < q - length (left_frame F) \<or> 18 + q \<le> x \<longrightarrow>
        cpu_mem c' x = cpu_mem c x)"

lemma gdt_installed_mem:
  "gdt_installed F q c c' \<Longrightarrow> \<not> (0x800 \<le> x \<and> x < 0x838) \<Longrightarrow> x < q - length (left_frame F) \<or> 18 + q \<le> x \<Longrightarrow>
     cpu_mem c' x = cpu_mem c x"
  unfolding gdt_installed_def by blast

lemma install_gdt_run:
  assumes ok: "image_ok I P" "P Install = install_gdt I" "P Write_Gdt = [Fn_write_gdt]"
    and c: "boot_paging dir c" "regs c ESP = high (18 + q)" "stack_room dir F q"
  shows "\<exists>c'. cpu_steps I P F 21 (goto (link_at I (Install, 0)) c) = Some (goto (load32 (cpu_mem c) (18 + q)) c') \<and>
    gdt_installed F q c c' \<and> boot_paging dir c'"
proof -
  let ?ra = "link_at I (Install, 5)"
  let ?m1 = "call_mem ?ra q (cpu_mem c)" and ?m2 = "gdt_mem ?ra F q (cpu_mem c)"
  let ?c1 = "c\<lparr>regs := (regs c)(EAX := high (12 + q), ESP := high q), cpu_mem := ?m1\<rparr>"
  let ?c2 = "?c1\<lparr>regs := (regs ?c1)(ESP := high (4 + q), ECX := left_ecx F, EAX := left_eax F), cpu_mem := ?m2\<rparr>"
  note v = call_mem_view [OF c(1,3)]
  have s1: "cpu_steps I P F 5 (goto (link_at I (Install, 0)) c) = Some (goto (link_at I (Write_Gdt, 0)) ?c1)"
    by (rule install_call [OF ok c])
  have s2: "cpu_step I P F (goto (link_at I (Write_Gdt, 0)) ?c1) = Some (goto ?ra ?c2)"
    by (rule install_write [OF ok(1,3), of dir ?c1 q F ?ra "cpu_mem c"]) (use v c(3) in simp_all)
  let ?g = "\<lparr>limit = 55, base = GDT_BASE\<rparr>"
  obtain c3 where s3: "cpu_steps I P F 9 (goto ?ra ?c2) = Some (goto (link_at I (Install, 14)) c3)"
    and c3: "regs c3 ESP = high (12 + q)" "regs c3 EBX = regs c EBX" "regs c3 ESI = regs c ESI" "cregs c3 = cregs c"
      "cpu_mem c3 = ?m2" "cpu_gdtr c3 = ?g" "sregs c3 SS = KERNEL_STACK_SELECTOR"
      "\<forall>r \<in> {DS, ES, FS, GS}. sregs c3 r = KERNEL_DATA_SELECTOR"
    using install_segments [OF ok(1,2), of dir ?c2 q F] v c(3) gdt_mem_gdtr [OF c(3)] gdt_mem_entry [OF c(3)]
    by (auto simp: stack_room_def)
  have g: "gdt_loaded ?m2 ?g" using gdt_mem_entry [OF c(3)] by (simp add: gdt_loaded_def)
  let ?m3 = "ret_mem (link_at I (Install, 18)) q ?m2"
  obtain c4 where s4: "cpu_steps I P F 6 (goto (link_at I (Install, 14)) c3) = Some (goto (load32 ?m2 (18 + q)) c4)"
    and c4: "regs c4 ESP = high (22 + q)" "regs c4 EBX = regs c3 EBX" "regs c4 ESI = regs c3 ESI" "cregs c4 = cregs c3"
      "cpu_gdtr c4 = cpu_gdtr c3" "cpu_mem c4 = ?m3" "sregs c4 = (sregs c3)(CS := KERNEL_CODE_SELECTOR)"
    using install_return [OF ok(1,2), of dir c3 q F] c3 v g c(3) by auto
  have out: "?m3 x = cpu_mem c x" if "\<not> (0x800 \<le> x \<and> x < 0x838)" "x < q - length (left_frame F) \<or> 18 + q \<le> x" for x
    using that gdt_mem_outside [OF c(3) that] c(3) by (subst ret_mem_outside) (auto simp: stack_room_def)
  have "load32 ?m2 (18 + q) = load32 (cpu_mem c) (18 + q)"
    using gdt_mem_outside [OF c(3)] c(3) by (intro load32_cong) (auto simp: stack_room_def)
  moreover have "gdt_loaded ?m3 ?g"
    by (rule gdt_loaded_cong [OF g]) (use c(3) in \<open>auto simp: stack_room_def ret_mem_outside\<close>)
  moreover have "boot_view dir (cregs c) ?m3"
    unfolding ret_mem_def using v(5) c(3) by (auto simp: stack_room_def intro!: boot_view_store32)
  moreover have "cpu_steps I P F 21 (goto (link_at I (Install, 0)) c) = Some (goto (load32 ?m2 (18 + q)) c4)"
    using cpu_steps_chain [OF s1 cpu_steps_chain [OF _ cpu_steps_chain [OF s3 s4]], of 1] s2 by simp
  ultimately show ?thesis
    using c3 c4 out by (auto simp: gdt_installed_def)
qed

end
