(* ===== verification/Boot_Properties.thy ===== *)
theory Boot_Properties
  imports Boot_Proofs
begin

text \<open>
  The boot path from the loader's hand-off to the entry of \<open>kernel_main\<close>, and the properties of
  \<open>install_gdt\<close>.
\<close>

section \<open>The start code\<close>

text \<open>The directory the image carries at \<open>dir\<close>.\<close>

definition boot_directory_at :: "u32 \<Rightarrow> memory \<Rightarrow> bool" where
  "boot_directory_at dir m \<longleftrightarrow> is_frame_aligned (PhysAddr dir) \<and>
     (\<exists>es. bootstrap_directory Debug = Inr es \<and>
        (\<forall>i < ENTRY_COUNT. load32 m (unat dir + 4 * i) = pde_raw (es ! i)))"

lemma boot_directory_view:
  assumes "boot_directory_at dir m" "bit (C CR0) 31" "bit (C CR4) 4" "C CR3 = dir"
  shows "boot_view dir C m"
proof -
  obtain es where "bootstrap_directory Debug = Inr es"
    "\<forall>i < ENTRY_COUNT. load32 m (unat dir + 4 * i) = pde_raw (es ! i)"
    using assms(1) by (auto simp: boot_directory_at_def)
  then show ?thesis
    using assms bootstrap_entries [of Debug] by (auto simp: boot_view_def boot_directory_at_def ENTRY_COUNT_def)
qed

lemma start_run:
  assumes ok: "image_ok I P" "P Start = start_code I dir"
    and c: "\<not> bit (cregs c CR0) 31" "boot_directory_at dir (cpu_mem c)"
  shows "\<exists>c'. cpu_steps I P F 11 (goto (link_at I (Start, 0)) c) = Some (goto (link_at I (Higher_Half, 0)) c') \<and>
    regs c' ESI = regs c EAX \<and> regs c' EBX = regs c EBX \<and> cpu_mem c' = cpu_mem c \<and> boot_paging dir c'"
proof -
  let ?C = "(cregs c)(CR3 := dir, CR4 := cregs c CR4 OR push_bit 4 1, CR0 := cregs c CR0 OR push_bit 31 1)"
  have v: "boot_view dir ?C (cpu_mem c)"
    using c(2) by (intro boot_directory_view) (simp_all add: bit_simps del: push_bit_of_1)
  note low = run_start [OF ok(1), where dir = dir]
  note sim = set_reg_def ok(2) start_code_def
  let ?c = "c\<lparr>regs := (regs c)(ESI := regs c EAX, EAX := cregs c CR0 OR push_bit 31 1, ECX := link_at I (Higher_Half, 0)),
        cregs := ?C\<rparr>"
  have run: "cpu_steps I P F 11 (goto (link_at I (Start, 0)) c) = Some (goto (link_at I (Higher_Half, 0)) ?c)"
    using c(1) v by (simp add: sim low del: push_bit_of_1 fun_upd_apply) (simp add: sim low)
  show ?thesis
    by (intro exI [of _ ?c] conjI, rule run) (use v in simp_all)
qed

section \<open>The higher half\<close>

lemma higher_half_run:
  assumes ok: "image_ok I P" "P Higher_Half = higher_half_code I (high (38 + q))" "P Install = install_gdt I"
      "P Write_Gdt = [Fn_write_gdt]"
    and c: "boot_paging dir c" "stack_room dir F q" "38 + q \<le> 0x400000"
  shows "\<exists>c'. cpu_steps I P F 27 (goto (link_at I (Higher_Half, 0)) c) = Some (goto (link_at I (Kernel_Main, 0)) c') \<and>
    regs c' ESP = high (18 + q) \<and> load32 (cpu_mem c') (18 + q) = link_at I (Higher_Half, 6) \<and>
    load32 (cpu_mem c') (22 + q) = regs c ESI \<and> load32 (cpu_mem c') (26 + q) = regs c EBX \<and>
    sregs c' CS = KERNEL_CODE_SELECTOR \<and> sregs c' SS = KERNEL_STACK_SELECTOR \<and>
    (\<forall>r \<in> {DS, ES, FS, GS}. sregs c' r = KERNEL_DATA_SELECTOR) \<and>
    gdt_loaded (cpu_mem c') (cpu_gdtr c') \<and> boot_paging dir c' \<and>
    (\<forall>x. \<not> (0x800 \<le> x \<and> x < 0x838) \<longrightarrow> x < q - length (left_frame F) \<or> 30 + q \<le> x \<longrightarrow>
       cpu_mem c' x = cpu_mem c x)"
proof -
  let ?m0 = "store32 (26 + q) (regs c EBX) (cpu_mem c)"
  let ?m1 = "store32 (22 + q) (regs c ESI) ?m0"
  let ?m2 = "store32 (18 + q) (link_at I (Higher_Half, 5)) ?m1"
  let ?c2 = "c\<lparr>regs := (regs c)(ESP := high (18 + q)), cpu_mem := ?m2\<rparr>"
  have v: "boot_view dir (cregs c) ?m0" "boot_view dir (cregs c) ?m1" "boot_view dir (cregs c) ?m2"
    using c(1,2) by (auto simp: stack_room_def intro!: boot_view_store32)
  note sim = set_reg_def high_sub_numeral high_add_numeral ok(2) higher_half_code_def numeral_2_eq_2 [symmetric]
    run_high [OF ok(1), where dir = dir] push_high [where dir = dir]
  have s1: "cpu_steps I P F 5 (goto (link_at I (Higher_Half, 0)) c) = Some (goto (link_at I (Install, 0)) ?c2)"
    using v c by (simp add: sim)
  obtain c3 where s2: "cpu_steps I P F 21 (goto (link_at I (Install, 0)) ?c2) = Some (goto (link_at I (Higher_Half, 5)) c3)"
    and c3: "gdt_installed F q ?c2 c3" "boot_paging dir c3"
    using install_gdt_run [OF ok(1,3,4), of dir ?c2 q F] v c(2) by auto
  let ?c4 = "c3\<lparr>regs := (regs c3)(ESP := high (18 + q)), cpu_mem := store32 (18 + q) (link_at I (Higher_Half, 6)) (cpu_mem c3)\<rparr>"
  have s3: "cpu_steps I P F 1 (goto (link_at I (Higher_Half, 5)) c3) = Some (goto (link_at I (Kernel_Main, 0)) ?c4)"
    using c3 c(2) by (simp add: sim gdt_installed_def stack_room_def)
  have keep: "cpu_mem c3 x = ?m2 x" if "18 + q \<le> x" for x
    using c3(1) c(2) that by (simp add: gdt_installed_def stack_room_def)
  then have "load32 (cpu_mem c3) (22 + q) = load32 ?m2 (22 + q)" "load32 (cpu_mem c3) (26 + q) = load32 ?m2 (26 + q)"
    by (auto intro!: load32_cong)
  then have args: "load32 (cpu_mem ?c4) (22 + q) = regs c ESI" "load32 (cpu_mem ?c4) (26 + q) = regs c EBX"
    by (simp_all add: load32_store32_other)
  have "gdt_loaded (cpu_mem ?c4) (cpu_gdtr ?c4)"
    using c3(1) c(2) by (auto simp: gdt_installed_def stack_room_def store32_outside intro: gdt_loaded_cong)
  moreover have "boot_paging dir ?c4"
    using c3(2) c(2) by (auto simp: stack_room_def intro: boot_view_store32)
  moreover have "cpu_mem ?c4 x = cpu_mem c x"
    if "\<not> (0x800 \<le> x \<and> x < 0x838)" "x < q - length (left_frame F) \<or> 30 + q \<le> x" for x
  proof -
    have "x < 18 + q \<or> 30 + q \<le> x" "x < q - length (left_frame F) \<or> 18 + q \<le> x" using that by auto
    moreover from this have "cpu_mem c3 x = ?m2 x" using gdt_installed_mem [OF c3(1) that(1)] by simp
    ultimately show ?thesis by (auto simp: store32_outside)
  qed
  moreover have "cpu_steps I P F 27 (goto (link_at I (Higher_Half, 0)) c) = Some (goto (link_at I (Kernel_Main, 0)) ?c4)"
    using cpu_steps_chain [OF s1 cpu_steps_chain [OF s2 s3]] by simp
  ultimately show ?thesis
    using c3(1) args by (intro exI [of _ ?c4]) (simp add: gdt_installed_def del: cpu_steps_numeral)
qed

section \<open>A sample machine\<close>

text \<open>One placement of the code, and the machine a loader leaves behind.\<close>

fun block_base :: "block \<Rightarrow> nat" where
  "block_base Start = 0x200100"
| "block_base Higher_Half = 0x202000"
| "block_base Install = 0x203000"
| "block_base Write_Gdt = 0x204000"
| "block_base Kernel_Main = 0x205000"

definition sample_image :: image where
  "sample_image =
     \<lparr>link_at = (\<lambda>(b, k). if b = Start then of_nat (block_base b + 16 * k) else high (block_base b + 16 * k)),
      load_at = (\<lambda>(b, k). block_base b + 16 * k)\<rparr>"

definition sample_callee :: callee where
  "sample_callee = \<lparr>left_eax = 7, left_ecx = 8, left_frame = [1, 2, 3, 4]\<rparr>"

definition sample_cpu :: cpu where
  "sample_cpu =
     \<lparr>regs = (\<lambda>_. 0)(EAX := 0x2BADB002, EBX := 0x10000), sregs = (\<lambda>_. 0), cregs = (\<lambda>_. 0)(CR0 := 0x11),
      cpu_gdtr = \<lparr>limit = 0, base = 0\<rparr>, eip = link_at sample_image (Start, 0),
      cpu_mem = directory_memory 0x201000\<rparr>"

lemma block_lengths: "k < length (boot_blocks I dir stk b) \<Longrightarrow> k < 20"
  by (cases b) (simp_all add: start_code_def higher_half_code_def install_gdt_def)

lemma sample_image_ok: "image_ok sample_image (boot_blocks sample_image dir stk)"
proof -
  let ?P = "boot_blocks sample_image dir stk"
  have load: "block_base b + 16 * k < 0x400000" if "(b, k) \<in> set (sites ?P)" for b k
    using that block_lengths [of k sample_image dir stk b] by (cases b) (auto simp: site_iff)
  have link: "unat (link_at sample_image (b, k)) =
      (if b = Start then 0 else KERNEL_VIRTUAL_BASE) + (block_base b + 16 * k)" if "(b, k) \<in> set (sites ?P)" for b k
    using load [OF that] unat_high [of "block_base b + 16 * k"] unat_of_nat_u32 [of "block_base b + 16 * k"]
    by (cases b) (simp_all add: sample_image_def)
  have "inj_on (link_at sample_image) (set (sites ?P))"
  proof (rule inj_onI)
    fix s t assume st: "s \<in> set (sites ?P)" "t \<in> set (sites ?P)" "link_at sample_image s = link_at sample_image t"
    obtain b k b' k' where s: "s = (b, k)" "t = (b', k')" by (cases s, cases t) auto
    have "k < 20" "k' < 20" using st s block_lengths by (auto simp: site_iff)
    moreover have "(if b = Start then 0 else KERNEL_VIRTUAL_BASE) + (block_base b + 16 * k) =
        (if b' = Start then 0 else KERNEL_VIRTUAL_BASE) + (block_base b' + 16 * k')"
      using link [of b k] link [of b' k'] st unfolding s by simp
    ultimately show "s = t"
      unfolding s by (cases b; cases b') (simp_all add: KERNEL_VIRTUAL_BASE_def)
  qed
  then show ?thesis
    using load by (auto simp: image_ok_def sample_image_def)
qed

lemma sample_directory: "boot_directory_at 0x201000 (directory_memory 0x201000)"
  using bootstrap_entries [of Debug] load_directory_memory [of "0x201000"]
  by (auto simp: boot_directory_at_def is_frame_aligned_def ENTRY_COUNT_def)

section \<open>Properties\<close>

lemma goto_eip: "eip c = a \<Longrightarrow> goto a c = c"
  by (simp add: goto_def)

text \<open>Where the stub's stack lies: \<open>q\<close> is the physical address 38 bytes below its top.\<close>

lemma stub_stack:
  assumes "layout_ok L"
  defines "q \<equiv> stack_top L - KERNEL_VIRTUAL_BASE - 38"
  shows "stack_top L = KERNEL_VIRTUAL_BASE + (38 + q)" "38 + q \<le> 0x400000"
    "KERNEL_VIRTUAL_BASE + q + 38 = stack_bottom L + 65536" "(KERNEL_VIRTUAL_BASE + 22 + q) mod 16 = 0"
proof -
  note L = assms(1) [unfolded layout_ok_def KERNEL_VIRTUAL_BASE_def]
  show top: "stack_top L = KERNEL_VIRTUAL_BASE + (38 + q)" "38 + q \<le> 0x400000"
    using L unfolding q_def KERNEL_VIRTUAL_BASE_def by linarith+
  show bottom: "KERNEL_VIRTUAL_BASE + q + 38 = stack_bottom L + 65536"
    using L top(1) by (simp add: KERNEL_VIRTUAL_BASE_def)
  have "4096 dvd stack_bottom L" using L by auto
  then obtain n where "stack_bottom L = 4096 * n" by blast
  then have "KERNEL_VIRTUAL_BASE + 22 + q = 4096 * n + 65520" using bottom by linarith
  also have "\<dots> = 16 * (256 * n + 4095)" by simp
  finally show "(KERNEL_VIRTUAL_BASE + 22 + q) mod 16 = 0" by (simp only: mod_mult_self1_is_0)
qed

lemma stub_below:
  assumes "stack_top L = KERNEL_VIRTUAL_BASE + (38 + q)" "KERNEL_VIRTUAL_BASE + q + 38 = stack_bottom L + 65536"
    and "n \<le> 0x8000"
    and "x \<notin> {stack_bottom L - KERNEL_VIRTUAL_BASE..<stack_top L - KERNEL_VIRTUAL_BASE}"
  shows "x < q - n \<or> 30 + q \<le> x"
proof -
  have "stack_bottom L - KERNEL_VIRTUAL_BASE \<le> q - n" using assms(2,3) by linarith
  moreover have "stack_top L - KERNEL_VIRTUAL_BASE = 38 + q" using assms(1) by simp
  ultimately show ?thesis using assms(4) by auto
qed

text \<open>The machine at the entry of \<open>kernel_main\<close>, given the machine \<open>c\<close> at the entry of the start code.\<close>

definition kernel_entered :: "layout \<Rightarrow> image \<Rightarrow> u32 \<Rightarrow> cpu \<Rightarrow> cpu \<Rightarrow> bool" where
  "kernel_entered L I dir c c' \<longleftrightarrow>
     eip c' = link_at I (Kernel_Main, 0) \<and>
     load_dword c' (unat (regs c' ESP) + 4) = Some (regs c EAX) \<and>
     load_dword c' (unat (regs c' ESP) + 8) = Some (regs c EBX) \<and>
     stack_bottom L \<le> unat (regs c' ESP) \<and> unat (regs c' ESP) + 20 = stack_top L \<and>
     (unat (regs c' ESP) + 4) mod 16 = 0 \<and> boot_paging dir c' \<and>
     sregs c' CS = KERNEL_CODE_SELECTOR \<and> sregs c' SS = KERNEL_STACK_SELECTOR \<and>
     (\<forall>r \<in> {DS, ES, FS, GS}. sregs c' r = KERNEL_DATA_SELECTOR) \<and>
     gdt_loaded (cpu_mem c') (cpu_gdtr c') \<and>
     (\<forall>x. x \<notin> {0x800..<0x838} \<union> {stack_bottom L - KERNEL_VIRTUAL_BASE..<stack_top L - KERNEL_VIRTUAL_BASE} \<longrightarrow>
        cpu_mem c' x = cpu_mem c x)"

lemma boot_stub_run:
  assumes "layout_ok L" "image_ok I (boot_blocks I dir (of_nat (stack_top L)))"
    and "kernel_phys_start L \<le> unat dir" "KERNEL_VIRTUAL_BASE + unat dir + 4096 \<le> kernel_virt_start L"
    and "boot_directory_at dir (cpu_mem c)" "eip c = link_at I (Start, 0)" "\<not> bit (cregs c CR0) 31"
    and "length (left_frame F) \<le> 0x8000"
  shows "\<exists>c'. cpu_steps I (boot_blocks I dir (of_nat (stack_top L))) F 38 c = Some c' \<and> kernel_entered L I dir c c'"
proof -
  let ?P = "boot_blocks I dir (of_nat (stack_top L))"
  define q where "q = stack_top L - KERNEL_VIRTUAL_BASE - 38"
  note q = stub_stack [OF assms(1), folded q_def]
  have stk: "of_nat (stack_top L) = high (38 + q)" using q(1) by (simp only: high_def)
  have room: "stack_room dir F q"
    using q assms(1,3,4,8) unfolding stack_room_def layout_ok_def by linarith
  obtain c1 where c1: "cpu_steps I ?P F 11 c = Some (goto (link_at I (Higher_Half, 0)) c1)"
    "regs c1 ESI = regs c EAX" "regs c1 EBX = regs c EBX" "cpu_mem c1 = cpu_mem c" "boot_paging dir c1"
    using start_run [OF assms(2) _ assms(7,5), of F] by (auto simp: goto_eip [OF assms(6)])
  obtain c2 where s2: "cpu_steps I ?P F 27 (goto (link_at I (Higher_Half, 0)) c1) = Some (goto (link_at I (Kernel_Main, 0)) c2)"
    and c2: "regs c2 ESP = high (18 + q)"
      "load32 (cpu_mem c2) (22 + q) = regs c EAX" "load32 (cpu_mem c2) (26 + q) = regs c EBX"
      "sregs c2 CS = KERNEL_CODE_SELECTOR" "sregs c2 SS = KERNEL_STACK_SELECTOR"
      "\<forall>r \<in> {DS, ES, FS, GS}. sregs c2 r = KERNEL_DATA_SELECTOR"
      "gdt_loaded (cpu_mem c2) (cpu_gdtr c2)" "boot_paging dir c2"
    and keep: "\<And>x. \<not> (0x800 \<le> x \<and> x < 0x838) \<Longrightarrow> x < q - length (left_frame F) \<or> 30 + q \<le> x \<Longrightarrow>
       cpu_mem c2 x = cpu_mem c x"
    using higher_half_run [OF assms(2) _ _ _ c1(5) room q(2)] c1(2-4) stk by auto
  let ?c = "goto (link_at I (Kernel_Main, 0)) c2"
  have sp: "unat (regs ?c ESP) = KERNEL_VIRTUAL_BASE + (18 + q)"
    using c2(1) q(2) unat_high [of "18 + q"] by simp
  have "load_dword ?c (unat (regs ?c ESP) + 4) = Some (regs c EAX)"
    "load_dword ?c (unat (regs ?c ESP) + 8) = Some (regs c EBX)"
    using load_dword_high [of dir ?c "22 + q"] load_dword_high [of dir ?c "26 + q"] c2 q(2)
    unfolding sp by (simp_all add: add_ac)
  moreover have "stack_bottom L \<le> unat (regs ?c ESP)" "unat (regs ?c ESP) + 20 = stack_top L"
    "(unat (regs ?c ESP) + 4) mod 16 = 0"
    using q(1,3,4) unfolding sp by (linarith, linarith, simp add: add_ac)
  moreover have "cpu_mem ?c x = cpu_mem c x"
    if "x \<notin> {0x800..<0x838} \<union> {stack_bottom L - KERNEL_VIRTUAL_BASE..<stack_top L - KERNEL_VIRTUAL_BASE}" for x
    using keep [of x] that stub_below [OF q(1,3) assms(8), of x] by auto
  moreover have "cpu_steps I ?P F 38 c = Some ?c"
    using cpu_steps_chain [OF c1(1) s2] by simp
  ultimately show ?thesis
    using c2 by (intro exI [of _ ?c]) (simp add: kernel_entered_def del: cpu_steps_numeral)
qed

text \<open>
  C7: from the loader to \<open>kernel_main\<close>.  The loader enters the start code with paging off, the
  magic in \<open>EAX\<close> and the information pointer in \<open>EBX\<close>.  For every placement of the code the linker
  may choose, the stub runs without a fault for 38 steps to the entry of \<open>kernel_main\<close>.  There the
  two values are its first and second argument, the stack pointer lies in the kernel stack with the
  alignment the calling convention asks for, the bootstrap directory translates all addresses, the
  kernel's own segments are loaded, and memory has changed only in the descriptor table and in the
  stack.
\<close>

theorem boot_stub_correct:
  assumes "layout_ok L" "image_ok I (boot_blocks I dir (of_nat (stack_top L)))"
    and "kernel_phys_start L \<le> unat dir" "KERNEL_VIRTUAL_BASE + unat dir + 4096 \<le> kernel_virt_start L"
    and "boot_directory_at dir (cpu_mem c)" "eip c = link_at I (Start, 0)" "\<not> bit (cregs c CR0) 31"
    and "length (left_frame F) \<le> 0x8000"
  shows "\<exists>c'. cpu_steps I (boot_blocks I dir (of_nat (stack_top L))) F 38 c = Some c' \<and>
    eip c' = link_at I (Kernel_Main, 0) \<and>
    load_dword c' (unat (regs c' ESP) + 4) = Some (regs c EAX) \<and>
    load_dword c' (unat (regs c' ESP) + 8) = Some (regs c EBX) \<and>
    stack_bottom L \<le> unat (regs c' ESP) \<and> unat (regs c' ESP) + 20 = stack_top L \<and>
    (unat (regs c' ESP) + 4) mod 16 = 0 \<and>
    (\<forall>a < 2 ^ 32. linear c' a = (if a < 0x400000 then Some a
       else if KERNEL_VIRTUAL_BASE \<le> a \<and> a < KERNEL_VIRTUAL_BASE + 0x400000
       then Some (a - KERNEL_VIRTUAL_BASE) else None)) \<and>
    sregs c' CS = KERNEL_CODE_SELECTOR \<and> sregs c' SS = KERNEL_STACK_SELECTOR \<and>
    (\<forall>r \<in> {DS, ES, FS, GS}. sregs c' r = KERNEL_DATA_SELECTOR) \<and>
    gdt_loaded (cpu_mem c') (cpu_gdtr c') \<and>
    (\<forall>x. x \<notin> {0x800..<0x838} \<union> {stack_bottom L - KERNEL_VIRTUAL_BASE..<stack_top L - KERNEL_VIRTUAL_BASE} \<longrightarrow>
       cpu_mem c' x = cpu_mem c x)"
proof -
  obtain c' where c': "cpu_steps I (boot_blocks I dir (of_nat (stack_top L))) F 38 c = Some c'"
    "kernel_entered L I dir c c'"
    by (rule exE [OF boot_stub_run [OF assms]]) (elim conjE)
  have "boot_paging dir c'" using c'(2) by (simp only: kernel_entered_def)
  note linear = linear_boot [OF this]
  show ?thesis
    by (intro exI [of _ c'] conjI c'(1)) (use c'(2) linear in \<open>simp_all add: kernel_entered_def\<close>)
qed

theorem boot_stub_correct_witness:
  "\<exists>c'. cpu_steps sample_image (boot_blocks sample_image 0x201000 (of_nat (stack_top sample_layout))) sample_callee 38
      sample_cpu = Some c' \<and> load_dword c' (unat (regs c' ESP) + 4) = Some 0x2BADB002"
proof -
  have "kernel_phys_start sample_layout = 0x200000" "kernel_virt_start sample_layout = 0xC0202000"
    unfolding sample_layout_def link_starts
    by (simp_all add: align_up_def div_ceil_def KERNEL_LMA_def KERNEL_VIRTUAL_BASE_def)
  then have addr: "kernel_phys_start sample_layout \<le> unat (0x201000 :: u32)"
    "KERNEL_VIRTUAL_BASE + unat (0x201000 :: u32) + 4096 \<le> kernel_virt_start sample_layout"
    by (simp_all add: KERNEL_VIRTUAL_BASE_def)
  have cpu: "boot_directory_at 0x201000 (cpu_mem sample_cpu)" "eip sample_cpu = link_at sample_image (Start, 0)"
    "\<not> bit (cregs sample_cpu CR0) 31" "regs sample_cpu EAX = 0x2BADB002"
    using sample_directory by (simp_all add: sample_cpu_def)
  have "length (left_frame sample_callee) \<le> 0x8000" by (simp add: sample_callee_def)
  from boot_stub_correct [OF sample_layout_ok sample_image_ok addr cpu(1-3) this] obtain c' where
    "cpu_steps sample_image (boot_blocks sample_image 0x201000 (of_nat (stack_top sample_layout))) sample_callee 38
      sample_cpu = Some c'" "load_dword c' (unat (regs c' ESP) + 4) = Some (regs sample_cpu EAX)"
    by (elim exE conjE)
  then show ?thesis unfolding cpu(4) by (intro exI conjI)
qed

text \<open>
  C19: \<open>install_gdt\<close>, called from anywhere in the high half.  It runs for 21 steps, returns to its
  caller with the stack pointer it was called with, leaves the kernel selectors in all six segment
  registers and the table register pointing at the bootstrap table, preserves the registers the
  caller relies on, and writes only the table and stack below the return address.
\<close>

theorem install_gdt_correct:
  assumes "image_ok I P" "P Install = install_gdt I" "P Write_Gdt = [Fn_write_gdt]"
    and "boot_paging dir c" "regs c ESP = high (18 + q)" "stack_room dir F q" "eip c = link_at I (Install, 0)"
  shows "\<exists>c'. cpu_steps I P F 21 c = Some c' \<and> eip c' = load32 (cpu_mem c) (18 + q) \<and>
    regs c' ESP = regs c ESP + 4 \<and> regs c' EBX = regs c EBX \<and> regs c' ESI = regs c ESI \<and> cregs c' = cregs c \<and>
    sregs c' CS = KERNEL_CODE_SELECTOR \<and> sregs c' SS = KERNEL_STACK_SELECTOR \<and>
    (\<forall>r \<in> {DS, ES, FS, GS}. sregs c' r = KERNEL_DATA_SELECTOR) \<and>
    cpu_gdtr c' = \<lparr>limit = of_nat gdt_size - 1, base = GDT_BASE\<rparr> \<and>
    (\<forall>i < GDT_ENTRY_COUNT. load64 (cpu_mem c') (unat GDT_BASE + 8 * i) = raw_bits (gdt_bootstrap ! i)) \<and>
    (\<forall>x. x \<notin> {unat GDT_BASE..<unat GDT_BASE + gdt_size} \<union> {q - length (left_frame F)..<18 + q} \<longrightarrow>
       cpu_mem c' x = cpu_mem c x)"
proof -
  obtain c' where c': "cpu_steps I P F 21 c = Some (goto (load32 (cpu_mem c) (18 + q)) c')" "gdt_installed F q c c'"
    using install_gdt_run [OF assms(1-6)] by (auto simp: goto_eip [OF assms(7)])
  have "cpu_mem c' x = cpu_mem c x"
    if "x \<notin> {unat GDT_BASE..<unat GDT_BASE + gdt_size} \<union> {q - length (left_frame F)..<18 + q}" for x
    using that by (intro gdt_installed_mem [OF c'(2)]) (auto simp: GDT_BASE_def gdt_size_def GDT_ENTRY_COUNT_def)
  moreover have "regs c' ESP = regs c ESP + 4"
    using c'(2) assms(5) by (simp add: gdt_installed_def high_add_numeral)
  ultimately show ?thesis
    using c' by (intro exI [of _ "goto (load32 (cpu_mem c) (18 + q)) c'"])
      (simp add: gdt_installed_def gdt_loaded_def gdt_size_def GDT_ENTRY_COUNT_def GDT_BASE_def del: cpu_steps_numeral)
qed

definition sample_caller :: cpu where
  "sample_caller =
     \<lparr>regs = (\<lambda>_. 0)(ESP := high (18 + 0x23FFFA)), sregs = (\<lambda>_. 0),
      cregs = (\<lambda>_. 0)(CR0 := 0x80000011, CR3 := 0x201000, CR4 := 0x10),
      cpu_gdtr = \<lparr>limit = 0, base = 0\<rparr>, eip = link_at sample_image (Install, 0),
      cpu_mem = directory_memory 0x201000\<rparr>"

lemma sample_caller_ok:
  "boot_paging 0x201000 sample_caller" "regs sample_caller ESP = high (18 + 0x23FFFA)"
  "eip sample_caller = link_at sample_image (Install, 0)" "stack_room 0x201000 sample_callee 0x23FFFA"
proof -
  show "boot_paging 0x201000 sample_caller"
    using sample_directory by (intro boot_directory_view) (simp_all add: sample_caller_def)
qed (simp_all add: sample_caller_def sample_callee_def stack_room_def)

theorem install_gdt_correct_witness:
  "\<exists>c'. cpu_steps sample_image (boot_blocks sample_image 0 0) sample_callee 21 sample_caller = Some c' \<and>
     sregs c' CS = KERNEL_CODE_SELECTOR"
  using install_gdt_correct [OF sample_image_ok _ _ sample_caller_ok(1,2,4,3), of 0 0]
  by (auto simp del: cpu_steps_numeral)

text \<open>
  C40: the stack at the call of \<open>write_gdt\<close>.  When \<open>install_gdt\<close> is entered with the alignment of the
  calling convention (the stack pointer plus four a multiple of 16), the compiled function
  \<open>write_gdt\<close> is entered with the stack pointer plus four congruent to 14 modulo 16, so neither the
  16-byte alignment of the convention nor that of a 32-bit argument holds there.
\<close>

theorem write_gdt_entered_misaligned:
  assumes "image_ok I P" "P Install = install_gdt I" "P Write_Gdt = [Fn_write_gdt]"
    and "boot_paging dir c" "regs c ESP = high (18 + q)" "stack_room dir F q" "eip c = link_at I (Install, 0)"
    and "(unat (regs c ESP) + 4) mod 16 = 0"
  shows "\<exists>c'. cpu_steps I P F 5 c = Some c' \<and> eip c' = link_at I (Write_Gdt, 0) \<and>
    (unat (regs c' ESP) + 4) mod 16 = 14"
proof -
  let ?c = "goto (link_at I (Write_Gdt, 0)) (c\<lparr>regs := (regs c)(EAX := high (12 + q), ESP := high q),
        cpu_mem := call_mem (link_at I (Install, 5)) q (cpu_mem c)\<rparr>)"
  have run: "cpu_steps I P F 5 c = Some ?c"
    using install_call [OF assms(1-6)] by (simp only: goto_eip [OF assms(7)])
  have "unat (high q) = KERNEL_VIRTUAL_BASE + q" "unat (high (18 + q)) = KERNEL_VIRTUAL_BASE + (18 + q)"
    using assms(6) by (auto simp: stack_room_def intro!: unat_high)
  then have "(unat (regs ?c ESP) + 4) mod 16 = 14"
    using assms(5,8) by (simp add: KERNEL_VIRTUAL_BASE_def) presburger
  then show ?thesis using run by (intro exI [of _ ?c]) (simp del: cpu_steps_numeral)
qed

theorem write_gdt_entered_misaligned_witness:
  "\<exists>c'. cpu_steps sample_image (boot_blocks sample_image 0 0) sample_callee 5 sample_caller = Some c' \<and>
     (unat (regs c' ESP) + 4) mod 16 = 14"
proof -
  have "(unat (regs sample_caller ESP) + 4) mod 16 = 0"
    using unat_high [of "18 + 0x23FFFA"] by (simp add: sample_caller_ok(2) KERNEL_VIRTUAL_BASE_def)
  then show ?thesis
    using write_gdt_entered_misaligned [OF sample_image_ok _ _ sample_caller_ok(1,2,4,3), of 0 0]
    by (auto simp del: cpu_steps_numeral)
qed

end
