(* ===== verification/Spec2Isabelle.thy ===== *)
theory Spec2Isabelle
  imports Kernel_Proofs Boot_Properties
begin

text \<open>
  A verification development for zkrnl32, a 32-bit x86 kernel in Rust (\<open>src/src\<close>) with a boot stub
  in assembly (\<open>src/boot\<close>).

  \<^bold>\<open>The program.\<close>  A Multiboot loader enters \<open>_start\<close> of \<open>boot/boot.asm\<close> with paging off.  The stub
  loads the bootstrap page directory, turns paging on, jumps to the high half, sets up the stack, calls
  \<open>install_gdt\<close> (\<open>gdt.rs\<close>) and then \<open>kernel_main\<close> (\<open>lib.rs\<close>).  \<open>kernel_main\<close> checks the magic,
  clears the screen (\<open>vga.rs\<close>, \<open>console.rs\<close>), prints the memory map (\<open>multiboot.rs\<close>) and calls
  \<open>memory::init\<close> (\<open>memory/mod.rs\<close>), which fills the frame allocator (\<open>memory/frame.rs\<close>) from the
  map and replaces the bootstrap directory by the real one (\<open>memory/paging.rs\<close>).  Then it spins.  A
  panic anywhere enters the handler in \<open>lib.rs\<close>, which prints the message and a piece of the stack
  (\<open>stack.rs\<close>) and halts.

  \<^bold>\<open>Conventions\<close> (\<open>Kernel_Prelude\<close>).  Machine integers are words; \<open>usize\<close> is a natural number with the
  checks of 32-bit arithmetic written out.  The build profile is an argument: in \<open>Debug\<close>, which the
  Makefile builds, overflow and failed debug assertions panic; in \<open>Release\<close> arithmetic wraps.  Panics
  are values of type \<open>panic\<close>.  Stateful code has type \<open>('s, 'a) st\<close> and leaves a state behind also
  when it panics; code that may not end has type \<open>('s, 'a) dst\<close>, where \<open>None\<close> is a run that never
  ends.  Memory is a function from byte addresses.  \<open>Format\<close> holds the number formats of the
  messages.

  \<^bold>\<open>Theories and what they model.\<close>
  \<^item> \<open>Bits\<close> (\<open>utils/bits.rs\<close>) and \<open>Address\<close> (\<open>memory/address.rs\<close>): bit-range masks, the four typed
    addresses with their conversions, orders and debug formats.
  \<^item> \<open>Layout\<close> (\<open>memory/layout.rs\<close>, the symbols of \<open>stack.rs\<close>, \<open>boot/linker.ld\<close>): the linker symbols as
    a record; \<open>link\<close> computes them from the section sizes as the script does, and \<open>layout_ok\<close> is
    what every image of at most 0x1D0000 bytes satisfies.
  \<^item> \<open>Multiboot\<close> (\<open>multiboot.rs\<close>): the information structure, the entries, and the map iterator as a
    cursor over a byte buffer.  A loop over it, \<open>for_regions\<close>, is a partial function.
  \<^item> \<open>Frame\<close> (\<open>memory/frame.rs\<close>): every operation of the allocator on the list of bitmap words.
    \<open>Frame_Proofs\<close> relates the words to the set \<open>free_frames\<close>; \<open>Frame_Interface\<close> has the contracts
    of an allocator of runs and of a source of lowest frames as locales, with what clients conclude
    from them; \<open>Frame_Properties\<close> the properties.
  \<^item> \<open>Paging\<close> (\<open>memory/paging.rs\<close>): flags, entries, the bootstrap directory, \<open>map_bootstrap\<close> and
    \<open>init\<close> over the memory, the allocator, \<open>CR3\<close> and \<open>CR0\<close>.  \<open>Paging_Entries\<close> gives entries their
    meaning by the processor's walk \<open>mmu_walk\<close>; \<open>Paging_Tables\<close> has the invariant of a directory under
    construction; \<open>Paging_Proofs\<close> and \<open>Paging_Properties\<close> the construction and its result.
  \<^item> \<open>Volatile\<close> (\<open>volatile.rs\<close>) and \<open>Vga\<close> (\<open>vga.rs\<close>, \<open>console.rs\<close>): the element-wise copy, and the text
    console on the memory of the VGA buffer.  \<open>Console_Interface\<close> is the contract of a console as a
    locale; \<open>Vga_Proofs\<close> the refinement of an abstract terminal; \<open>Vga_Properties\<close> the properties.
  \<^item> \<open>Gdt\<close> (\<open>gdt.rs\<close>): descriptors, the table and \<open>write_gdt\<close>.  \<open>Cpu\<close>: the processor as the two
    pieces of assembly use it, with translation, segment loading and faults.  \<open>Boot\<close>
    (\<open>boot/boot.asm\<close>, \<open>install_gdt\<close>): the instruction lists; \<open>Boot_Proofs\<close> and \<open>Boot_Properties\<close>
    their execution.
  \<^item> \<open>Kernel\<close> (\<open>stack.rs\<close>, \<open>lib.rs\<close>, \<open>memory/mod.rs\<close>, \<open>print_memory_map\<close>): the code above the
    components, over one state that extends the paging machine by the other statics;
    \<open>Kernel_Proofs\<close> its effect on screen, memory and translation.
  \<^item> This theory: the composition of stub and kernel (\<open>boot_run\<close>), an example machine, and the
    properties that span components.

  \<^bold>\<open>What is shown.\<close>  End to end, \<open>loader_to_spin\<close>: a good hand-off ends in the spin loop with the right
  screen, translation and free frames.  For the allocator: first fit is complete, owners never overlap,
  double frees are caught, initialisation publishes exactly the usable frames, and the state stays well
  formed even across panics.  For paging: the installed directory translates every address as
  specified and only free memory is written.  For the console: refinement of the terminal, and
  nothing outside the buffer is written.  For the boot path: stub, \<open>install_gdt\<close> and \<open>write_gdt\<close>
  instruction by instruction, and that the table, the image and the guard page survive
  \<open>memory::init\<close>.  For failures: a wrong magic, a missing map, too little memory, a corrupt map in
  both profiles, re-entered panics and stack dumps of wild addresses.  The map walk ends in \<open>Debug\<close> on
  every buffer and may run forever in \<open>Release\<close>; every run of the kernel ends in \<open>Debug\<close>.

  \<^bold>\<open>Parameters, hypotheses and bounds.\<close>  What the sources do not determine is an argument: the placement
  of instructions (\<open>image\<close>, with distinct addresses loaded below 4 MiB), what a compiled callee leaves in
  scratch registers and below its stack pointer (\<open>callee\<close>, at most 32 KiB), the text of \<open>PanicInfo\<close>,
  and the stack pointer at a dump.  \<open>handoff\<close> states what Multiboot documents of the structure and the
  map, and that both lie in the identity-mapped 4 MiB away from the screen.  The stub takes 38 steps, so
  \<open>cpu_steps\<close> needs no further fuel.  The sums over map entries stay below \<open>2 ^ 60\<close> since a map has
  less than \<open>2 ^ 32\<close> bytes.

  \<^bold>\<open>Not modelled.\<close>  The statics of the kernel are fields of the state and not bytes of its image, and a
  map buffer is read once per borrow, which the borrow rules justify.  The console and the loader's
  structure are accessed at physical addresses; the translation of these addresses is stated
  separately, and the null and alignment checks that debug builds insert at raw pointer accesses are
  left out.  Caching and the translation buffer are absent, as the code reloads \<open>CR3\<close> where it
  matters.  Trivial accessors (\<open>new\<close>, \<open>raw\<close>, \<open>index\<close>, field getters) are constructors and selectors.
  \<open>prelude.rs\<close>, \<open>utils/mod.rs\<close> and the module lines only declare names; \<open>grub.cfg\<close>, the Makefile and
  the target file configure other tools.
\<close>

section \<open>From the loader to the kernel\<close>

text \<open>
  The state \<open>kernel_main\<close> starts with: the machine the boot stub leaves, and the initial values of
  the statics \<open>FRAME_ALLOCATOR\<close>, \<open>VGA_WRITER\<close> and \<open>PANICKING\<close>.
\<close>

definition kernel_entry :: "cpu \<Rightarrow> kernel" where
  "kernel_entry c =
     \<lparr>mem = cpu_mem c, frame_alloc = frame_bitmap_new, cr3 = cregs c CR3, cr0 = cregs c CR0,
      vga_static = vga_writer_new, panicking = False\<rparr>"

text \<open>
  A whole run: the stub up to its call of \<open>kernel_main\<close>, which takes its two arguments from the stack.
\<close>

definition boot_run ::
  "profile \<Rightarrow> layout \<Rightarrow> image \<Rightarrow> u32 \<Rightarrow> callee \<Rightarrow> (panic \<Rightarrow> string list) \<Rightarrow> usize \<Rightarrow> cpu \<Rightarrow> outcome option" where
  "boot_run p L I dir F show_info esp c =
     (case cpu_steps I (boot_blocks I dir (of_nat (stack_top L))) F 38 c of
        Some c' \<Rightarrow>
          if eip c' = link_at I (Kernel_Main, 0) then
            (case (load_dword c' (unat (regs c' ESP) + 4), load_dword c' (unat (regs c' ESP) + 8)) of
               (Some magic, Some info) \<Rightarrow> run_kernel p L show_info esp magic (unat info) (kernel_entry c')
             | _ \<Rightarrow> None)
          else None
      | None \<Rightarrow> None)"

text \<open>What the loader guarantees at the entry of the stub.\<close>

definition loader_state :: "layout \<Rightarrow> image \<Rightarrow> u32 \<Rightarrow> callee \<Rightarrow> cpu \<Rightarrow> bool" where
  "loader_state L I dir F c \<longleftrightarrow>
     layout_ok L \<and> image_ok I (boot_blocks I dir (of_nat (stack_top L))) \<and>
     kernel_phys_start L \<le> unat dir \<and> KERNEL_VIRTUAL_BASE + unat dir + 4096 \<le> kernel_virt_start L \<and>
     boot_directory_at dir (cpu_mem c) \<and> eip c = link_at I (Start, 0) \<and> \<not> bit (cregs c CR0) 31 \<and>
     length (left_frame F) \<le> 0x8000"

text \<open>The memory the stub writes: the descriptor table and the kernel's stack.\<close>

definition stub_bytes :: "layout \<Rightarrow> nat set" where
  "stub_bytes L = {0x800..<0x838} \<union> {stack_bottom L - KERNEL_VIRTUAL_BASE..<stack_top L - KERNEL_VIRTUAL_BASE}"

definition blank_terminal :: terminal where
  "blank_terminal = \<lparr>screen = replicate 25 (blank_line 0x0F), cur_row = 0, cur_col = 0, ink = 0x0F\<rparr>"

lemma boot_run_stub:
  assumes "loader_state L I dir F c"
  shows "\<exists>c'. kernel_entered L I dir c c' \<and> boot_run p L I dir F show_info esp c =
    run_kernel p L show_info esp (regs c EAX) (unat (regs c EBX)) (kernel_entry c')"
proof -
  have "\<exists>c'. cpu_steps I (boot_blocks I dir (of_nat (stack_top L))) F 38 c = Some c' \<and> kernel_entered L I dir c c'"
    using assms unfolding loader_state_def by (intro boot_stub_run) simp_all
  then obtain c' where c': "cpu_steps I (boot_blocks I dir (of_nat (stack_top L))) F 38 c = Some c'"
    "kernel_entered L I dir c c'" by (elim exE conjE)
  have "boot_run p L I dir F show_info esp c =
      run_kernel p L show_info esp (regs c EAX) (unat (regs c EBX)) (kernel_entry c')"
    unfolding boot_run_def c'(1) using c'(2) by (simp add: kernel_entered_def)
  with c'(2) show ?thesis by (intro exI conjI)
qed

lemma entry_console: "console_ok (kernel_entry c)" "term_clear (console_of (kernel_entry c)) = blank_terminal"
  by (simp_all add: kernel_entry_def display_of_def wf_display_def vga_writer_new_def terminal_of_def
      term_clear_def blank_terminal_def)

section \<open>An example machine\<close>

text \<open>
  The loader's structure at \<open>0x10000\<close>, its map of three regions at \<open>0x11000\<close>, and the bootstrap
  directory at \<open>0x201000\<close>.
\<close>

definition sample_memory :: memory where
  "sample_memory = store_bytes 0x11000 (encode_map sample_map)
     (store32 0x10030 0x11000 (store32 0x1002C 72 (store32 0x10000 0x40 (directory_memory 0x201000))))"

definition sample_kernel :: kernel where
  "sample_kernel = \<lparr>mem = sample_memory, frame_alloc = frame_bitmap_new, cr3 = 0x201000, cr0 = 0x80000011,
     vga_static = vga_writer_new, panicking = False\<rparr>"

lemma sample_load32:
  assumes "x + 4 \<le> 0x10000 \<or> 0x11048 \<le> x"
  shows "load32 sample_memory x = load32 (directory_memory 0x201000) x"
  using assms sample_map_ok(2)
  by (intro load32_cong) (auto simp: sample_memory_def store_bytes_outside store32_outside)

lemma sample_info:
  "mbi_flags (read_info sample_memory 0x10000) = 0x40"
  "mbi_mmap_length (read_info sample_memory 0x10000) = 72"
  "mbi_mmap_addr (read_info sample_memory 0x10000) = 0x11000"
proof -
  have "load32 sample_memory x = load32 (store32 0x10030 0x11000 (store32 0x1002C 72
      (store32 0x10000 0x40 (directory_memory 0x201000)))) x" if "x + 4 \<le> 0x11000" for x
    using that by (intro load32_cong) (auto simp: sample_memory_def store_bytes_outside)
  then show "mbi_flags (read_info sample_memory 0x10000) = 0x40"
    "mbi_mmap_length (read_info sample_memory 0x10000) = 72"
    "mbi_mmap_addr (read_info sample_memory 0x10000) = 0x11000"
    by (simp_all add: read_info_def load32_store32_other)
qed

lemma sample_handoff: "handoff (mem sample_kernel) 0x10000 sample_map"
proof -
  have "load_bytes sample_memory 0x11000 72 = encode_map sample_map"
    using load_bytes_store_bytes_same [of "0x11000" "encode_map sample_map"]
    by (simp add: sample_memory_def sample_map_ok(2))
  then show ?thesis
    using sample_map_ok(1)
    by (auto simp: handoff_def handoff_bytes_def sample_info sample_kernel_def FLAG_MMAP_def vga_bytes_def VGA_BUFFER_def)
qed

lemma sample_frames:
  "3 \<le> card (boot_frames sample_layout (map entry_region sample_map) \<inter> {..<1024})"
  "0xB8 \<notin> boot_frames sample_layout (map entry_region sample_map)"
proof -
  let ?F = "boot_frames sample_layout (map entry_region sample_map)"
  have start: "kernel_phys_start sample_layout = 0x200000"
    using sample_layout_ok by (simp add: layout_ok_def)
  have "{1, 2, 3} \<subseteq> ?F \<inter> {..<1024}"
    by (auto simp: boot_frames_def usable_frames_def sample_map_def entry_region_def region_is_available_def
        region_bytes_def frame_bytes_subset_iff touched_frames_def frame_bytes_def start FRAME_COUNT_eq)
  then have "card {1, 2, 3 :: nat} \<le> card (?F \<inter> {..<1024})" by (intro card_mono) auto
  then show "3 \<le> card (?F \<inter> {..<1024})" by simp
  show "0xB8 \<notin> ?F"
    by (auto simp: boot_frames_def usable_frames_def sample_map_def entry_region_def region_is_available_def
        region_bytes_def frame_bytes_subset_iff)
qed

lemma sample_console: "console_ok sample_kernel" "\<not> panicking sample_kernel"
  by (simp_all add: sample_kernel_def display_of_def wf_display_def vga_writer_new_def)


lemma sample_translating: "translating sample_layout sample_kernel"
proof -
  have "boot_directory sample_kernel"
    using sample_load32 load_directory_memory [of "0x201000"]
    by (auto simp: boot_directory_def sample_kernel_def is_frame_aligned_def vga_bytes_def VGA_BUFFER_def)
  then show ?thesis by (simp add: translating_def)
qed

lemma sample_loader:
  "loader_state sample_layout sample_image 0x201000 sample_callee (sample_cpu\<lparr>cpu_mem := sample_memory\<rparr>)"
proof -
  have "kernel_phys_start sample_layout = 0x200000" "kernel_virt_start sample_layout = 0xC0202000"
    unfolding sample_layout_def link_starts
    by (simp_all add: align_up_def div_ceil_def KERNEL_LMA_def KERNEL_VIRTUAL_BASE_def)
  moreover have "boot_directory_at 0x201000 sample_memory"
    using sample_directory sample_load32 by (simp add: boot_directory_at_def)
  ultimately show ?thesis
    using sample_layout_ok sample_image_ok
    by (simp add: loader_state_def sample_cpu_def sample_callee_def KERNEL_VIRTUAL_BASE_def)
qed

section \<open>Properties\<close>

text \<open>
  C1: from the loader to a running kernel.  For every placement of the code, a Multiboot loader that
  hands over a well-formed memory map, outside the screen and the memory the stub writes, with at
  least three usable frames in the low 4 MiB and none over the screen, gets a kernel that spins
  without having panicked or faulted.  The screen shows the boot messages on a blank page, paging
  and write protection are on, every address translates as \<open>kernel_walk\<close> says, the allocator owns
  the usable frames but three, and the kernel's descriptor table is still in place.
\<close>

theorem loader_to_spin:
  assumes "loader_state L I dir F c" "regs c EAX = BOOTLOADER_MAGIC"
    and "handoff (cpu_mem c) (unat (regs c EBX)) eps"
    and "handoff_bytes (cpu_mem c) (unat (regs c EBX)) \<inter> stub_bytes L = {}"
    and "\<forall>ep \<in> set eps. region_is_available (entry_region ep) \<longrightarrow> region_below_limit (entry_region ep)"
    and "3 \<le> card (boot_frames L (map entry_region eps) \<inter> {..<1024})"
    and "0xB8 \<notin> boot_frames L (map entry_region eps)"
  shows "\<exists>s' root low high. boot_run p L I dir F show_info esp c = Some (Spins s') \<and> \<not> panicking s' \<and>
    console_of s' = term_print (boot_text (map entry_region eps)) blank_terminal \<and>
    bit (cr0 s') 31 \<and> bit (cr0 s') 16 \<and> cr3 s' = of_nat (root * 4096) \<and>
    (\<forall>v. mmu_walk (mem s') (cr3 s') v = kernel_walk L root low high v) \<and>
    free_frames (frame_alloc s') = boot_frames L (map entry_region eps) - {root, low, high} \<and>
    gdt_loaded (mem s') \<lparr>limit = 55, base = GDT_BASE\<rparr>"
proof -
  let ?rs = "map entry_region eps"
  obtain c' where c': "kernel_entered L I dir c c'" "boot_run p L I dir F show_info esp c =
      run_kernel p L show_info esp (regs c EAX) (unat (regs c EBX)) (kernel_entry c')"
    by (rule exE [OF boot_run_stub [OF assms(1)]]) (elim conjE)
  have L: "layout_ok L" using assms(1) by (simp only: loader_state_def)
  have keep: "cpu_mem c' x = cpu_mem c x" if "x \<notin> stub_bytes L" for x
    using c'(1) that by (simp add: kernel_entered_def stub_bytes_def)
  have h: "handoff (mem (kernel_entry c')) (unat (regs c EBX)) eps"
  proof (rule handoff_cong [OF assms(3)])
    fix x assume "x \<in> handoff_bytes (cpu_mem c) (unat (regs c EBX))"
    then have "x \<notin> stub_bytes L" using assms(4) by blast
    then show "mem (kernel_entry c') x = cpu_mem c x" using keep by (simp add: kernel_entry_def)
  qed
  have "boot_state L (unat (regs c EBX)) eps (kernel_entry c')"
    using h L assms(5-7) entry_console(1) unfolding boot_state_def by (simp add: kernel_entry_def)
  from kernel_main_boots [OF this, of p] obtain s' root low high where
    s': "kernel_main p L BOOTLOADER_MAGIC (unat (regs c EBX)) (kernel_entry c') = Some (Inr (), s')"
    "console_of s' = term_print (boot_text ?rs) (term_clear (console_of (kernel_entry c')))"
    "free_frames (frame_alloc s') = boot_frames L ?rs - {root, low, high}"
    "\<And>x. x div 4096 \<notin> boot_frames L ?rs \<Longrightarrow> x \<notin> vga_bytes \<Longrightarrow> mem s' x = mem (kernel_entry c') x"
    "cr3 s' = of_nat (root * 4096)" "cr0 s' = cr0 (kernel_entry c') OR CR0_WP"
    "panicking s' = panicking (kernel_entry c')" "installed L (mem s') root low high" by metis
  have start: "mem (kernel_entry c') = cpu_mem c'" "cr0 (kernel_entry c') = cregs c' CR0" "\<not> panicking (kernel_entry c')"
    by (simp_all add: kernel_entry_def)
  have gdt: "mem s' x = cpu_mem c' x" if "0x800 \<le> x" "x < 0x838" for x
    using that boot_frames_spare(1) [of L ?rs] s'(4) [of x] by (simp add: start vga_bytes_def VGA_BUFFER_def)
  have "gdt_loaded (cpu_mem c') (cpu_gdtr c')" using c'(1) by (simp only: kernel_entered_def)
  then have "gdt_loaded (mem s') (cpu_gdtr c')" by (rule gdt_loaded_cong) (rule gdt)
  then have "gdt_loaded (mem s') \<lparr>limit = 55, base = GDT_BASE\<rparr>" by (simp add: gdt_loaded_def)
  moreover have "bit (cr0 s') 31" "bit (cr0 s') 16"
    using c'(1) unfolding s'(6) start by (simp_all add: kernel_entered_def boot_view_def bit_simps CR0_WP_def)
  moreover have "\<forall>v. mmu_walk (mem s') (cr3 s') v = kernel_walk L root low high v"
    unfolding s'(5) using installed_walk [OF L s'(8)] by blast
  moreover have "boot_run p L I dir F show_info esp c = Some (Spins s')"
    using s'(1) by (simp add: c'(2) assms(2) run_kernel_def)
  ultimately show ?thesis
    using s'(2,3,5,7) start(3) entry_console(2)
    by (intro exI [of _ s'] exI [of _ root] exI [of _ low] exI [of _ high]) simp
qed

theorem loader_to_spin_witness:
  "\<exists>s'. boot_run Debug sample_layout sample_image 0x201000 sample_callee (\<lambda>_. []) 0
      (sample_cpu\<lparr>cpu_mem := sample_memory\<rparr>) = Some (Spins s') \<and> \<not> panicking s'"
proof -
  let ?c = "sample_cpu\<lparr>cpu_mem := sample_memory\<rparr>"
  have c: "regs ?c EAX = BOOTLOADER_MAGIC" "unat (regs ?c EBX) = 0x10000" "cpu_mem ?c = mem sample_kernel"
    by (simp_all add: sample_cpu_def BOOTLOADER_MAGIC_def sample_kernel_def)
  have "handoff_bytes (cpu_mem ?c) (unat (regs ?c EBX)) \<inter> stub_bytes sample_layout = {}"
    using stack_extent(1) [OF sample_layout_ok] unfolding c(2)
    by (auto simp: handoff_bytes_def stub_bytes_def sample_info)
  moreover have "handoff (cpu_mem ?c) (unat (regs ?c EBX)) sample_map"
    unfolding c(2,3) by (rule sample_handoff)
  ultimately show ?thesis
    using loader_to_spin [OF sample_loader c(1) _ _ sample_map_ok(3) sample_frames, of Debug "\<lambda>_. []" 0] by blast
qed











text \<open>
  C11: the panic handler reports once and always ends.  The first panic sets \<open>PANICKING\<close>, prints the
  message in white on red and 16 dwords of stack, restores the colour, changes nothing else, and
  halts; any later entry, for whatever panic, halts at once and leaves the screen alone.  Even if
  the handler itself panics, it ends in a halt or a reset.
\<close>

theorem panic_handler_reports_once:
  assumes "layout_ok L" "translating L s" "console_ok s" "\<not> panicking s"
  shows "\<exists>s'. panic_handler p L show_info esp e s = Halts s' \<and>
    console_of s' = panic_screen L (mem s) (show_info e) esp (console_of s) \<and>
    color (vga_static s') = color (vga_static s) \<and>
    frame_alloc s' = frame_alloc s \<and> cr3 s' = cr3 s \<and> cr0 s' = cr0 s \<and>
    (\<forall>x. x \<notin> vga_bytes \<longrightarrow> mem s' x = mem s x) \<and>
    (\<forall>q show' esp' e'. panic_handler q L show' esp' e' s' = Halts s')"
proof -
  obtain s' where s': "panic_handler p L show_info esp e s = Halts s'" "panicking s'"
    "shown (panic_screen L (mem s) (show_info e) esp) (s\<lparr>panicking := True\<rparr>) s'"
    using panic_handler_halts [OF assms(1) translating_stack [OF assms(1,2)] assms(3,4)] by blast
  have "ink (console_of s') = ink (console_of s)"
    using s'(3) by (simp add: shown_def panic_screen_def term_print_def fold_term_byte_ink term_print_color_def
        display_of_def)
  moreover have "panic_handler q L show' esp' e' s' = Halts s'" for q show' esp' e'
    using s'(2) by (simp add: panic_handler.simps)
  ultimately show ?thesis
    using s' by (auto simp: shown_def display_of_def terminal_of_def)
qed

theorem panic_handler_reports_once_witness:
  "\<exists>s'. panic_handler Debug sample_layout (\<lambda>_. [''boom'']) 0 Double_Free sample_kernel = Halts s' \<and>
     panic_handler Debug sample_layout (\<lambda>_. [''again'']) 4 Arith_Overflow s' = Halts s'"
  using panic_handler_reports_once [OF sample_layout_ok sample_translating sample_console, of Debug
      "\<lambda>_. [''boom'']" 0 Double_Free] by blast

text \<open>
  C12: the stack dump is safe for any address and count.  It never panics or faults and prints
  \<open>stack_report\<close>: outside the stack a diagnostic line, and inside it at most the dwords asked for,
  with the values memory held, each of them aligned and wholly inside the stack.  Nothing but the
  screen changes.
\<close>

theorem dump_stack_safe:
  assumes "layout_ok L" "translating L s" "console_ok s"
  shows "\<exists>s'. dump_stack_from p L addr n s = (Inr (), s') \<and>
    console_of s' = term_print (stack_report L (mem s) addr n) (console_of s) \<and>
    (\<forall>x. x \<notin> vga_bytes \<longrightarrow> mem s' x = mem s x) \<and> length (dumped L addr n) \<le> n \<and>
    (stack_bottom L \<le> addr - addr mod 4 \<longrightarrow>
      (\<forall>a \<in> set (dumped L addr n). stack_bottom L \<le> a \<and> a + 4 \<le> stack_top L \<and> 4 dvd a))"
proof -
  obtain s' where "dump_stack_from p L addr n s = (Inr (), s')"
    "shown (term_print (stack_report L (mem s) addr n)) s s'"
    using dump_stack_shown [OF assms(1) translating_stack [OF assms(1,2)] assms(3), of p addr n]
    unfolding says_def by blast
  moreover have "length (dumped L addr n) \<le> n" by (simp add: dumped_def Let_def)
  ultimately show ?thesis
    using dumped_bounds [OF assms(1)] unfolding shown_def by (intro exI [of _ s'] conjI impI ballI) blast+
qed

theorem dump_stack_safe_witness:
  "\<exists>s'. dump_stack_from Debug sample_layout 0xFFFFFFFF 4 sample_kernel = (Inr (), s') \<and>
     mem s' 0x11000 = mem sample_kernel 0x11000"
proof -
  have "0x11000 \<notin> vga_bytes" by (simp add: vga_bytes_def VGA_BUFFER_def)
  then show ?thesis
    using dump_stack_safe [OF sample_layout_ok sample_translating sample_console(1), of Debug "0xFFFFFFFF" 4]
    by blast
qed

text \<open>
  C18: with overflow checks on, a run of the kernel always ends in its spin loop, a halt or a reset,
  whatever the loader left in memory and in the registers.
\<close>

theorem kernel_debug_returns:
  "\<exists>out. run_kernel Debug L show_info esp magic info s = Some out"
proof -
  obtain r s' where "kernel_main Debug L magic info s = Some (r, s')"
    using kernel_main_returns [of L magic info s] by auto
  then show ?thesis
    by (auto simp: run_kernel_def split: sum.splits panic.splits)
qed

text \<open>
  C25: the printed memory map.  For a well-formed map \<open>print_memory_map\<close> returns without a panic in
  both profiles, since the sum of all addressable bytes stays far below 64 bits, and prints a line
  per region, in order, followed by the sum over the available ones in KiB; only the screen changes.
\<close>

theorem print_memory_map_correct:
  assumes "handoff (mem s) info eps" "console_ok s"
  shows "\<exists>s'. print_memory_map p info s = Some (Inr (), s') \<and>
    console_of s' = term_print (map_report (map entry_region eps)) (console_of s) \<and>
    usable_bytes (map entry_region eps) < 2 ^ 60 \<and>
    (\<forall>x. x \<notin> vga_bytes \<longrightarrow> mem s' x = mem s x)"
proof -
  have "length eps * 2 ^ 32 < 2 ^ 60"
    using encode_map_entries [of eps] handoff_map(3) [OF assms(1)] by simp
  then have "usable_bytes (map entry_region eps) < 2 ^ 60"
    using usable_bytes_bound [of "map entry_region eps"] by simp
  then show ?thesis
    using print_memory_map_shown [OF assms, of p] by (auto simp: shown_def)
qed

theorem print_memory_map_correct_witness:
  "\<exists>s'. print_memory_map Debug 0x10000 sample_kernel = Some (Inr (), s') \<and>
     mem s' 0x11000 = mem sample_kernel 0x11000"
proof -
  have "0x11000 \<notin> vga_bytes" by (simp add: vga_bytes_def VGA_BUFFER_def)
  then show ?thesis
    using print_memory_map_correct [OF sample_handoff sample_console(1), of Debug] by blast
qed

end
